(* ===== verification/Prelude.thy ===== *)
theory Prelude
  imports Main "HOL-Library.Word" "HOL-Library.List_Lexorder" "HOL-Library.Char_ord"
begin

text \<open>
  Shared vocabulary of the development: the machine integers and byte strings of the pool, the
  outcome type of its fallible functions, the little- and big-endian readings of byte strings,
  the documented lower-case hexadecimal text of a byte string, and the lemmas on them that the
  component theories use through the collections \<open>len_simps\<close>, \<open>byte_simps\<close> and
  \<open>outcome_simps\<close>. The last section holds the locale \<open>event_loop\<close>, the contract that
  every long-running loop of the pool meets (a start state and a step that keeps an invariant).
\<close>

named_theorems len_simps
named_theorems byte_simps
named_theorems outcome_simps

section \<open>Machine integers and byte strings\<close>

type_synonym u8 = "8 word"
type_synonym u16 = "16 word"
type_synonym u32 = "32 word"
type_synonym u64 = "64 word"
type_synonym u128 = "128 word"
type_synonym bytes = "8 word list"

section \<open>Outcomes\<close>

text \<open>
  A Rust function of type \<open>anyhow::Result<T>\<close> returns \<open>Inr\<close> a value, or \<open>Inl\<close> an error. A
  panic (an \<open>expect\<close>, a failing \<open>copy_from_slice\<close>, an arithmetic overflow under the checks of
  the development profile, which is the one \<open>just run\<close> and the tests use) is an \<open>Inl\<close> too, of
  the other constructor, because it ends the function at the same point.
\<close>

datatype error = Bail string | Panic string

type_synonym 'a outcome = "error + 'a"

fun and_then :: "'a outcome \<Rightarrow> ('a \<Rightarrow> 'b outcome) \<Rightarrow> 'b outcome" where
  "and_then (Inl e) f = Inl e"
| "and_then (Inr x) f = f x"

definition ok_or :: "error \<Rightarrow> 'a option \<Rightarrow> 'a outcome" where
  "ok_or e o' = (case o' of None \<Rightarrow> Inl e | Some x \<Rightarrow> Inr x)"

lemma ok_or_simps [simp, outcome_simps]:
  "ok_or e None = Inl e"
  "ok_or e (Some x) = Inr x"
  by (simp_all add: ok_or_def)

lemma ok_or_eq_Inr [simp, outcome_simps]: "ok_or e o' = Inr x \<longleftrightarrow> o' = Some x"
  by (cases o') auto

lemma and_then_eq_Inr [simp, outcome_simps]:
  "and_then r f = Inr y \<longleftrightarrow> (\<exists>x. r = Inr x \<and> f x = Inr y)"
  by (cases r) auto

lemma and_then_eq_Inl [outcome_simps]:
  "and_then r f = Inl e \<longleftrightarrow> r = Inl e \<or> (\<exists>x. r = Inr x \<and> f x = Inl e)"
  by (cases r) auto

text \<open>\<open>mapM f\<close> is Rust's \<open>iter().map(f).collect::<Result<Vec<_>>>()\<close>: the first error wins.\<close>

fun mapM :: "('a \<Rightarrow> 'b outcome) \<Rightarrow> 'a list \<Rightarrow> 'b list outcome" where
  "mapM f [] = Inr []"
| "mapM f (x # xs) = and_then (f x) (\<lambda>y. and_then (mapM f xs) (\<lambda>ys. Inr (y # ys)))"

lemma mapM_Inr: "(\<And>x. x \<in> set xs \<Longrightarrow> f x = Inr (g x)) \<Longrightarrow> mapM f xs = Inr (map g xs)"
  by (induction xs) auto

lemma mapM_Inr_iff: "mapM f xs = Inr ys \<longleftrightarrow> list_all2 (\<lambda>x y. f x = Inr y) xs ys"
  by (induction xs arbitrary: ys) (auto simp: list_all2_Cons1)

section \<open>Little-endian and big-endian byte strings\<close>

fun le_bytes :: "nat \<Rightarrow> nat \<Rightarrow> bytes" where
  "le_bytes 0 k = []"
| "le_bytes (Suc n) k = of_nat (k mod 256) # le_bytes n (k div 256)"

fun le_nat :: "bytes \<Rightarrow> nat" where
  "le_nat [] = 0"
| "le_nat (b # bs) = unat b + 256 * le_nat bs"

fun be_nat :: "bytes \<Rightarrow> nat" where
  "be_nat [] = 0"
| "be_nat (b # bs) = unat b * 256 ^ length bs + be_nat bs"

text \<open>\<open>u16::to_le_bytes\<close>, \<open>u32::to_le_bytes\<close> and \<open>u64::to_le_bytes\<close>.\<close>

definition le16 :: "u16 \<Rightarrow> bytes" where "le16 w = le_bytes 2 (unat w)"
definition le32 :: "u32 \<Rightarrow> bytes" where "le32 w = le_bytes 4 (unat w)"
definition le64 :: "u64 \<Rightarrow> bytes" where "le64 w = le_bytes 8 (unat w)"

lemma le_bytes_numeral:
  "le_bytes (numeral n) k = of_nat (k mod 256) # le_bytes (pred_numeral n) (k div 256)"
  by (simp only: numeral_eq_Suc le_bytes.simps)

lemma length_le_bytes [simp, len_simps]: "length (le_bytes n k) = n"
  by (induction n k rule: le_bytes.induct) auto

lemma length_le_words [simp, len_simps]:
  "length (le16 a) = 2" "length (le32 b) = 4" "length (le64 c) = 8"
  by (simp_all add: le16_def le32_def le64_def)

lemma unat_u8_less [simp]: "unat (b :: u8) < 256"
  using unsigned_less [of b] by simp

lemma unat_of_nat_u8 [simp]: "unat (of_nat (k mod 256) :: u8) = k mod 256"
  by (simp add: unat_of_nat)

lemma le_nat_le_bytes [byte_simps]: "le_nat (le_bytes n k) = k mod 256 ^ n"
proof (induction n k rule: le_bytes.induct)
  case (2 n k)
  have "k mod 256 ^ Suc n = k mod 256 + 256 * (k div 256 mod 256 ^ n)"
    by (simp add: mod_mult2_eq)
  with 2 show ?case by simp
qed simp

lemma le_nat_less [byte_simps]: "le_nat bs < 256 ^ length bs"
proof (induction bs)
  case (Cons b bs)
  have "unat b + 256 * le_nat bs < 256 * (1 + le_nat bs)"
    using unat_u8_less [of b] by (simp del: unat_u8_less)
  also have "\<dots> \<le> 256 * 256 ^ length bs"
    using Cons by (intro mult_le_mono2) simp
  finally show ?case by simp
qed simp

lemma le_bytes_le_nat [byte_simps]: "le_bytes (length bs) (le_nat bs) = bs"
proof (induction bs)
  case (Cons b bs)
  have "(unat b + 256 * le_nat bs) mod 256 = unat b" "(unat b + 256 * le_nat bs) div 256 = le_nat bs"
    using unat_u8_less [of b] by (simp_all add: mod_mult2_eq)
  with Cons show ?case by simp
qed simp

lemma le_bytes_inj: "k < 256 ^ n \<Longrightarrow> l < 256 ^ n \<Longrightarrow> le_bytes n k = le_bytes n l \<longleftrightarrow> k = l"
  by (metis le_nat_le_bytes mod_less)

lemma unat_width [byte_simps]:
  "unat (a :: u16) < 256 ^ 2" "unat (b :: u32) < 256 ^ 4" "unat (c :: u64) < 256 ^ 8"
proof -
  have "unat a < 2 ^ LENGTH(16)" "unat b < 2 ^ LENGTH(32)" "unat c < 2 ^ LENGTH(64)"
    by (rule unsigned_less)+
  then show "unat a < 256 ^ 2" "unat b < 256 ^ 4" "unat c < 256 ^ 8" by simp_all
qed

lemma le32_inj [simp]: "le32 a = le32 b \<longleftrightarrow> a = b"
  unfolding le32_def by (simp only: le_bytes_inj [OF unat_width(2) unat_width(2)] word_unat_eq_iff)

lemma be_nat_append [byte_simps]: "be_nat (xs @ ys) = be_nat xs * 256 ^ length ys + be_nat ys"
  by (induction xs) (simp_all add: power_add algebra_simps)

lemma be_nat_rev [byte_simps]: "be_nat (rev bs) = le_nat bs"
  by (induction bs) (simp_all add: be_nat_append)

lemma le_nat_rev [byte_simps]: "le_nat (rev bs) = be_nat bs"
  using be_nat_rev [of "rev bs"] by simp

lemma be_nat_less [byte_simps]: "be_nat bs < 256 ^ length bs"
  using le_nat_less [of "rev bs"] by (simp add: le_nat_rev)

lemma le_nat_replicate_0 [byte_simps]: "le_nat (replicate n 0) = 0"
  by (induction n) auto

lemma be_nat_replicate_0 [byte_simps]: "be_nat (replicate n 0) = 0"
  by (induction n) auto

lemma be_nat_inj: "length xs = length ys \<Longrightarrow> be_nat xs = be_nat ys \<longleftrightarrow> xs = ys"
  by (metis le_bytes_le_nat le_nat_rev length_rev rev_rev_ident)

section \<open>Order: byte arrays compare as big-endian numbers\<close>

text \<open>
  Rust compares arrays and strings lexicographically, SQLite compares blobs with \<open>memcmp\<close>; both
  are the order of \<open>HOL-Library.List_Lexorder\<close> on byte lists.
\<close>

lemma digit_less: "(a::nat) < b \<Longrightarrow> x < m \<Longrightarrow> a * m + x < b * m + y"
proof -
  assume "a < b" "x < m"
  then have "a * m + x < a * m + m" by simp
  also have "\<dots> = Suc a * m" by simp
  also have "\<dots> \<le> b * m" using \<open>a < b\<close> by (intro mult_le_mono1) simp
  finally show ?thesis by simp
qed

lemma be_nat_less_iff: "length xs = length ys \<Longrightarrow> be_nat xs < be_nat ys \<longleftrightarrow> xs < ys"
proof (induction xs ys rule: list_induct2)
  case (Cons x xs y ys)
  note lx = be_nat_less [of xs] and ly = be_nat_less [of ys]
  consider "x < y" | "x = y" | "y < x" by fastforce
  then show ?case
  proof cases
    case 1
    then have "unat x < unat y" by (simp add: word_less_nat_alt)
    with 1 Cons lx show ?thesis by (simp add: digit_less)
  next
    case 2
    with Cons show ?thesis by simp
  next
    case 3
    then have "unat y < unat x" by (simp add: word_less_nat_alt)
    then have "unat y * 256 ^ length ys + be_nat ys < unat x * 256 ^ length ys + be_nat xs"
      using ly by (rule digit_less)
    with 3 Cons show ?thesis by auto
  qed
qed simp

lemma be_nat_le_iff: "length xs = length ys \<Longrightarrow> be_nat xs \<le> be_nat ys \<longleftrightarrow> xs \<le> ys"
  using be_nat_less_iff [of ys xs] by (simp add: linorder_not_less [symmetric])

section \<open>Lower-case hexadecimal text\<close>

text \<open>
  The documented output of \<open>hex::encode\<close> and of the display of a block hash. The crate that
  computes it is not part of the repository: components take the encoder as a parameter, and
  use this text only as the hypothesis on it.
\<close>

definition hex_digit :: "nat \<Rightarrow> char" where
  "hex_digit n = ''0123456789abcdef'' ! (n mod 16)"

definition hex_byte :: "u8 \<Rightarrow> string" where
  "hex_byte b = [hex_digit (unat b div 16), hex_digit (unat b mod 16)]"

fun hex_text :: "bytes \<Rightarrow> string" where
  "hex_text [] = []"
| "hex_text (b # bs) = hex_byte b @ hex_text bs"

lemma length_hex_text [simp, len_simps]: "length (hex_text bs) = 2 * length bs"
  by (induction bs) (auto simp: hex_byte_def)

lemma hex_digit_less_16: "i < 16 \<Longrightarrow> j < 16 \<Longrightarrow> hex_digit i < hex_digit j \<longleftrightarrow> i < j"
proof -
  have all: "\<forall>i \<in> set [0..<16]. \<forall>j \<in> set [0..<16]. (hex_digit i < hex_digit j) = (i < j)"
    by code_simp
  show "i < 16 \<Longrightarrow> j < 16 \<Longrightarrow> hex_digit i < hex_digit j \<longleftrightarrow> i < j"
    using all by auto
qed

lemma hex_digit_eq_16: "i < 16 \<Longrightarrow> j < 16 \<Longrightarrow> hex_digit i = hex_digit j \<longleftrightarrow> i = j"
  by (metis hex_digit_less_16 linorder_neq_iff)

lemma nibbles_order:
  fixes ra rb qa qb :: nat
  assumes "ra < 16" "rb < 16"
  shows "qa < qb \<or> qa = qb \<and> (ra < rb \<or> ra = rb \<and> P) \<longleftrightarrow>
    qa * 16 + ra < qb * 16 + rb \<or> qa * 16 + ra = qb * 16 + rb \<and> P"
proof (cases qa qb rule: linorder_cases)
  case less
  then show ?thesis using assms digit_less [of qa qb ra 16 rb] by simp
next
  case equal
  then show ?thesis by simp
next
  case greater
  then show ?thesis using assms digit_less [of qb qa rb 16 ra] by simp
qed

lemma hex_byte_order:
  "length xs = length ys \<Longrightarrow> hex_byte a @ xs < hex_byte b @ ys \<longleftrightarrow> a < b \<or> a = b \<and> xs < ys"
proof -
  have da: "unat a div 16 < 16" "unat a mod 16 < 16" and db: "unat b div 16 < 16" "unat b mod 16 < 16"
    using unat_u8_less [of a] unat_u8_less [of b] by (simp_all del: unat_u8_less)
  have "hex_byte a @ xs < hex_byte b @ ys \<longleftrightarrow>
      unat a div 16 < unat b div 16 \<or> unat a div 16 = unat b div 16 \<and>
      (unat a mod 16 < unat b mod 16 \<or> unat a mod 16 = unat b mod 16 \<and> xs < ys)"
    using da db by (simp add: hex_byte_def hex_digit_less_16 hex_digit_eq_16)
  also have "\<dots> \<longleftrightarrow> unat a < unat b \<or> unat a = unat b \<and> xs < ys"
    using nibbles_order [of "unat a mod 16" "unat b mod 16" "unat a div 16" "unat b div 16" "xs < ys"]
    by simp
  finally show ?thesis by (simp add: word_less_nat_alt word_unat_eq_iff)
qed

lemma hex_text_less_iff [byte_simps]:
  "length xs = length ys \<Longrightarrow> hex_text xs < hex_text ys \<longleftrightarrow> xs < ys"
  by (induction xs ys rule: list_induct2) (auto simp: hex_byte_order)

text \<open>A reader of such text, for concrete instances of the decoder.\<close>

fun unhex :: "string \<Rightarrow> bytes option" where
  "unhex [] = Some []"
| "unhex [c] = None"
| "unhex (c # d # cs) =
     (case (find (\<lambda>n. hex_digit n = c) [0..<16], find (\<lambda>n. hex_digit n = d) [0..<16], unhex cs) of
        (Some q, Some r, Some bs) \<Rightarrow> Some (of_nat (16 * q + r) # bs)
      | _ \<Rightarrow> None)"

lemma find_hex_digit: "k < 16 \<Longrightarrow> find (\<lambda>n. hex_digit n = hex_digit k) [0..<16] = Some k"
  by (subst find_Some_iff) (auto simp: hex_digit_eq_16 intro!: exI [of _ k])

lemma unhex_hex_text: "unhex (hex_text bs) = Some bs"
proof (induction bs)
  case (Cons b bs)
  have "unat b div 16 < 16" using unat_u8_less [of b] by (simp del: unat_u8_less)
  with Cons show ?case by (simp add: hex_byte_def find_hex_digit)
qed simp

section \<open>The contract of a long-running loop\<close>

text \<open>
  A connection task, the database worker and the node client are loops: a state, and one
  iteration per event. \<open>legal\<close> is what the environment promises of an event in a state. Each loop
  keeps an invariant from one iteration to the next; then every state it goes through has it.
\<close>

fun legal_run :: "('e \<Rightarrow> 's \<Rightarrow> bool) \<Rightarrow> ('e \<Rightarrow> 's \<Rightarrow> 's) \<Rightarrow> 'e list \<Rightarrow> 's \<Rightarrow> bool" where
  "legal_run legal step [] s \<longleftrightarrow> True"
| "legal_run legal step (e # es) s \<longleftrightarrow> legal e s \<and> legal_run legal step es (step e s)"

lemma legal_run_append:
  "legal_run legal step (xs @ ys) s \<longleftrightarrow> legal_run legal step xs s \<and> legal_run legal step ys (fold step xs s)"
  by (induction xs arbitrary: s) auto

lemma legal_run_take: "legal_run legal step es s \<Longrightarrow> legal_run legal step (take n es) s"
  by (induction es arbitrary: s n) (auto simp: take_Cons split: nat.splits)

locale event_loop =
  fixes inv :: "'s \<Rightarrow> bool" and legal :: "'e \<Rightarrow> 's \<Rightarrow> bool" and step :: "'e \<Rightarrow> 's \<Rightarrow> 's"
  assumes step_inv: "inv s \<Longrightarrow> legal e s \<Longrightarrow> inv (step e s)"
begin

lemma run_inv: "inv s \<Longrightarrow> legal_run legal step es s \<Longrightarrow> inv (fold step es s)"
  by (induction es arbitrary: s) (auto intro: step_inv)

lemma every_state_inv: "inv s \<Longrightarrow> legal_run legal step es s \<Longrightarrow> inv (fold step (take n es) s)"
  by (intro run_inv legal_run_take)

end

end
