(* ===== verification/Wire_Format.thy ===== *)
theory Wire_Format
  imports Prelude
begin

text \<open>
  The Bitcoin data the pool handles, and the documented consensus encoding of it. The structs of
  the \<open>bitcoin\<close> crate that the source builds (\<open>TxIn\<close>, \<open>TxOut\<close>, \<open>Transaction\<close>, \<open>Header\<close>) are
  records with the crate's fields. The encoding (\<open>enc_tx\<close>) and the reader of it (\<open>read_tx\<close>) are
  an abstract specification: the protocol's own format, against which the byte strings that the
  pool assembles by hand are checked. The crate's functions are not defined here; they stay
  parameters, and the format is what the hypotheses on them name. The main lemma is the round
  trip \<open>read_tx_enc_tx\<close>.
\<close>

section \<open>Transactions and headers\<close>

record txout =
  txo_value :: u64
  txo_script :: bytes

record txin =
  txi_prev_txid :: bytes
  txi_prev_vout :: u32
  txi_script_sig :: bytes
  txi_sequence :: u32
  txi_witness :: "bytes list"

record transaction =
  tx_version :: u32
  tx_lock_time :: u32
  tx_inputs :: "txin list"
  tx_outputs :: "txout list"

record header =
  hd_version :: u32
  hd_prev_blockhash :: bytes
  hd_merkle_root :: bytes
  hd_time :: u32
  hd_bits :: u32
  hd_nonce :: u32

section \<open>The encoding\<close>

definition compact_size :: "nat \<Rightarrow> bytes" where
  "compact_size n =
     (if n < 253 then le_bytes 1 n
      else if n < 256 ^ 2 then 253 # le_bytes 2 n
      else if n < 256 ^ 4 then 254 # le_bytes 4 n
      else 255 # le_bytes 8 n)"

definition enc_blob :: "bytes \<Rightarrow> bytes" where
  "enc_blob bs = compact_size (length bs) @ bs"

definition enc_txout :: "txout \<Rightarrow> bytes" where
  "enc_txout t = le64 (txo_value t) @ enc_blob (txo_script t)"

definition enc_txin :: "txin \<Rightarrow> bytes" where
  "enc_txin i = txi_prev_txid i @ le32 (txi_prev_vout i) @ enc_blob (txi_script_sig i) @
     le32 (txi_sequence i)"

definition enc_list :: "('a \<Rightarrow> bytes) \<Rightarrow> 'a list \<Rightarrow> bytes" where
  "enc_list enc xs = compact_size (length xs) @ concat (map enc xs)"

definition has_witness :: "transaction \<Rightarrow> bool" where
  "has_witness t = list_ex (\<lambda>i. txi_witness i \<noteq> []) (tx_inputs t)"

definition enc_tx :: "transaction \<Rightarrow> bytes" where
  "enc_tx t = le32 (tx_version t) @ (if has_witness t then [0, 1] else []) @
     enc_list enc_txin (tx_inputs t) @ enc_list enc_txout (tx_outputs t) @
     (if has_witness t then concat (map (enc_list enc_blob \<circ> txi_witness) (tx_inputs t)) else []) @
     le32 (tx_lock_time t)"

text \<open>The transaction without its witnesses, which is what a transaction id hashes.\<close>

definition strip_witness :: "transaction \<Rightarrow> transaction" where
  "strip_witness t = t\<lparr>tx_inputs := map (\<lambda>i. i\<lparr>txi_witness := []\<rparr>) (tx_inputs t)\<rparr>"

text \<open>The eighty bytes of a block header.\<close>

definition enc_header :: "header \<Rightarrow> bytes" where
  "enc_header h = le32 (hd_version h) @ hd_prev_blockhash h @ hd_merkle_root h @
     le32 (hd_time h) @ le32 (hd_bits h) @ le32 (hd_nonce h)"

section \<open>The reader\<close>

type_synonym 'a reader = "bytes \<Rightarrow> ('a \<times> bytes) option"

definition read_bytes :: "nat \<Rightarrow> bytes reader" where
  "read_bytes n bs = (if n \<le> length bs then Some (take n bs, drop n bs) else None)"

definition read_le :: "nat \<Rightarrow> nat reader" where
  "read_le n bs = map_option (\<lambda>(b, r). (le_nat b, r)) (read_bytes n bs)"

definition read_word :: "nat \<Rightarrow> ('w::len) word reader" where
  "read_word n bs = map_option (\<lambda>(k, r). (of_nat k, r)) (read_le n bs)"

text \<open>A compact size that is not the shortest one for its value is refused.\<close>

definition read_compact :: "nat reader" where
  "read_compact bs =
     (case bs of
        [] \<Rightarrow> None
      | b # r \<Rightarrow>
          (if b < 253 then Some (unat b, r)
           else if b = 253 then
             (case read_le 2 r of Some (k, r') \<Rightarrow> if 253 \<le> k then Some (k, r') else None | None \<Rightarrow> None)
           else if b = 254 then
             (case read_le 4 r of Some (k, r') \<Rightarrow> if 256 ^ 2 \<le> k then Some (k, r') else None | None \<Rightarrow> None)
           else
             (case read_le 8 r of Some (k, r') \<Rightarrow> if 256 ^ 4 \<le> k then Some (k, r') else None | None \<Rightarrow> None)))"

definition bind_reader :: "'a reader \<Rightarrow> ('a \<Rightarrow> 'b reader) \<Rightarrow> 'b reader" where
  "bind_reader p f bs = (case p bs of None \<Rightarrow> None | Some (x, r) \<Rightarrow> f x r)"

definition return_reader :: "'a \<Rightarrow> 'a reader" where
  "return_reader x bs = Some (x, bs)"

definition read_blob :: "bytes reader" where
  "read_blob = bind_reader read_compact read_bytes"

primrec read_many :: "'a reader \<Rightarrow> nat \<Rightarrow> 'a list reader" where
  "read_many p 0 = return_reader []"
| "read_many p (Suc n) =
     bind_reader p (\<lambda>x. bind_reader (read_many p n) (\<lambda>xs. return_reader (x # xs)))"

definition read_list :: "'a reader \<Rightarrow> 'a list reader" where
  "read_list p = bind_reader read_compact (read_many p)"

definition read_txout :: "txout reader" where
  "read_txout = bind_reader (read_word 8) (\<lambda>v. bind_reader read_blob (\<lambda>s.
     return_reader \<lparr>txo_value = v, txo_script = s\<rparr>))"

definition read_txin :: "txin reader" where
  "read_txin = bind_reader (read_bytes 32) (\<lambda>h. bind_reader (read_word 4) (\<lambda>v.
     bind_reader read_blob (\<lambda>s. bind_reader (read_word 4) (\<lambda>q. return_reader
       \<lparr>txi_prev_txid = h, txi_prev_vout = v, txi_script_sig = s, txi_sequence = q, txi_witness = []\<rparr>))))"

primrec read_witnesses :: "txin list \<Rightarrow> txin list reader" where
  "read_witnesses [] = return_reader []"
| "read_witnesses (i # is) = bind_reader (read_list read_blob) (\<lambda>w.
     bind_reader (read_witnesses is) (\<lambda>is'. return_reader (i\<lparr>txi_witness := w\<rparr> # is')))"

text \<open>
  As the consensus rules have it: an empty input list is the marker of the segregated-witness
  form, whose flag is 1, and a transaction in that form has at least one witness.
\<close>

definition read_tx :: "transaction reader" where
  "read_tx = bind_reader (read_word 4) (\<lambda>v. bind_reader (read_list read_txin) (\<lambda>ins.
     if ins \<noteq> [] then
       bind_reader (read_list read_txout) (\<lambda>outs. bind_reader (read_word 4) (\<lambda>l.
         return_reader \<lparr>tx_version = v, tx_lock_time = l, tx_inputs = ins, tx_outputs = outs\<rparr>))
     else bind_reader (read_bytes 1) (\<lambda>flag. if flag \<noteq> [1] then (\<lambda>_. None) else
       bind_reader (read_list read_txin) (\<lambda>ins'. bind_reader (read_list read_txout) (\<lambda>outs.
         bind_reader (read_witnesses ins') (\<lambda>ins''.
           if \<not> list_ex (\<lambda>i. txi_witness i \<noteq> []) ins'' then (\<lambda>_. None) else
           bind_reader (read_word 4) (\<lambda>l. return_reader
             \<lparr>tx_version = v, tx_lock_time = l, tx_inputs = ins'', tx_outputs = outs\<rparr>)))))))"

text \<open>A whole string is a transaction when nothing is left over.\<close>

definition decode_tx :: "bytes \<Rightarrow> transaction option" where
  "decode_tx bs = (case read_tx bs of Some (t, []) \<Rightarrow> Some t | _ \<Rightarrow> None)"

section \<open>Round trip\<close>

text \<open>\<open>reads p enc P\<close>: the reader gives back what the encoder wrote and stops right after it.\<close>

definition reads :: "'a reader \<Rightarrow> ('a \<Rightarrow> bytes) \<Rightarrow> ('a \<Rightarrow> bool) \<Rightarrow> bool" where
  "reads p enc P \<longleftrightarrow> (\<forall>x rest. P x \<longrightarrow> p (enc x @ rest) = Some (x, rest))"

named_theorems read_simps

lemma bind_reader_Some [read_simps]: "p bs = Some (x, r) \<Longrightarrow> bind_reader p f bs = f x r"
  by (simp add: bind_reader_def)

lemma return_reader_eq [read_simps]: "return_reader x bs = Some (x, bs)"
  by (simp add: return_reader_def)

lemma read_bytes_append [read_simps]: "length xs = n \<Longrightarrow> read_bytes n (xs @ rest) = Some (xs, rest)"
  by (auto simp: read_bytes_def)

lemma read_le_append [read_simps]: "k < 256 ^ n \<Longrightarrow> read_le n (le_bytes n k @ rest) = Some (k, rest)"
  by (simp add: read_le_def read_bytes_append le_nat_le_bytes)

lemma read_word_32 [read_simps]: "read_word 4 (le32 w @ rest) = Some (w, rest)"
  unfolding read_word_def le32_def by (simp only: read_le_append [OF unat_width(2)]) simp

lemma read_word_64 [read_simps]: "read_word 8 (le64 w @ rest) = Some (w, rest)"
  unfolding read_word_def le64_def by (simp only: read_le_append [OF unat_width(3)]) simp

lemma read_compact_size [read_simps]:
  assumes "n < 256 ^ 8"
  shows "read_compact (compact_size n @ rest) = Some (n, rest)"
proof -
  consider "n < 253" | "253 \<le> n" "n < 256 ^ 2" | "256 ^ 2 \<le> n" "n < 256 ^ 4" | "256 ^ 4 \<le> n"
    by linarith
  then show ?thesis
  proof cases
    case 1
    then have "unat (of_nat n :: u8) = n" by (simp add: unat_of_nat)
    with 1 show ?thesis
      by (simp add: compact_size_def read_compact_def word_less_nat_alt)
  qed (use assms in \<open>simp_all add: compact_size_def read_compact_def read_le_append\<close>)
qed

lemma read_blob_enc [read_simps]:
  "length bs < 256 ^ 8 \<Longrightarrow> read_blob (enc_blob bs @ rest) = Some (bs, rest)"
  by (simp add: read_blob_def enc_blob_def read_simps)

lemma read_many_enc:
  "reads p enc P \<Longrightarrow> list_all P xs \<Longrightarrow>
    read_many p (length xs) (concat (map enc xs) @ rest) = Some (xs, rest)"
  by (induction xs) (simp_all add: read_simps reads_def)

lemma read_list_enc:
  "reads p enc P \<Longrightarrow> list_all P xs \<Longrightarrow> length xs < 256 ^ 8 \<Longrightarrow>
    read_list p (enc_list enc xs @ rest) = Some (xs, rest)"
  by (simp add: read_list_def enc_list_def read_simps read_many_enc)

text \<open>Values whose lengths fit their fields.\<close>

definition wf_txout :: "txout \<Rightarrow> bool" where
  "wf_txout t \<longleftrightarrow> length (txo_script t) < 256 ^ 8"

definition wf_txin :: "txin \<Rightarrow> bool" where
  "wf_txin i \<longleftrightarrow> length (txi_prev_txid i) = 32 \<and> length (txi_script_sig i) < 256 ^ 8 \<and>
     length (txi_witness i) < 256 ^ 8 \<and> list_all (\<lambda>w. length w < 256 ^ 8) (txi_witness i)"

definition wf_tx :: "transaction \<Rightarrow> bool" where
  "wf_tx t \<longleftrightarrow> tx_inputs t \<noteq> [] \<and> length (tx_inputs t) < 256 ^ 8 \<and> length (tx_outputs t) < 256 ^ 8 \<and>
     list_all wf_txin (tx_inputs t) \<and> list_all wf_txout (tx_outputs t)"

lemma reads_txout: "reads read_txout enc_txout wf_txout"
  by (simp add: reads_def read_txout_def enc_txout_def wf_txout_def read_simps)

lemma reads_blob: "reads read_blob enc_blob (\<lambda>w. length w < 256 ^ 8)"
  by (simp add: reads_def read_simps)

text \<open>The input list carries no witnesses; they follow the outputs.\<close>

lemma read_txin_enc:
  "wf_txin i \<Longrightarrow> read_txin (enc_txin i @ rest) = Some (i\<lparr>txi_witness := []\<rparr>, rest)"
  by (simp add: read_txin_def enc_txin_def wf_txin_def read_simps)

lemma read_txins_enc:
  "list_all wf_txin is \<Longrightarrow>
    read_many read_txin (length is) (concat (map enc_txin is) @ rest) =
      Some (map (\<lambda>i. i\<lparr>txi_witness := []\<rparr>) is, rest)"
  by (induction "is") (simp_all add: read_simps read_txin_enc)

lemma read_txin_list_enc:
  "list_all wf_txin is \<Longrightarrow> length is < 256 ^ 8 \<Longrightarrow>
    read_list read_txin (enc_list enc_txin is @ rest) = Some (map (\<lambda>i. i\<lparr>txi_witness := []\<rparr>) is, rest)"
  by (simp add: read_list_def enc_list_def read_simps read_txins_enc)

lemma read_witnesses_enc:
  "list_all wf_txin is \<Longrightarrow>
    read_witnesses (map (\<lambda>i. i\<lparr>txi_witness := []\<rparr>) is)
      (concat (map (enc_list enc_blob \<circ> txi_witness) is) @ rest) = Some (is, rest)"
proof (induction "is")
  case (Cons i "is")
  then have w: "read_list read_blob (enc_list enc_blob (txi_witness i) @ r) = Some (txi_witness i, r)" for r
    by (simp add: read_list_enc [OF reads_blob] wf_txin_def)
  from Cons show ?case by (simp add: read_simps w)
qed (simp add: read_simps)

lemma no_witness_id: "\<not> list_ex (\<lambda>i. txi_witness i \<noteq> []) is \<Longrightarrow> map (\<lambda>i. i\<lparr>txi_witness := []\<rparr>) is = is"
  by (induction "is") auto

theorem read_tx_enc_tx: "wf_tx t \<Longrightarrow> read_tx (enc_tx t @ rest) = Some (t, rest)"
proof -
  assume wf: "wf_tx t"
  note outs = read_list_enc [OF reads_txout]
  have mark: "read_list read_txin (0 # 1 # bs) = Some ([], 1 # bs)"
    and flag: "read_bytes (Suc 0) (1 # bs) = Some ([1], bs)" for bs
    by (simp_all add: read_list_def bind_reader_def read_compact_def return_reader_def read_bytes_def)
  show "read_tx (enc_tx t @ rest) = Some (t, rest)"
  proof (cases "has_witness t")
    case True
    with wf show ?thesis
      by (simp add: read_tx_def enc_tx_def wf_tx_def read_simps mark flag read_txin_list_enc outs
          read_witnesses_enc [unfolded comp_def] comp_def has_witness_def)
  next
    case False
    with wf show ?thesis
      by (simp add: read_tx_def enc_tx_def wf_tx_def read_simps read_txin_list_enc outs
          has_witness_def no_witness_id)
  qed
qed

corollary decode_tx_enc_tx: "wf_tx t \<Longrightarrow> decode_tx (enc_tx t) = Some t"
  using read_tx_enc_tx [of t "[]"] by (simp add: decode_tx_def)

end
