(* ===== verification/Crates.thy ===== *)
theory Crates
  imports Wire_Format
begin

text \<open>
  The third-party functions the pool calls (the \<open>bitcoin\<close>, \<open>hex\<close> and hash crates). Their code is
  not part of the repository, so each is a field of the record \<open>crates\<close>, which every definition
  that uses one takes as its argument \<open>L\<close>. What the pool relies on is stated as the named
  predicates below, which are documented behaviour of those crates: consensus encoding, script
  pushes, lower-case hexadecimal text, digests of thirty-two bytes. The last section builds a
  concrete \<open>crates\<close> value that satisfies all of them, so the hypotheses can hold together.
\<close>

record crates =
  serialize_tx :: "transaction \<Rightarrow> bytes"
  serialize_txout :: "txout \<Rightarrow> bytes"
  deserialize_tx :: "bytes \<Rightarrow> transaction option"
  compute_txid :: "transaction \<Rightarrow> bytes"
  block_hash :: "header \<Rightarrow> bytes"
  block_hash_text :: "header \<Rightarrow> string"
  push_int :: "int \<Rightarrow> bytes"
  push_slice :: "bytes \<Rightarrow> bytes"
  address_script :: "string \<Rightarrow> bytes option"
  sha256d :: "bytes \<Rightarrow> bytes"
  hex_encode :: "bytes \<Rightarrow> string"
  hex_decode :: "string \<Rightarrow> bytes option"
  target_le_bytes :: "u32 \<Rightarrow> bytes"

section \<open>What the pool relies on\<close>

text \<open>\<open>bitcoin::consensus::serialize\<close> writes the consensus encoding.\<close>

definition serialize_ok :: "crates \<Rightarrow> bool" where
  "serialize_ok L \<longleftrightarrow> serialize_tx L = enc_tx \<and> serialize_txout L = enc_txout"

text \<open>
  \<open>bitcoin::consensus::deserialize\<close> accepts the encoding of every well-formed transaction (within
  the crate's allocation limits, which are above a million bytes) and returns that transaction.
\<close>

definition deserialize_ok :: "crates \<Rightarrow> bool" where
  "deserialize_ok L \<longleftrightarrow>
     (\<forall>t. wf_tx t \<longrightarrow> length (enc_tx t) \<le> 1000000 \<longrightarrow> deserialize_tx L (enc_tx t) = Some t)"

text \<open>
  Script pushes: up to 75 bytes are pushed with their length; a number is pushed as \<open>OP_0\<close>, as
  \<open>OP_1\<close> to \<open>OP_16\<close>, or as its shortest little-endian form with a free sign bit.
\<close>

function le_min :: "nat \<Rightarrow> bytes" where
  "le_min n = (if n = 0 then [] else of_nat (n mod 256) # le_min (n div 256))"
  by pat_completeness auto
termination by (relation "measure id") auto

declare le_min.simps [simp del]

definition script_num :: "nat \<Rightarrow> bytes" where
  "script_num n = (let bs = le_min n in if bs \<noteq> [] \<and> 128 \<le> last bs then bs @ [0] else bs)"

definition push_num :: "nat \<Rightarrow> bytes" where
  "push_num n =
     (if n = 0 then [0]
      else if n \<le> 16 then [of_nat (80 + n)]
      else of_nat (length (script_num n)) # script_num n)"

definition script_ok :: "crates \<Rightarrow> bool" where
  "script_ok L \<longleftrightarrow> (\<forall>n. push_int L (int n) = push_num n) \<and>
     (\<forall>bs. 2 \<le> length bs \<longrightarrow> length bs \<le> 75 \<longrightarrow> push_slice L bs = of_nat (length bs) # bs)"

text \<open>
  \<open>hex::encode\<close> is lower-case hexadecimal text, and a block hash is displayed as the text of its
  bytes in reverse order.
\<close>

definition hex_ok :: "crates \<Rightarrow> bool" where
  "hex_ok L \<longleftrightarrow> hex_encode L = hex_text \<and>
     (\<forall>h. length (block_hash L h) = 32 \<and> block_hash_text L h = hex_text (rev (block_hash L h)))"

text \<open>Digests have thirty-two bytes.\<close>

definition digest_ok :: "crates \<Rightarrow> bool" where
  "digest_ok L \<longleftrightarrow> (\<forall>bs. length (sha256d L bs) = 32) \<and> (\<forall>t. length (compute_txid L t) = 32)"

text \<open>The length of a pushed block height.\<close>

lemma length_le_min: "n < 256 ^ k \<Longrightarrow> length (le_min n) \<le> k"
proof (induction k arbitrary: n)
  case (Suc k)
  then have "n div 256 < 256 ^ k" by (simp add: less_mult_imp_div_less mult.commute)
  with Suc.IH show ?case by (simp add: le_min.simps [of n])
qed (simp add: le_min.simps)

lemma length_push_num: "n < 256 ^ 4 \<Longrightarrow> length (push_num n) \<le> 6"
  using length_le_min [of n 4] by (auto simp: push_num_def script_num_def Let_def)

section \<open>A concrete instance\<close>

text \<open>
  Encoders and readers from the format itself; the digest and the address parser are simple
  stand-ins with the right lengths (no hypothesis above says more about them).
\<close>

definition pad32 :: "bytes \<Rightarrow> bytes" where
  "pad32 bs = take 32 (bs @ replicate 32 0)"

definition sample_crates :: crates where
  "sample_crates =
     \<lparr>serialize_tx = enc_tx, serialize_txout = enc_txout, deserialize_tx = decode_tx,
      compute_txid = (\<lambda>t. pad32 (drop 40 (enc_tx (strip_witness t)))),
      block_hash = (\<lambda>h. pad32 (le32 (hd_nonce h))),
      block_hash_text = (\<lambda>h. hex_text (rev (pad32 (le32 (hd_nonce h))))),
      push_int = (\<lambda>n. push_num (nat n)), push_slice = (\<lambda>bs. of_nat (length bs) # bs),
      address_script = (\<lambda>a. if take 3 a = ''bc1'' then Some (map (\<lambda>c. of_nat (of_char c)) a) else None),
      sha256d = (\<lambda>bs. pad32 (map (\<lambda>b. b + 1) bs)), hex_encode = hex_text,
      hex_decode = unhex, target_le_bytes = (\<lambda>_. replicate 32 255)\<rparr>"

lemma length_pad32 [simp, len_simps]: "length (pad32 bs) = 32"
  by (simp add: pad32_def)

lemma sample_crates_ok:
  "serialize_ok sample_crates" "deserialize_ok sample_crates" "script_ok sample_crates"
  "hex_ok sample_crates" "digest_ok sample_crates"
  by (simp_all add: serialize_ok_def deserialize_ok_def script_ok_def hex_ok_def digest_ok_def
      sample_crates_def decode_tx_enc_tx)

end
