(* ===== verification/Coinbase.thy ===== *)
theory Coinbase
  imports Crates
begin

text \<open>
  Coinbase construction, from \<open>pool/src/jobs.rs\<close>: the transaction with an extranonce placeholder
  and the search that splits it (\<open>build_coinbase_parts\<close>, \<open>build_sv2_coinbase_parts\<close>), and the
  construction from template fields that the server uses (\<open>build_sv2_coinbase_from_tdp\<close>), with
  its compact-size writer. The locale \<open>extranonce_splitter\<close> is the contract that both splitters
  meet. The theorems say that the two halves with any extranonce between them are the consensus
  encoding of the intended coinbase transaction.
\<close>

section \<open>Constants and the split form\<close>

definition EXTRANONCE1_SIZE :: nat where "EXTRANONCE1_SIZE = 4"
definition EXTRANONCE2_SIZE :: nat where "EXTRANONCE2_SIZE = 4"

definition POOL_TAG :: bytes where
  "POOL_TAG = map (\<lambda>c. of_nat (of_char c)) ''/lottery-pool/''"

definition EXTRANONCE_PLACEHOLDER :: bytes where
  "EXTRANONCE_PLACEHOLDER = [0xde, 0xad, 0xbe, 0xef, 0xca, 0xfe, 0xba, 0xbe]"

definition SV2_EXTRANONCE_PREFIX_SIZE :: nat where "SV2_EXTRANONCE_PREFIX_SIZE = 32"
definition SV2_EXTRANONCE2_SIZE :: nat where "SV2_EXTRANONCE2_SIZE = 4"
definition SV2_EXTRANONCE_TOTAL :: nat where
  "SV2_EXTRANONCE_TOTAL = SV2_EXTRANONCE_PREFIX_SIZE + SV2_EXTRANONCE2_SIZE"

definition SV2_EXTRANONCE_PLACEHOLDER :: bytes where
  "SV2_EXTRANONCE_PLACEHOLDER = replicate SV2_EXTRANONCE_TOTAL 0xcc"

lemma constant_lengths [simp, len_simps]:
  "length POOL_TAG = 14" "length EXTRANONCE_PLACEHOLDER = 8"
  "length SV2_EXTRANONCE_PLACEHOLDER = 36" "SV2_EXTRANONCE_TOTAL = 36"
  "SV2_EXTRANONCE2_SIZE = 4" "SV2_EXTRANONCE_PREFIX_SIZE = 32"
  by (simp_all add: POOL_TAG_def EXTRANONCE_PLACEHOLDER_def SV2_EXTRANONCE_PLACEHOLDER_def
      SV2_EXTRANONCE_TOTAL_def SV2_EXTRANONCE_PREFIX_SIZE_def SV2_EXTRANONCE2_SIZE_def)

record coinbase_parts =
  coinb1 :: bytes
  coinb2 :: bytes

section \<open>Searching the placeholder\<close>

text \<open>\<open>raw.windows(pat.len()).position(|w| w == pat)\<close>: the first window equal to \<open>pat\<close>.\<close>

fun window_position :: "bytes \<Rightarrow> bytes \<Rightarrow> nat option" where
  "window_position pat [] = (if pat = [] then Some 0 else None)"
| "window_position pat (b # raw) =
     (if take (length pat) (b # raw) = pat then Some 0
      else map_option Suc (window_position pat raw))"

definition split_at_extranonce :: "bytes \<Rightarrow> coinbase_parts outcome" where
  "split_at_extranonce raw =
     (case window_position EXTRANONCE_PLACEHOLDER raw of
        None \<Rightarrow> Inl (Panic ''extranonce placeholder not found in serialized coinbase'')
      | Some pos \<Rightarrow> Inr \<lparr>coinb1 = take pos raw,
                         coinb2 = drop (pos + length EXTRANONCE_PLACEHOLDER) raw\<rparr>)"

definition split_at_sv2_extranonce :: "bytes \<Rightarrow> coinbase_parts outcome" where
  "split_at_sv2_extranonce raw =
     (case window_position SV2_EXTRANONCE_PLACEHOLDER raw of
        None \<Rightarrow> Inl (Panic ''SV2 extranonce placeholder not found in serialized coinbase'')
      | Some pos \<Rightarrow> Inr \<lparr>coinb1 = take pos raw,
                         coinb2 = drop (pos + length SV2_EXTRANONCE_PLACEHOLDER) raw\<rparr>)"

lemma window_position_Some:
  "window_position pat raw = Some p \<Longrightarrow> take p raw @ pat @ drop (p + length pat) raw = raw"
proof (induction pat raw arbitrary: p rule: window_position.induct)
  case (2 pat b raw)
  show ?case
  proof (cases "take (length pat) (b # raw) = pat")
    case True
    with 2 show ?thesis using append_take_drop_id [of "length pat" "b # raw"] by simp
  next
    case False
    with 2 show ?thesis by auto
  qed
qed (auto split: if_splits)

lemma take_append_self: "take (length pat) raw = pat \<longleftrightarrow> (\<exists>r. raw = pat @ r)"
  by (metis append_eq_conv_conj append_take_drop_id)

text \<open>
  A window cannot start inside \<open>pre\<close>: then the search for \<open>pat\<close> in \<open>pre @ pat @ post\<close> ends
  exactly after \<open>pre\<close>.
\<close>

definition no_early_window :: "bytes \<Rightarrow> bytes \<Rightarrow> bool" where
  "no_early_window pat pre \<longleftrightarrow>
     (\<forall>i < length pre. take (length pat) (drop i (pre @ pat)) \<noteq> pat)"

lemma no_early_window_Cons:
  "no_early_window pat (b # pre) \<longleftrightarrow>
    take (length pat) (b # pre @ pat) \<noteq> pat \<and> no_early_window pat pre"
  by (auto simp: no_early_window_def less_Suc_eq_0_disj)

lemma window_position_found:
  "pat \<noteq> [] \<Longrightarrow> no_early_window pat pre \<Longrightarrow> window_position pat (pre @ pat @ post) = Some (length pre)"
proof (induction pre)
  case Nil
  then show ?case by (cases pat) auto
next
  case (Cons b pre)
  have "take (length pat) (b # pre @ pat @ post) = take (length pat) (b # pre @ pat)"
    using take_append [of "length pat" "b # pre @ pat" post] by simp
  with Cons show ?case by (simp add: no_early_window_Cons)
qed

section \<open>The contract of a splitter\<close>

locale extranonce_splitter =
  fixes placeholder :: bytes and split :: "bytes \<Rightarrow> coinbase_parts outcome"
  assumes placeholder_ne: "placeholder \<noteq> []"
    and split_found: "no_early_window placeholder pre \<Longrightarrow>
      split (pre @ placeholder @ post) = Inr \<lparr>coinb1 = pre, coinb2 = post\<rparr>"
    and split_rejoin: "split raw = Inr p \<Longrightarrow> coinb1 p @ placeholder @ coinb2 p = raw"
begin

text \<open>Filling the gap with any extranonce of the placeholder's length keeps the total length.\<close>

lemma refill_length:
  "split raw = Inr p \<Longrightarrow> length e = length placeholder \<Longrightarrow>
    length (coinb1 p @ e @ coinb2 p) = length raw"
  using split_rejoin [of raw p] by (metis length_append)

text \<open>Different extranonces of one length give different transactions.\<close>

lemma refill_inj:
  "length e = length e' \<Longrightarrow> coinb1 p @ e @ coinb2 p = coinb1 p @ e' @ coinb2 p \<longleftrightarrow> e = e'"
  by simp

text \<open>
  A serializer that writes \<open>pre\<close>, the extranonce and \<open>post\<close>: splitting its output for the
  placeholder and filling the gap with \<open>e\<close> gives its output for \<open>e\<close>.
\<close>

lemma refill:
  assumes "\<And>e. length e = length placeholder \<Longrightarrow> ser e = pre @ e @ post"
    and "no_early_window placeholder pre"
  obtains p where "split (ser placeholder) = Inr p"
    and "\<And>e. length e = length placeholder \<Longrightarrow> coinb1 p @ e @ coinb2 p = ser e"
  using split_found [of pre post] assms by fastforce

end

lemma window_splitter_laws:
  assumes "pat \<noteq> []"
    and "\<And>raw. split raw = (case window_position pat raw of None \<Rightarrow> Inl e
      | Some pos \<Rightarrow> Inr \<lparr>coinb1 = take pos raw, coinb2 = drop (pos + length pat) raw\<rparr>)"
  shows "extranonce_splitter pat split"
  using assms window_position_found [OF assms(1)] window_position_Some
  by unfold_locales (auto split: option.splits)

interpretation v1_split: extranonce_splitter EXTRANONCE_PLACEHOLDER split_at_extranonce
  by (rule window_splitter_laws [OF _ split_at_extranonce_def])
    (simp add: EXTRANONCE_PLACEHOLDER_def)

interpretation sv2_split: extranonce_splitter SV2_EXTRANONCE_PLACEHOLDER split_at_sv2_extranonce
  by (rule window_splitter_laws [OF _ split_at_sv2_extranonce_def])
    (simp add: SV2_EXTRANONCE_PLACEHOLDER_def)

section \<open>The coinbase with a placeholder\<close>

text \<open>
  The two outputs every variant has: the payout, and the witness commitment when there is one. The
  value is an \<open>i64\<close>; \<open>coinbase_value as u64\<close> keeps its bits.
\<close>

definition build_coinbase_script :: "crates \<Rightarrow> u32 \<Rightarrow> bytes" where
  "build_coinbase_script L height =
     push_int L (uint height) @ push_slice L POOL_TAG @ push_slice L EXTRANONCE_PLACEHOLDER"

definition build_coinbase_tx :: "crates \<Rightarrow> u32 \<Rightarrow> int \<Rightarrow> bytes \<Rightarrow> bytes option \<Rightarrow> transaction" where
  "build_coinbase_tx L height coinbase_value miner_script witness_commitment =
     (let input = \<lparr>txi_prev_txid = replicate 32 0, txi_prev_vout = 0xffffffff,
            txi_script_sig = build_coinbase_script L height, txi_sequence = 0xffffffff, txi_witness = []\<rparr>;
          miner_output = \<lparr>txo_value = word_of_int coinbase_value, txo_script = miner_script\<rparr>;
          outputs = [miner_output] @
            (case witness_commitment of None \<Rightarrow> [] | Some wc \<Rightarrow> [\<lparr>txo_value = 0, txo_script = wc\<rparr>])
      in \<lparr>tx_version = 1, tx_lock_time = 0, tx_inputs = [input], tx_outputs = outputs\<rparr>)"

definition build_coinbase_parts ::
    "crates \<Rightarrow> u32 \<Rightarrow> int \<Rightarrow> bytes \<Rightarrow> bytes option \<Rightarrow> coinbase_parts outcome" where
  "build_coinbase_parts L height coinbase_value miner_script witness_commitment =
     split_at_extranonce
       (serialize_tx L (build_coinbase_tx L height coinbase_value miner_script witness_commitment))"

definition build_coinbase_tx_sv2 :: "crates \<Rightarrow> u32 \<Rightarrow> int \<Rightarrow> bytes \<Rightarrow> bytes option \<Rightarrow> transaction" where
  "build_coinbase_tx_sv2 L height coinbase_value miner_script witness_commitment =
     (let coinbase_script = push_int L (uint height) @ push_slice L POOL_TAG @
            push_slice L SV2_EXTRANONCE_PLACEHOLDER;
          input = \<lparr>txi_prev_txid = replicate 32 0, txi_prev_vout = 0xffffffff,
            txi_script_sig = coinbase_script, txi_sequence = 0xffffffff, txi_witness = []\<rparr>;
          miner_output = \<lparr>txo_value = word_of_int coinbase_value, txo_script = miner_script\<rparr>;
          outputs = [miner_output] @
            (case witness_commitment of None \<Rightarrow> [] | Some wc \<Rightarrow> [\<lparr>txo_value = 0, txo_script = wc\<rparr>])
      in \<lparr>tx_version = 1, tx_lock_time = 0, tx_inputs = [input], tx_outputs = outputs\<rparr>)"

definition build_sv2_coinbase_parts ::
    "crates \<Rightarrow> u32 \<Rightarrow> int \<Rightarrow> bytes \<Rightarrow> bytes option \<Rightarrow> coinbase_parts outcome" where
  "build_sv2_coinbase_parts L height coinbase_value miner_script witness_commitment =
     split_at_sv2_extranonce
       (serialize_tx L (build_coinbase_tx_sv2 L height coinbase_value miner_script witness_commitment))"

section \<open>Addresses and commitments\<close>

definition script_from_address :: "crates \<Rightarrow> string \<Rightarrow> bytes outcome" where
  "script_from_address L address =
     ok_or (Bail (''invalid bitcoin address: '' @ address)) (address_script L address)"

definition witness_commitment_script :: "crates \<Rightarrow> string \<Rightarrow> bytes outcome" where
  "witness_commitment_script L hex =
     ok_or (Panic ''witness commitment is not valid hex'') (hex_decode L hex)"

section \<open>The intended transaction\<close>

text \<open>
  The abstract counterpart: a transaction with one null input that carries \<open>script\<close>, as the
  protocol defines a coinbase.
\<close>

definition coinbase_of :: "u32 \<Rightarrow> u32 \<Rightarrow> bytes \<Rightarrow> u32 \<Rightarrow> bytes list \<Rightarrow> txout list \<Rightarrow> transaction" where
  "coinbase_of v lt script sq w outs =
     \<lparr>tx_version = v, tx_lock_time = lt,
      tx_inputs = [\<lparr>txi_prev_txid = replicate 32 0, txi_prev_vout = 0xffffffff,
        txi_script_sig = script, txi_sequence = sq, txi_witness = w\<rparr>],
      tx_outputs = outs\<rparr>"

definition commitment_outputs :: "bytes option \<Rightarrow> txout list" where
  "commitment_outputs wc =
     (case wc of None \<Rightarrow> [] | Some s \<Rightarrow> [\<lparr>txo_value = 0, txo_script = s\<rparr>])"

lemma enc_coinbase_of:
  "enc_tx (coinbase_of v lt script sq w outs) =
     le32 v @ (if w \<noteq> [] then [0, 1] else []) @ [1] @ replicate 32 0 @ le32 0xffffffff @
     enc_blob script @ le32 sq @ enc_list enc_txout outs @
     (if w \<noteq> [] then enc_list enc_blob w else []) @ le32 lt"
  by (simp add: enc_tx_def coinbase_of_def has_witness_def enc_list_def enc_txin_def compact_size_def)

text \<open>A window is excluded before the place that the source means.\<close>

lemma no_early_windowI:
  assumes A: "set A \<inter> set pat = {}" and S: "set S \<inter> set pat = {}" and "S \<noteq> []"
    and M: "length M < length pat"
  shows "no_early_window pat (A @ M @ S)"
  unfolding no_early_window_def
proof (intro allI impI notI)
  define bs where "bs = (A @ M @ S) @ pat"
  fix i assume i: "i < length (A @ M @ S)"
    and "take (length pat) (drop i ((A @ M @ S) @ pat)) = pat"
  then have w: "take (length pat) (drop i bs) = pat" by (simp only: bs_def)
  have mem: "bs ! (i + j) \<in> set pat" if "j < length pat" for j
  proof -
    have "i \<le> length bs" using i by (simp add: bs_def)
    with that have "take (length pat) (drop i bs) ! j = bs ! (i + j)" by simp
    with that show ?thesis by (metis w nth_mem)
  qed
  consider "i < length A" | "length A \<le> i" "i < length A + length M" | "length A + length M \<le> i"
    by linarith
  then show False
  proof cases
    case 1
    then have "bs ! i \<in> set A" by (simp add: bs_def nth_append)
    with mem [of 0] A M show False by (cases pat) auto
  next
    case 2
    define j where "j = length A + length M - i"
    have "j < length pat" and ij: "i + j = length A + length M" using 2 M by (auto simp: j_def)
    moreover have "bs ! (length A + length M) \<in> set S"
      using \<open>S \<noteq> []\<close> by (simp add: bs_def nth_append)
    ultimately show False using mem [of j] S by auto
  next
    case 3
    then obtain k where k: "i = length A + (length M + k)"
      by (metis add.assoc le_Suc_ex)
    with i have "bs ! i = S ! k" "k < length S" by (simp_all add: bs_def nth_append)
    then have "bs ! i \<in> set S" by simp
    with mem [of 0] S M show False by (cases pat) auto
  qed
qed

text \<open>
  The bytes before the extranonce: fixed header, script length, height, pool tag, push of the
  extranonce (\<open>n\<close> is its length).
\<close>

definition coinbase_head :: "u32 \<Rightarrow> nat \<Rightarrow> bytes" where
  "coinbase_head height n =
     (le32 1 @ [1] @ replicate 32 0 @ le32 0xffffffff @
       [of_nat (length (push_num (unat height)) + 16 + n)]) @
     push_num (unat height) @ (14 # POOL_TAG @ [of_nat n])"

lemma le32_constants: "le32 1 = [1, 0, 0, 0]" "le32 0xffffffff = [255, 255, 255, 255]"
  by (simp_all add: le32_def le_bytes_numeral)

lemma POOL_TAG_set: "set POOL_TAG \<subseteq> {47, 108, 111, 116, 101, 114, 121, 45, 112}"
  by (simp add: POOL_TAG_def)

lemma length_push_height: "length (push_num (unat (height :: u32))) \<le> 6"
  by (rule length_push_num) (rule unat_width)

lemma no_early_window_head:
  assumes "set pat \<inter> ({0, 1, 14, 255, of_nat n} \<union> set POOL_TAG) = {}" and "6 < length pat"
    and "\<forall>k \<in> {0..6}. of_nat (k + 16 + n) \<notin> set pat"
  shows "no_early_window pat (coinbase_head height n)"
  unfolding coinbase_head_def
proof (rule no_early_windowI)
  show "length (push_num (unat height)) < length pat"
    using length_push_height [of height] assms(2) by simp
qed (use assms length_push_height [of height] in \<open>auto simp: le32_constants\<close>)

lemma no_early_placeholder:
  "no_early_window EXTRANONCE_PLACEHOLDER (coinbase_head height 8)"
  "no_early_window SV2_EXTRANONCE_PLACEHOLDER (coinbase_head height 36)"
proof -
  have sub: "set POOL_TAG \<subseteq> {47, 108, 111, 116, 101, 114, 121, 45, 112}" by (rule POOL_TAG_set)
  have k: "{0..6::nat} = {0, 1, 2, 3, 4, 5, 6}" by auto
  show "no_early_window EXTRANONCE_PLACEHOLDER (coinbase_head height 8)"
    using sub by (intro no_early_window_head) (auto simp: EXTRANONCE_PLACEHOLDER_def k)
  show "no_early_window SV2_EXTRANONCE_PLACEHOLDER (coinbase_head height 36)"
    using sub
    by (intro no_early_window_head) (auto simp: SV2_EXTRANONCE_PLACEHOLDER_def k)
qed

text \<open>The encoding of the intended transaction, cut at the extranonce.\<close>

lemma enc_coinbase_cut:
  assumes "length e = n" and "n \<le> 75"
  shows "enc_tx (coinbase_of 1 0 (push_num (unat height) @ 14 # POOL_TAG @ of_nat n # e) 0xffffffff [] outs) =
    coinbase_head height n @ e @ (le32 0xffffffff @ enc_list enc_txout outs @ le32 0)"
proof -
  let ?script = "push_num (unat height) @ 14 # POOL_TAG @ of_nat n # e"
  have len: "length ?script = length (push_num (unat height)) + 16 + n"
    using assms by simp
  then have "length ?script < 253"
    using length_push_height [of height] assms by linarith
  then have "enc_blob ?script = [of_nat (length (push_num (unat height)) + 16 + n)] @ ?script"
    unfolding enc_blob_def compact_size_def len by simp
  then show ?thesis
    by (simp add: enc_coinbase_of coinbase_head_def)
qed

lemma push_slice_ok:
  "script_ok L \<Longrightarrow> 2 \<le> length bs \<Longrightarrow> length bs \<le> 75 \<Longrightarrow> push_slice L bs = of_nat (length bs) # bs"
  by (simp add: script_ok_def)

lemma push_int_ok: "script_ok L \<Longrightarrow> push_int L (uint (h :: u32)) = push_num (unat h)"
  unfolding script_ok_def by (metis unsigned_of_nat int_nat_eq uint_nat)

lemma build_coinbase_tx_is:
  "script_ok L \<Longrightarrow> build_coinbase_tx L height v ms wc =
    coinbase_of 1 0 (push_num (unat height) @ 14 # POOL_TAG @ of_nat 8 # EXTRANONCE_PLACEHOLDER)
      0xffffffff [] (\<lparr>txo_value = word_of_int v, txo_script = ms\<rparr> # commitment_outputs wc)"
  by (simp add: build_coinbase_tx_def build_coinbase_script_def coinbase_of_def Let_def
      push_slice_ok push_int_ok commitment_outputs_def split: option.split)

lemma build_coinbase_tx_sv2_is:
  "script_ok L \<Longrightarrow> build_coinbase_tx_sv2 L height v ms wc =
    coinbase_of 1 0 (push_num (unat height) @ 14 # POOL_TAG @ of_nat 36 # SV2_EXTRANONCE_PLACEHOLDER)
      0xffffffff [] (\<lparr>txo_value = word_of_int v, txo_script = ms\<rparr> # commitment_outputs wc)"
  by (simp add: build_coinbase_tx_sv2_def coinbase_of_def Let_def
      push_slice_ok push_int_ok commitment_outputs_def split: option.split)

text \<open>
  The two halves with any extranonce between them: the search for the placeholder cannot stop early,
  whatever the height, and cuts nothing but the placeholder bytes.
\<close>

definition coinbase_with :: "u32 \<Rightarrow> nat \<Rightarrow> bytes \<Rightarrow> int \<Rightarrow> bytes \<Rightarrow> bytes option \<Rightarrow> transaction" where
  "coinbase_with height n extranonce value miner_script wc =
     coinbase_of 1 0 (push_num (unat height) @ 14 # POOL_TAG @ of_nat n # extranonce) 0xffffffff []
       (\<lparr>txo_value = word_of_int value, txo_script = miner_script\<rparr> # commitment_outputs wc)"

lemma coinbase_parts_enc:
  assumes "serialize_ok L" and "script_ok L"
  obtains p where "build_coinbase_parts L height value miner_script wc = Inr p"
    and "\<And>e. length e = 8 \<Longrightarrow> coinb1 p @ e @ coinb2 p = enc_tx (coinbase_with height 8 e value miner_script wc)"
proof -
  let ?ser = "\<lambda>e. enc_tx (coinbase_with height 8 e value miner_script wc)"
  obtain p where "split_at_extranonce (?ser EXTRANONCE_PLACEHOLDER) = Inr p"
    and "\<And>e. length e = length EXTRANONCE_PLACEHOLDER \<Longrightarrow> coinb1 p @ e @ coinb2 p = ?ser e"
    by (rule v1_split.refill [of ?ser, OF _ no_early_placeholder(1) [of height]])
      (auto simp: coinbase_with_def enc_coinbase_cut [where n = 8, simplified])
  with assms show thesis
    by (intro that [of p]) (simp_all add: build_coinbase_parts_def build_coinbase_tx_is serialize_ok_def coinbase_with_def)
qed

lemma sv2_coinbase_parts_enc:
  assumes "serialize_ok L" and "script_ok L"
  obtains p where "build_sv2_coinbase_parts L height value miner_script wc = Inr p"
    and "\<And>e. length e = 36 \<Longrightarrow> coinb1 p @ e @ coinb2 p = enc_tx (coinbase_with height 36 e value miner_script wc)"
proof -
  let ?ser = "\<lambda>e. enc_tx (coinbase_with height 36 e value miner_script wc)"
  obtain p where "split_at_sv2_extranonce (?ser SV2_EXTRANONCE_PLACEHOLDER) = Inr p"
    and "\<And>e. length e = length SV2_EXTRANONCE_PLACEHOLDER \<Longrightarrow> coinb1 p @ e @ coinb2 p = ?ser e"
    by (rule sv2_split.refill [of ?ser, OF _ no_early_placeholder(2) [of height]])
      (auto simp: coinbase_with_def enc_coinbase_cut [where n = 36, simplified])
  with assms show thesis
    by (intro that [of p]) (simp_all add: build_sv2_coinbase_parts_def build_coinbase_tx_sv2_is serialize_ok_def coinbase_with_def)
qed

text \<open>
  C29: Neither split ever fails, and its two halves with any extranonce between them are the consensus
  encoding of the coinbase that carries this extranonce: the Stratum V1 form with its pair of four
  bytes each, and the Stratum V2 form with thirty-two bytes fixed by the pool and four chosen by the
  miner. The placeholder search cannot stop early, whatever the height, and cuts nothing but the
  placeholder.
\<close>

theorem coinbase_splits_refill:
  assumes "serialize_ok L" and "script_ok L"
  shows "(\<exists>p. build_coinbase_parts L height value miner_script wc = Inr p \<and>
      (\<forall>e1 e2. length e1 = EXTRANONCE1_SIZE \<longrightarrow> length e2 = EXTRANONCE2_SIZE \<longrightarrow>
        coinb1 p @ e1 @ e2 @ coinb2 p = enc_tx (coinbase_with height 8 (e1 @ e2) value miner_script wc))) \<and>
    (\<exists>p. build_sv2_coinbase_parts L height value miner_script wc = Inr p \<and>
      (\<forall>prefix ext2. length prefix = SV2_EXTRANONCE_PREFIX_SIZE \<longrightarrow> length ext2 = SV2_EXTRANONCE2_SIZE \<longrightarrow>
        coinb1 p @ prefix @ ext2 @ coinb2 p =
          enc_tx (coinbase_with height 36 (prefix @ ext2) value miner_script wc)))"
proof -
  obtain p where p: "build_coinbase_parts L height value miner_script wc = Inr p"
    "\<And>e. length e = 8 \<Longrightarrow> coinb1 p @ e @ coinb2 p = enc_tx (coinbase_with height 8 e value miner_script wc)"
    by (rule coinbase_parts_enc [OF assms, of height "value" miner_script wc]) blast
  obtain q where q: "build_sv2_coinbase_parts L height value miner_script wc = Inr q"
    "\<And>e. length e = 36 \<Longrightarrow> coinb1 q @ e @ coinb2 q = enc_tx (coinbase_with height 36 e value miner_script wc)"
    by (rule sv2_coinbase_parts_enc [OF assms, of height "value" miner_script wc]) blast
  have "coinb1 p @ e1 @ e2 @ coinb2 p = enc_tx (coinbase_with height 8 (e1 @ e2) value miner_script wc)"
    if "length e1 = EXTRANONCE1_SIZE" "length e2 = EXTRANONCE2_SIZE" for e1 e2
    using p(2) [of "e1 @ e2"] that by (simp add: EXTRANONCE1_SIZE_def EXTRANONCE2_SIZE_def)
  moreover have "coinb1 q @ prefix @ ext2 @ coinb2 q =
      enc_tx (coinbase_with height 36 (prefix @ ext2) value miner_script wc)"
    if "length prefix = SV2_EXTRANONCE_PREFIX_SIZE" "length ext2 = SV2_EXTRANONCE2_SIZE" for prefix ext2
    using q(2) [of "prefix @ ext2"] that
    by (simp add: SV2_EXTRANONCE_PREFIX_SIZE_def SV2_EXTRANONCE2_SIZE_def)
  ultimately show ?thesis using p(1) q(1) by blast
qed

theorem coinbase_splits_refill_witness:
  "\<exists>p q. build_coinbase_parts sample_crates 840000 312500000 [0x51] (Some [0x6a, 0x24]) = Inr p \<and>
    coinb1 p @ [1, 2, 3, 4] @ [5, 6, 7, 8] @ coinb2 p =
      enc_tx (coinbase_with 840000 8 [1, 2, 3, 4, 5, 6, 7, 8] 312500000 [0x51] (Some [0x6a, 0x24])) \<and>
    build_sv2_coinbase_parts sample_crates 840000 312500000 [0x51] (Some [0x6a, 0x24]) = Inr q \<and>
    coinb1 q @ replicate 32 0xcc @ [5, 6, 7, 8] @ coinb2 q =
      enc_tx (coinbase_with 840000 36 (replicate 32 0xcc @ [5, 6, 7, 8]) 312500000 [0x51] (Some [0x6a, 0x24]))"
proof -
  note splits = coinbase_splits_refill
    [OF sample_crates_ok(1,3), of 840000 312500000 "[0x51]" "Some [0x6a, 0x24]"]
  obtain p where
    p: "build_coinbase_parts sample_crates 840000 312500000 [0x51] (Some [0x6a, 0x24]) = Inr p"
    "\<forall>e1 e2. length e1 = EXTRANONCE1_SIZE \<longrightarrow> length e2 = EXTRANONCE2_SIZE \<longrightarrow>
      coinb1 p @ e1 @ e2 @ coinb2 p =
        enc_tx (coinbase_with 840000 8 (e1 @ e2) 312500000 [0x51] (Some [0x6a, 0x24]))"
    using splits by blast
  obtain q where
    q: "build_sv2_coinbase_parts sample_crates 840000 312500000 [0x51] (Some [0x6a, 0x24]) = Inr q"
    "\<forall>e1 e2. length e1 = SV2_EXTRANONCE_PREFIX_SIZE \<longrightarrow> length e2 = SV2_EXTRANONCE2_SIZE \<longrightarrow>
      coinb1 q @ e1 @ e2 @ coinb2 q =
        enc_tx (coinbase_with 840000 36 (e1 @ e2) 312500000 [0x51] (Some [0x6a, 0x24]))"
    using splits by blast
  have "coinb1 p @ [1, 2, 3, 4] @ [5, 6, 7, 8] @ coinb2 p =
      enc_tx (coinbase_with 840000 8 [1, 2, 3, 4, 5, 6, 7, 8] 312500000 [0x51] (Some [0x6a, 0x24]))"
    using p(2) [rule_format, of "[1, 2, 3, 4]" "[5, 6, 7, 8]"]
    by (simp add: EXTRANONCE1_SIZE_def EXTRANONCE2_SIZE_def)
  moreover have "coinb1 q @ replicate 32 0xcc @ [5, 6, 7, 8] @ coinb2 q =
      enc_tx (coinbase_with 840000 36 (replicate 32 0xcc @ [5, 6, 7, 8]) 312500000 [0x51] (Some [0x6a, 0x24]))"
    by (rule q(2) [rule_format]) (simp_all add: SV2_EXTRANONCE_PREFIX_SIZE_def SV2_EXTRANONCE2_SIZE_def)
  ultimately show ?thesis using p(1) q(1) by blast
qed

section \<open>The coinbase from template fields\<close>

definition write_varint :: "bytes \<Rightarrow> u64 \<Rightarrow> bytes" where
  "write_varint buf n =
     (if n < 0xfd then buf @ [ucast n]
      else if n \<le> 0xffff then buf @ [0xfd] @ le16 (ucast n)
      else if n \<le> 0xffffffff then buf @ [0xfe] @ le32 (ucast n)
      else buf @ [0xff] @ le64 n)"

definition build_sv2_coinbase_from_tdp ::
    "crates \<Rightarrow> bytes \<Rightarrow> u32 \<Rightarrow> u32 \<Rightarrow> u64 \<Rightarrow> u32 \<Rightarrow> bytes \<Rightarrow> u32 \<Rightarrow> bytes \<Rightarrow> bool \<Rightarrow> coinbase_parts" where
  "build_sv2_coinbase_from_tdp L coinbase_script_prefix coinbase_tx_version
       coinbase_tx_input_sequence coinbase_tx_value_remaining coinbase_tx_outputs_count
       coinbase_tx_outputs_bytes coinbase_tx_locktime miner_script use_segwit =
     (let script_total_len = length coinbase_script_prefix + SV2_EXTRANONCE_TOTAL;
          prefix = le32 coinbase_tx_version;
          prefix = (if use_segwit then prefix @ [0x00, 0x01] else prefix);
          prefix = prefix @ [1];
          prefix = prefix @ replicate 32 0;
          prefix = prefix @ le32 0xffffffff;
          prefix = write_varint prefix (of_nat script_total_len);
          prefix = prefix @ coinbase_script_prefix;
          suffix = le32 coinbase_tx_input_sequence;
          suffix = write_varint suffix (1 + ucast coinbase_tx_outputs_count);
          payout = \<lparr>txo_value = coinbase_tx_value_remaining, txo_script = miner_script\<rparr>;
          suffix = suffix @ serialize_txout L payout;
          suffix = suffix @ coinbase_tx_outputs_bytes;
          suffix = (if use_segwit then suffix @ [0x01] @ [0x20] @ replicate 32 0 else suffix);
          suffix = suffix @ le32 coinbase_tx_locktime
      in \<lparr>coinb1 = prefix, coinb2 = suffix\<rparr>)"

lemma write_varint_compact: "write_varint buf n = buf @ compact_size (unat n)"
  by (simp add: write_varint_def compact_size_def word_less_nat_alt word_le_nat_alt
      le16_def le32_def le64_def unsigned_ucast_eq take_bit_eq_mod)

lemma length_compact_size: "length (compact_size n) \<le> 9"
  by (simp add: compact_size_def)

text \<open>
  What the compact-size writer appends, at most nine bytes, is read back by the consensus
  reader, minimality check included, and leaves the following bytes untouched.
\<close>

lemma write_varint_roundtrip:
  "\<exists>v. write_varint buf n = buf @ v \<and> length v \<le> 9 \<and>
    read_compact (v @ rest) = Some (unat n, rest)"
  using length_compact_size read_compact_size [OF unat_width(3)]
  by (auto simp: write_varint_compact)

lemma coinbase_from_tdp_enc:
  assumes "serialize_ok L"
    and "length script_prefix + SV2_EXTRANONCE_TOTAL < 2 ^ 64"
    and "length extranonce = SV2_EXTRANONCE_TOTAL"
    and "unat outputs_count = length outs" and "outputs_bytes = concat (map enc_txout outs)"
    and "parts = build_sv2_coinbase_from_tdp L script_prefix version sequence value_remaining
      outputs_count outputs_bytes locktime miner_script use_segwit"
  shows "coinb1 parts @ extranonce @ coinb2 parts =
    enc_tx (coinbase_of version locktime (script_prefix @ extranonce) sequence
      (if use_segwit then [replicate 32 0] else [])
      (\<lparr>txo_value = value_remaining, txo_script = miner_script\<rparr> # outs))"
proof -
  have "unat (of_nat (length script_prefix + SV2_EXTRANONCE_TOTAL) :: u64) =
      length (script_prefix @ extranonce)"
    using assms(2,3) unfolding unat_of_nat by simp
  moreover have "unat (1 + ucast outputs_count :: u64) =
      length (\<lparr>txo_value = value_remaining, txo_script = miner_script\<rparr> # outs)"
    using assms(4) unat_width(2) [of outputs_count]
    by (simp add: unat_word_ariths unsigned_ucast_eq take_bit_eq_mod)
  moreover have "enc_list enc_blob [replicate 32 0] = [0x01] @ [0x20] @ replicate 32 0"
    by (simp add: enc_list_def enc_blob_def compact_size_def)
  moreover have "compact_size 1 = [1]" by (simp add: compact_size_def)
  ultimately show ?thesis
    using assms(1,5)
    unfolding assms(6) build_sv2_coinbase_from_tdp_def Let_def write_varint_compact
    by (simp add: enc_coinbase_of enc_blob_def enc_list_def serialize_ok_def)
qed

text \<open>
  C17: The coinbase that the server builds from the template's fields is the intended one: prefix,
  any 36-byte extranonce and suffix together are the consensus encoding of the transaction with the
  node's version, script prefix, sequence and lock time, whose first output pays the remaining
  value to the miner and is followed by the node's own outputs, with the witness reserve exactly
  when the transaction is in segwit form.
\<close>

theorem coinbase_from_tdp_encodes:
  assumes "serialize_ok L"
    and "length script_prefix + SV2_EXTRANONCE_TOTAL < 2 ^ 64"
    and "length extranonce = SV2_EXTRANONCE_TOTAL"
    and "unat outputs_count = length outs" and "outputs_bytes = concat (map enc_txout outs)"
    and "parts = build_sv2_coinbase_from_tdp L script_prefix version sequence value_remaining
      outputs_count outputs_bytes locktime miner_script use_segwit"
  shows "coinb1 parts @ extranonce @ coinb2 parts =
    enc_tx (coinbase_of version locktime (script_prefix @ extranonce) sequence
      (if use_segwit then [replicate 32 0] else [])
      (\<lparr>txo_value = value_remaining, txo_script = miner_script\<rparr> # outs))"
  using assms by (rule coinbase_from_tdp_enc)

theorem coinbase_from_tdp_encodes_witness:
  "let parts = build_sv2_coinbase_from_tdp sample_crates [1, 2] 2 0xffffffff 5000000000 1
      (enc_txout \<lparr>txo_value = 0, txo_script = [0x6a]\<rparr>) 0 [0x51] True
   in coinb1 parts @ replicate 36 7 @ coinb2 parts =
    enc_tx (coinbase_of 2 0 (1 # 2 # replicate 36 7) 0xffffffff [replicate 32 0]
      [\<lparr>txo_value = 5000000000, txo_script = [0x51]\<rparr>, \<lparr>txo_value = 0, txo_script = [0x6a]\<rparr>])"
  using coinbase_from_tdp_encodes [OF sample_crates_ok(1) _ _ _ _ refl,
      where script_prefix = "[1, 2]" and extranonce = "replicate 36 7" and outputs_count = 1
        and outs = "[\<lparr>txo_value = 0, txo_script = [0x6a]\<rparr>]"
        and outputs_bytes = "enc_txout \<lparr>txo_value = 0, txo_script = [0x6a]\<rparr>"
        and version = 2 and locktime = 0 and sequence = "0xffffffff" and use_segwit = True
        and value_remaining = 5000000000 and miner_script = "[0x51]"]
  by (simp add: Let_def)

lemma length_coinbase_from_tdp:
  assumes "parts = build_sv2_coinbase_from_tdp L sp v sq val n obs lt ms sw"
    and "serialize_ok L"
  shows "length (coinb1 parts) \<le> 52 + length sp"
    and "length (coinb2 parts) \<le> 68 + length ms + length obs"
  using assms(2) length_compact_size
    [of "unat (of_nat (length sp + SV2_EXTRANONCE_TOTAL) :: u64)"]
    length_compact_size [of "length ms"] length_compact_size [of "unat (1 + ucast n :: u64)"]
  unfolding assms(1) build_sv2_coinbase_from_tdp_def Let_def write_varint_compact
  by (simp_all add: serialize_ok_def enc_txout_def enc_blob_def del: constant_lengths(4))

end
