(* ===== verification/Templates.thy ===== *)
theory Templates
  imports Coinbase
begin

text \<open>
  Block templates, from \<open>pool/src/node_ipc.rs\<close>: the messages of the template distribution
  protocol that carry one, the sized byte strings of the wire format, and \<open>build_raw_template\<close>,
  which turns the node's header, coinbase transaction and merkle path into a template. The
  lemmas say when it succeeds and that no coinbase value is lost or invented.
\<close>

section \<open>Sized values of the wire format\<close>

text \<open>\<open>B0255\<close>, \<open>B064K\<close>, \<open>U256\<close> and \<open>Seq0255\<close> check their length when they are built.\<close>

definition b0255 :: "string \<Rightarrow> bytes \<Rightarrow> bytes outcome" where
  "b0255 ctxt bs = (if length bs \<le> 255 then Inr bs else Inl (Bail ctxt))"

definition b064k :: "string \<Rightarrow> bytes \<Rightarrow> bytes outcome" where
  "b064k ctxt bs = (if length bs \<le> 65535 then Inr bs else Inl (Bail ctxt))"

definition u256 :: "string \<Rightarrow> bytes \<Rightarrow> bytes outcome" where
  "u256 ctxt bs = (if length bs = 32 then Inr bs else Inl (Bail ctxt))"

definition seq0255 :: "string \<Rightarrow> 'a list \<Rightarrow> 'a list outcome" where
  "seq0255 ctxt xs = (if length xs \<le> 255 then Inr xs else Inl (Bail ctxt))"

lemma sized_Inr [simp, outcome_simps]:
  "b0255 c bs = Inr x \<longleftrightarrow> x = bs \<and> length bs \<le> 255"
  "b064k c bs = Inr x \<longleftrightarrow> x = bs \<and> length bs \<le> 65535"
  "u256 c bs = Inr x \<longleftrightarrow> x = bs \<and> length bs = 32"
  "seq0255 c ys = Inr y \<longleftrightarrow> y = ys \<and> length ys \<le> 255"
  by (auto simp: b0255_def b064k_def u256_def seq0255_def)

section \<open>Template messages\<close>

record new_template =
  nt_template_id :: u64
  nt_future_template :: bool
  nt_version :: u32
  nt_coinbase_tx_version :: u32
  nt_coinbase_prefix :: bytes
  nt_coinbase_tx_input_sequence :: u32
  nt_coinbase_tx_value_remaining :: u64
  nt_coinbase_tx_outputs_count :: u32
  nt_coinbase_tx_outputs :: bytes
  nt_coinbase_tx_locktime :: u32
  nt_merkle_path :: "bytes list"

record set_new_prev_hash =
  sp_template_id :: u64
  sp_prev_hash :: bytes
  sp_header_timestamp :: u32
  sp_n_bits :: u32
  sp_target :: bytes

record raw_template =
  rt_new_template :: new_template
  rt_set_new_prev_hash :: set_new_prev_hash

record submit_solution_data =
  ss_template_id :: u64
  ss_version :: u32
  ss_header_timestamp :: u32
  ss_header_nonce :: u32
  ss_coinbase_tx :: bytes

section \<open>Building a template\<close>

text \<open>\<open>checked_sum\<close> of amounts: \<open>None\<close> as soon as a partial sum leaves 64 bits.\<close>

fun checked_sum_from :: "u64 \<Rightarrow> u64 list \<Rightarrow> u64 option" where
  "checked_sum_from acc [] = Some acc"
| "checked_sum_from acc (v # vs) =
     (if unat acc + unat v < 2 ^ 64 then checked_sum_from (acc + v) vs else None)"

definition checked_sum :: "u64 list \<Rightarrow> u64 option" where
  "checked_sum vs = checked_sum_from 0 vs"

definition build_raw_template ::
    "crates \<Rightarrow> u64 \<Rightarrow> header \<Rightarrow> transaction \<Rightarrow> bytes list \<Rightarrow> raw_template outcome" where
  "build_raw_template L template_id hdr cb path =
     (let empty_outputs = filter (\<lambda>o'. txo_value o' = 0) (tx_outputs cb);
          serialized_outputs = concat (map (serialize_txout L) empty_outputs)
      in and_then (ok_or (Bail ''coinbase output value overflow'') (checked_sum (map txo_value (tx_outputs cb))))
         (\<lambda>value_remaining.
         case tx_inputs cb of
           [] \<Rightarrow> Inl (Panic ''index out of bounds'')
         | input0 # _ \<Rightarrow>
         and_then (b0255 ''coinbase_prefix'' (txi_script_sig input0)) (\<lambda>coinbase_prefix.
         and_then (b064k ''coinbase_tx_outputs'' serialized_outputs) (\<lambda>coinbase_tx_outputs.
         and_then (mapM (u256 ''merkle hash'') path) (\<lambda>path_u256.
         and_then (seq0255 ''merkle_path'' path_u256) (\<lambda>merkle_path.
         Inr \<lparr>rt_new_template =
                \<lparr>nt_template_id = template_id, nt_future_template = True, nt_version = hd_version hdr,
                 nt_coinbase_tx_version = tx_version cb, nt_coinbase_prefix = coinbase_prefix,
                 nt_coinbase_tx_input_sequence = txi_sequence input0,
                 nt_coinbase_tx_value_remaining = value_remaining,
                 nt_coinbase_tx_outputs_count = of_nat (length empty_outputs),
                 nt_coinbase_tx_outputs = coinbase_tx_outputs,
                 nt_coinbase_tx_locktime = tx_lock_time cb, nt_merkle_path = merkle_path\<rparr>,
              rt_set_new_prev_hash =
                \<lparr>sp_template_id = template_id, sp_prev_hash = hd_prev_blockhash hdr,
                 sp_header_timestamp = hd_time hdr, sp_n_bits = hd_bits hdr,
                 sp_target = target_le_bytes L (hd_bits hdr)\<rparr>\<rparr>))))))"

section \<open>What a template carries\<close>

lemma checked_sum_from_Some:
  "checked_sum_from acc vs = Some s \<longleftrightarrow>
    unat acc + sum_list (map unat vs) < 2 ^ 64 \<and> unat s = unat acc + sum_list (map unat vs)"
proof (induction vs arbitrary: acc)
  case Nil
  then show ?case using unat_width(3) [of acc] by (auto simp: word_unat_eq_iff)
next
  case (Cons v vs)
  show ?case
  proof (cases "unat acc + unat v < 2 ^ 64")
    case True
    then have "unat (acc + v) = unat acc + unat v" by (simp add: unat_word_ariths)
    with True Cons show ?thesis by (simp add: add.assoc)
  qed simp
qed

lemma checked_sum_Some:
  "checked_sum vs = Some s \<longleftrightarrow> sum_list (map unat vs) < 2 ^ 64 \<and> unat s = sum_list (map unat vs)"
  by (simp add: checked_sum_def checked_sum_from_Some)

text \<open>
  The abstract content of a well-formed template: the outputs that the bytes encode, all of value
  zero, and field sizes as the wire format bounds them. Everything the job construction needs of
  the node is in this predicate.
\<close>

definition template_outputs :: "raw_template \<Rightarrow> txout list \<Rightarrow> bool" where
  "template_outputs raw outs \<longleftrightarrow>
     unat (nt_coinbase_tx_outputs_count (rt_new_template raw)) = length outs \<and>
     nt_coinbase_tx_outputs (rt_new_template raw) = concat (map enc_txout outs) \<and>
     list_all (\<lambda>o'. txo_value o' = 0) outs"

definition wf_template :: "raw_template \<Rightarrow> bool" where
  "wf_template raw \<longleftrightarrow>
     length (nt_coinbase_prefix (rt_new_template raw)) \<le> 255 \<and>
     length (nt_coinbase_tx_outputs (rt_new_template raw)) \<le> 65535 \<and>
     list_all (\<lambda>h. length h = 32) (nt_merkle_path (rt_new_template raw)) \<and>
     length (nt_merkle_path (rt_new_template raw)) \<le> 255 \<and>
     length (sp_prev_hash (rt_set_new_prev_hash raw)) = 32 \<and>
     (\<exists>outs. template_outputs raw outs)"

lemma mapM_u256: "mapM (u256 c) xs = Inr ys \<longleftrightarrow> ys = xs \<and> list_all (\<lambda>h. length h = 32) xs"
  by (auto simp: mapM_Inr_iff list_all2_conv_all_nth list_all_length intro!: nth_equalityI)

lemma build_raw_template_Inr:
  "build_raw_template L tid hdr cb path = Inr raw \<Longrightarrow>
    checked_sum (map txo_value (tx_outputs cb)) =
      Some (nt_coinbase_tx_value_remaining (rt_new_template raw)) \<and>
    nt_template_id (rt_new_template raw) = tid \<and> sp_template_id (rt_set_new_prev_hash raw) = tid \<and>
    nt_merkle_path (rt_new_template raw) = path \<and> list_all (\<lambda>h. length h = 32) path \<and> length path \<le> 255 \<and>
    nt_coinbase_tx_outputs (rt_new_template raw) =
      concat (map (serialize_txout L) (filter (\<lambda>o'. txo_value o' = 0) (tx_outputs cb))) \<and>
    length (nt_coinbase_tx_outputs (rt_new_template raw)) \<le> 65535 \<and>
    nt_coinbase_tx_outputs_count (rt_new_template raw) =
      of_nat (length (filter (\<lambda>o'. txo_value o' = 0) (tx_outputs cb))) \<and>
    length (nt_coinbase_prefix (rt_new_template raw)) \<le> 255 \<and>
    nt_coinbase_prefix (rt_new_template raw) = txi_script_sig (hd (tx_inputs cb)) \<and>
    sp_prev_hash (rt_set_new_prev_hash raw) = hd_prev_blockhash hdr \<and>
    sp_header_timestamp (rt_set_new_prev_hash raw) = hd_time hdr \<and>
    sp_n_bits (rt_set_new_prev_hash raw) = hd_bits hdr \<and> tx_inputs cb \<noteq> []"
  by (cases "tx_inputs cb") (auto simp: build_raw_template_def Let_def mapM_u256)

text \<open>An encoded output has at least nine bytes, so the count of outputs fits its field.\<close>

lemma enc_txouts_count: "9 * length outs \<le> length (concat (map enc_txout outs))"
  by (induction outs) (auto simp: enc_txout_def enc_blob_def compact_size_def)

lemma build_raw_template_outputs:
  assumes "serialize_ok L" and "build_raw_template L tid hdr cb path = Inr raw"
  shows "template_outputs raw (filter (\<lambda>o'. txo_value o' = 0) (tx_outputs cb))"
proof -
  let ?outs = "filter (\<lambda>o'. txo_value o' = 0) (tx_outputs cb)"
  have "9 * length ?outs \<le> 65535"
    using enc_txouts_count [of ?outs] build_raw_template_Inr [OF assms(2)] assms(1)
    by (auto simp: serialize_ok_def)
  then show ?thesis
    using build_raw_template_Inr [OF assms(2)] assms(1)
    by (simp add: template_outputs_def serialize_ok_def unat_of_nat list_all_iff)
qed

lemma build_raw_template_wf:
  assumes "serialize_ok L" and "length (hd_prev_blockhash hdr) = 32"
    and "build_raw_template L tid hdr cb path = Inr raw"
  shows "wf_template raw"
  using build_raw_template_Inr [OF assms(3)] build_raw_template_outputs [OF assms(1,3)] assms(2)
  by (auto simp: wf_template_def)

end
