(* ===== verification/Float64.thy ===== *)
theory Float64
  imports Complex_Main "HOL-Library.Log_Nat"
begin

text \<open>
  The binary64 arithmetic of Rust's \<open>f64\<close>, as far as the pool uses it: finite values are the
  rationals they denote, every operation rounds its exact result to the nearest representable
  value (ties to even, subnormals and overflow included), and the cast to an unsigned integer
  truncates and saturates. The sign of a zero is not kept: no operation of the pool depends on it.
  The lemmas give what the components need: rounding is monotone and exact on small integers.
\<close>

datatype f64 = NaN | Inf (is_negative: bool) | Fin (rat_of: rat)

section \<open>Rounding\<close>

text \<open>Nearest integer, ties to even.\<close>

definition rne :: "rat \<Rightarrow> int" where
  "rne x = (let k = \<lfloor>x\<rfloor>; d = x - of_int k in
     if d < 1/2 then k else if d > 1/2 then k + 1 else if even k then k else k + 1)"

text \<open>The binary exponent: \<open>2 powi ilog2 x \<le> x < 2 powi (ilog2 x + 1)\<close> for positive \<open>x\<close>.\<close>

definition ilog2 :: "rat \<Rightarrow> int" where
  "ilog2 x = (if 1 \<le> x then bitlen \<lfloor>x\<rfloor> - 1 else - bitlen (\<lceil>1 / x\<rceil> - 1))"

text \<open>The exponent of the last place: 53 significant bits, and none below \<open>2 powi (-1074)\<close>.\<close>

definition ulp_exp :: "rat \<Rightarrow> int" where
  "ulp_exp x = max (ilog2 x - 52) (-1074)"

definition round_pos :: "rat \<Rightarrow> rat" where
  "round_pos x = of_int (rne (x / 2 powi ulp_exp x)) * 2 powi ulp_exp x"

definition f64_max_bound :: rat where
  "f64_max_bound = 2 ^ 1024"

definition f64_of_rat :: "rat \<Rightarrow> f64" where
  "f64_of_rat x =
     (if x = 0 then Fin 0
      else let r = round_pos \<bar>x\<bar> in
        if f64_max_bound \<le> r then Inf (x < 0) else Fin (if x < 0 then - r else r))"

section \<open>Operations\<close>

text \<open>\<open>f64::MAX\<close>.\<close>

definition F64_MAX :: f64 where
  "F64_MAX = Fin ((2 ^ 53 - 1) * 2 ^ 971)"

fun f64_mul :: "f64 \<Rightarrow> f64 \<Rightarrow> f64" where
  "f64_mul (Fin a) (Fin b) = f64_of_rat (a * b)"
| "f64_mul (Inf s) (Fin b) = (if b = 0 then NaN else Inf (s \<noteq> (b < 0)))"
| "f64_mul (Fin a) (Inf s) = (if a = 0 then NaN else Inf (s \<noteq> (a < 0)))"
| "f64_mul (Inf s) (Inf t) = Inf (s \<noteq> t)"
| "f64_mul _ _ = NaN"

fun f64_div :: "f64 \<Rightarrow> f64 \<Rightarrow> f64" where
  "f64_div (Fin a) (Fin b) =
     (if b = 0 then (if a = 0 then NaN else Inf (a < 0)) else f64_of_rat (a / b))"
| "f64_div (Inf s) (Fin b) = Inf (s \<noteq> (b < 0))"
| "f64_div (Fin a) (Inf s) = Fin 0"
| "f64_div _ _ = NaN"

fun f64_add :: "f64 \<Rightarrow> f64 \<Rightarrow> f64" where
  "f64_add (Fin a) (Fin b) = f64_of_rat (a + b)"
| "f64_add (Inf s) (Fin b) = Inf s"
| "f64_add (Fin a) (Inf s) = Inf s"
| "f64_add (Inf s) (Inf t) = (if s = t then Inf s else NaN)"
| "f64_add _ _ = NaN"

text \<open>\<open>f64::max\<close> ignores a NaN.\<close>

fun f64_maximum :: "f64 \<Rightarrow> f64 \<Rightarrow> f64" where
  "f64_maximum (Fin a) (Fin b) = Fin (max a b)"
| "f64_maximum NaN y = y"
| "f64_maximum x NaN = x"
| "f64_maximum (Inf s) y = (if s then y else Inf False)"
| "f64_maximum x (Inf s) = (if s then x else Inf False)"

fun f64_le :: "f64 \<Rightarrow> f64 \<Rightarrow> bool" where
  "f64_le (Fin a) (Fin b) = (a \<le> b)"
| "f64_le (Inf s) (Fin b) = s"
| "f64_le (Fin a) (Inf s) = (\<not> s)"
| "f64_le (Inf s) (Inf t) = (s \<or> \<not> t)"
| "f64_le _ _ = False"

text \<open>The comparison operators; no order, because of \<open>NaN\<close>.\<close>

instantiation f64 :: ord
begin

definition less_eq_f64 :: "f64 \<Rightarrow> f64 \<Rightarrow> bool" where
  "less_eq_f64 x y = f64_le x y"

definition less_f64 :: "f64 \<Rightarrow> f64 \<Rightarrow> bool" where
  "less_f64 x y \<longleftrightarrow> f64_le x y \<and> \<not> f64_le y x"

instance ..

end

text \<open>\<open>n as f64\<close> for an unsigned integer, and \<open>x as u128\<close>.\<close>

definition f64_of_nat :: "nat \<Rightarrow> f64" where
  "f64_of_nat n = f64_of_rat (of_nat n)"

fun f64_to_u128 :: "f64 \<Rightarrow> nat" where
  "f64_to_u128 NaN = 0"
| "f64_to_u128 (Inf s) = (if s then 0 else 2 ^ 128 - 1)"
| "f64_to_u128 (Fin a) = min (nat \<lfloor>a\<rfloor>) (2 ^ 128 - 1)"

section \<open>Monotonicity\<close>

lemma rne_of_int [simp]: "rne (of_int k) = k"
  by (simp add: rne_def)

lemma rne_mono: "x \<le> y \<Longrightarrow> rne x \<le> rne y"
proof -
  assume le: "x \<le> y"
  then have "\<lfloor>x\<rfloor> \<le> \<lfloor>y\<rfloor>" by (rule floor_mono)
  moreover have "rne x \<le> rne y" if "\<lfloor>x\<rfloor> = \<lfloor>y\<rfloor>"
    using le that by (auto simp: rne_def Let_def)
  moreover have "rne x \<le> rne y" if "\<lfloor>x\<rfloor> < \<lfloor>y\<rfloor>"
    using that by (auto simp: rne_def Let_def)
  ultimately show ?thesis by linarith
qed

lemma powi_pos [simp]: "0 < (2 :: rat) powi k"
  by (rule zero_less_power_int) simp

lemma powi_mono: "k \<le> l \<Longrightarrow> (2 :: rat) powi k \<le> 2 powi l"
  by (rule power_int_increasing) auto

lemma bitlen_window:
  assumes "0 < m"
  obtains k where "bitlen m = int (Suc k)" "2 ^ k \<le> m" "m < 2 ^ Suc k"
proof -
  have b: "2 ^ nat (bitlen m - 1) \<le> m" "m < 2 ^ nat (bitlen m)"
    using bitlen_bounds [OF assms] by simp_all
  have "bitlen m \<noteq> 0" using assms by (simp add: bitlen_eq_zero_iff)
  then have "bitlen m = int (Suc (nat (bitlen m - 1)))" using bitlen_nonneg [of m] by simp
  moreover from this have "nat (bitlen m) = Suc (nat (bitlen m - 1))" by (metis nat_int)
  ultimately show thesis using b by (intro that) simp_all
qed

lemma ilog2_bounds:
  assumes "0 < x"
  shows "2 powi ilog2 x \<le> x" and "x < 2 powi (ilog2 x + 1)"
proof -
  have "2 powi ilog2 x \<le> x \<and> x < 2 powi (ilog2 x + 1)"
  proof (cases "1 \<le> x")
    case True
    then have "0 < \<lfloor>x\<rfloor>" by simp
    then obtain k where k: "bitlen \<lfloor>x\<rfloor> = int (Suc k)" "2 ^ k \<le> \<lfloor>x\<rfloor>" "\<lfloor>x\<rfloor> < 2 ^ Suc k"
      by (rule bitlen_window)
    have i: "ilog2 x = int k" using True k(1) by (simp add: ilog2_def)
    have "(2::rat) ^ k \<le> x" using k(2) by (simp add: le_floor_iff)
    moreover have "x < 2 ^ Suc k" using k(3) by (simp add: floor_less_iff)
    moreover have "ilog2 x + 1 = int (Suc k)" by (simp add: i)
    ultimately show ?thesis by (simp only: i power_int_of_nat)
  next
    case False
    define m where "m = \<lceil>1 / x\<rceil> - 1"
    have inv: "1 < 1 / x" using False assms by simp
    then have "0 < m" by (simp add: m_def less_ceiling_iff)
    then obtain k where k: "bitlen m = int (Suc k)" "2 ^ k \<le> m" "m < 2 ^ Suc k"
      by (rule bitlen_window)
    have i: "ilog2 x = - int (Suc k)" using False k(1) by (simp add: ilog2_def m_def)
    have "2 ^ k < \<lceil>1 / x\<rceil>" using k(2) by (simp add: m_def)
    then have "(2::rat) ^ k < 1 / x" by (simp add: less_ceiling_iff)
    then have a: "x < 1 / 2 ^ k" using assms by (simp add: field_simps)
    have "\<lceil>1 / x\<rceil> \<le> 2 ^ Suc k" using k(3) by (simp add: m_def)
    then have "1 / x \<le> (2::rat) ^ Suc k" by (simp add: ceiling_le_iff)
    then have "1 / 2 ^ Suc k \<le> x" using assms by (simp add: field_simps)
    moreover have "2 powi ilog2 x = 1 / (2::rat) ^ Suc k"
      unfolding i power_int_minus power_int_of_nat by (rule inverse_eq_divide)
    moreover have e: "ilog2 x + 1 = - int k" by (simp add: i)
    have "2 powi (ilog2 x + 1) = 1 / (2::rat) ^ k"
      unfolding e power_int_minus power_int_of_nat by (rule inverse_eq_divide)
    ultimately show ?thesis using a by (simp only:)
  qed
  then show "2 powi ilog2 x \<le> x" and "x < 2 powi (ilog2 x + 1)" by simp_all
qed

lemma ilog2_mono: "0 < x \<Longrightarrow> x \<le> y \<Longrightarrow> ilog2 x \<le> ilog2 y"
proof (rule ccontr)
  assume "0 < x" "x \<le> y" "\<not> ilog2 x \<le> ilog2 y"
  then have "(2::rat) powi (ilog2 y + 1) \<le> 2 powi ilog2 x" by (intro powi_mono) simp
  with ilog2_bounds(1) [of x] ilog2_bounds(2) [of y] \<open>0 < x\<close> \<open>x \<le> y\<close> show False by linarith
qed

lemma ulp_exp_mono: "0 < x \<Longrightarrow> x \<le> y \<Longrightarrow> ulp_exp x \<le> ulp_exp y"
  using ilog2_mono [of x y] by (simp add: ulp_exp_def)

lemma powi_shift: "(2::rat) powi (k + int n) = 2 ^ n * 2 powi k"
  by (simp add: power_int_add power_int_of_nat)

lemma round_pos_upper: "0 < x \<Longrightarrow> round_pos x \<le> 2 ^ 53 * 2 powi ulp_exp x"
proof -
  assume x: "0 < x"
  have "x < 2 powi (ilog2 x + 1)" using x by (rule ilog2_bounds)
  also have "\<dots> \<le> 2 powi (ulp_exp x + int 53)" by (rule powi_mono) (simp add: ulp_exp_def)
  finally have "x / 2 powi ulp_exp x \<le> of_int (2 ^ 53)"
    by (simp only: powi_shift) (simp add: divide_le_eq)
  then have "rne (x / 2 powi ulp_exp x) \<le> 2 ^ 53" by (metis rne_mono rne_of_int)
  then have "(of_int (rne (x / 2 powi ulp_exp x)) :: rat) \<le> of_int (2 ^ 53)"
    by (simp only: of_int_le_iff)
  then show ?thesis unfolding round_pos_def by (intro mult_right_mono) simp_all
qed

lemma round_pos_lower: "0 < x \<Longrightarrow> -1074 < ulp_exp x \<Longrightarrow> 2 ^ 52 * 2 powi ulp_exp x \<le> round_pos x"
proof -
  assume x: "0 < x" and "-1074 < ulp_exp x"
  then have e: "ulp_exp x + int 52 = ilog2 x" by (auto simp: ulp_exp_def max_def split: if_splits)
  have "2 powi (ulp_exp x + int 52) \<le> x" unfolding e using x by (rule ilog2_bounds)
  then have "of_int (2 ^ 52) \<le> x / 2 powi ulp_exp x"
    by (simp only: powi_shift) (simp add: le_divide_eq)
  then have "2 ^ 52 \<le> rne (x / 2 powi ulp_exp x)" by (metis rne_mono rne_of_int)
  then have "(of_int (2 ^ 52) :: rat) \<le> of_int (rne (x / 2 powi ulp_exp x))"
    by (simp only: of_int_le_iff)
  then show ?thesis unfolding round_pos_def by (intro mult_right_mono) simp_all
qed

lemma round_pos_mono: "0 < x \<Longrightarrow> x \<le> y \<Longrightarrow> round_pos x \<le> round_pos y"
proof -
  assume x: "0 < x" and xy: "x \<le> y"
  have "ulp_exp x \<le> ulp_exp y" using x xy by (rule ulp_exp_mono)
  then consider "ulp_exp x = ulp_exp y" | "ulp_exp x < ulp_exp y" by linarith
  then show ?thesis
  proof cases
    case 1
    have "x / 2 powi ulp_exp x \<le> y / 2 powi ulp_exp x"
      using xy by (intro divide_right_mono) (simp_all add: less_imp_le)
    then have "rne (x / 2 powi ulp_exp x) \<le> rne (y / 2 powi ulp_exp x)" by (rule rne_mono)
    then show ?thesis unfolding round_pos_def 1 [symmetric]
      by (intro mult_right_mono) (simp_all add: less_imp_le)
  next
    case 2
    then have "-1074 < ulp_exp y" by (simp add: ulp_exp_def)
    with x xy have "2 ^ 52 * 2 powi ulp_exp y \<le> round_pos y" by (intro round_pos_lower) auto
    moreover have "round_pos x \<le> 2 ^ 53 * 2 powi ulp_exp x" using x by (rule round_pos_upper)
    moreover have "(2::rat) powi (ulp_exp x + int 1) \<le> 2 powi ulp_exp y"
      using 2 by (intro powi_mono) simp
    then have "2 ^ 1 * (2::rat) powi ulp_exp x \<le> 2 powi ulp_exp y" by (simp only: powi_shift)
    then have "2 ^ 52 * (2 ^ 1 * (2::rat) powi ulp_exp x) \<le> 2 ^ 52 * 2 powi ulp_exp y"
      by (rule mult_left_mono) simp
    ultimately show ?thesis by simp
  qed
qed

section \<open>Exact values and bounds\<close>

lemma round_pos_exact: "x / 2 powi ulp_exp x = of_int m \<Longrightarrow> round_pos x = x"
proof -
  assume m: "x / 2 powi ulp_exp x = of_int m"
  then have "x = of_int m * 2 powi ulp_exp x" by (simp add: divide_eq_eq)
  then show ?thesis unfolding round_pos_def m rne_of_int by simp
qed

lemma ilog2_unique: "0 < x \<Longrightarrow> 2 powi k \<le> x \<Longrightarrow> x < 2 powi (k + 1) \<Longrightarrow> ilog2 x = k"
proof -
  assume x: "0 < x" and "2 powi k \<le> x" "x < 2 powi (k + 1)"
  moreover note ilog2_bounds [OF x]
  ultimately have "(2::rat) powi k < 2 powi (ilog2 x + 1)" "(2::rat) powi ilog2 x < 2 powi (k + 1)"
    by linarith+
  then have "\<not> ilog2 x + 1 \<le> k" "\<not> k + 1 \<le> ilog2 x" using powi_mono not_less by blast+
  then show "ilog2 x = k" by linarith
qed

lemma round_pos_power2: "round_pos (2 ^ n) = 2 ^ n"
proof -
  have i: "ilog2 (2 ^ n) = int n"
    by (rule ilog2_unique) (simp_all add: power_int_of_nat power_int_add)
  obtain j where j: "int n = ulp_exp (2 ^ n) + int j"
    using zle_iff_zadd [of "ulp_exp (2 ^ n)" "int n"] by (auto simp: ulp_exp_def i)
  then have "(2::rat) ^ n = 2 ^ j * 2 powi ulp_exp (2 ^ n)"
    by (metis power_int_of_nat powi_shift)
  then have "(2::rat) ^ n / 2 powi ulp_exp (2 ^ n) = of_int (2 ^ j)" by (simp add: divide_eq_eq)
  then show ?thesis by (rule round_pos_exact)
qed

lemma round_pos_int:
  assumes "0 < n" and "n < 2 ^ 53"
  shows "round_pos (of_nat n) = of_nat n"
proof -
  have "(of_nat n :: rat) < 2 powi 53" using assms(2)
    by (metis of_nat_less_iff of_nat_numeral of_nat_power power_int_numeral)
  moreover have "2 powi ilog2 (of_nat n) \<le> (of_nat n :: rat)" using assms by (intro ilog2_bounds) simp
  ultimately have "\<not> 53 \<le> ilog2 (of_nat n :: rat)" using powi_mono [of 53 "ilog2 (of_nat n)"] by linarith
  then have "ulp_exp (of_nat n) \<le> 0" by (simp add: ulp_exp_def)
  then obtain j where j: "0 = ulp_exp (of_nat n) + int j" using zle_iff_zadd by blast
  have "1 = 2 ^ j * (2::rat) powi ulp_exp (of_nat n)" using powi_shift [of "ulp_exp (of_nat n)" j] by (simp flip: j)
  then have "(of_nat n :: rat) / 2 powi ulp_exp (of_nat n) = of_int (int n * 2 ^ j)"
    by (simp add: divide_eq_eq)
  then show ?thesis by (rule round_pos_exact)
qed

lemma round_pos_nonneg: "0 < x \<Longrightarrow> 0 \<le> round_pos x"
proof -
  assume "0 < x"
  then have "rne 0 \<le> rne (x / 2 powi ulp_exp x)" by (intro rne_mono) (simp add: less_imp_le)
  then show ?thesis by (simp add: round_pos_def rne_def less_imp_le)
qed

lemma f64_of_nat_exact: "n < 2 ^ 53 \<Longrightarrow> f64_of_nat n = Fin (of_nat n)"
proof (cases "n = 0")
  case False
  assume "n < 2 ^ 53"
  moreover have "(of_nat n :: rat) < of_nat (2 ^ 53)" using \<open>n < 2 ^ 53\<close> by (simp only: of_nat_less_iff)
  then have "(of_nat n :: rat) < 2 ^ 1024" by (rule less_trans) simp
  ultimately show ?thesis using False
    by (simp add: f64_of_nat_def f64_of_rat_def round_pos_int f64_max_bound_def Let_def)
qed (simp add: f64_of_nat_def f64_of_rat_def)

text \<open>A value up to a power of two rounds to a finite value up to it.\<close>

lemma f64_of_rat_bounded:
  assumes "0 \<le> x" and "x \<le> 2 ^ n" and "n < 1024"
  obtains r where "f64_of_rat x = Fin r" "0 \<le> r" "r \<le> 2 ^ n"
proof (cases "x = 0")
  case True
  then show ?thesis by (intro that [of 0]) (simp_all add: f64_of_rat_def)
next
  case False
  with assms have x: "0 < x" by simp
  then have "round_pos x \<le> 2 ^ n" using round_pos_mono [OF x assms(2)] by (simp add: round_pos_power2)
  moreover have "(2::rat) ^ n < f64_max_bound" unfolding f64_max_bound_def
    using assms(3) by (intro power_strict_increasing) simp_all
  ultimately show ?thesis using x round_pos_nonneg [OF x]
    by (intro that [of "round_pos x"]) (auto simp: f64_of_rat_def Let_def)
qed

lemma f64_of_rat_mono: "0 \<le> x \<Longrightarrow> x \<le> y \<Longrightarrow> f64_le (f64_of_rat x) (f64_of_rat y)"
proof (cases "x = 0")
  case True
  assume "0 \<le> x" "x \<le> y"
  then show ?thesis using True round_pos_nonneg [of y] by (auto simp: f64_of_rat_def Let_def)
next
  case False
  assume "0 \<le> x" "x \<le> y"
  then show ?thesis using False round_pos_mono [of x y] by (auto simp: f64_of_rat_def Let_def)
qed

end
