(* ===== verification/Difficulty.thy ===== *)
theory Difficulty
  imports Crates Float64
begin

text \<open>
  Targets and difficulties: the expansion of compact bits and the per-channel target from a
  declared hashrate (\<open>pool/src/stratum_sv2.rs\<close>), and the difficulty of a hash
  (\<open>pool/src/db.rs\<close>). The pool compares 256-bit values in three forms, as byte arrays, as
  hexadecimal text and as database blobs; the locale \<open>target_view\<close> is the contract that makes
  these comparisons agree with the order of the numbers.
\<close>

unbundle bit_operations_syntax

section \<open>Forms of a 256-bit value\<close>

locale target_view =
  fixes view :: "bytes \<Rightarrow> 'o::linorder"
  assumes view_less: "length a = length b \<Longrightarrow> view a < view b \<longleftrightarrow> be_nat a < be_nat b"
begin

lemma view_le: "length a = length b \<Longrightarrow> view a \<le> view b \<longleftrightarrow> be_nat a \<le> be_nat b"
  using view_less [of b a] by (simp add: not_less [symmetric])

text \<open>Keeping the larger of two values, as the code writes it, keeps the larger number.\<close>

lemma clamp_max:
  "length a = length b \<Longrightarrow>
    be_nat (if view b > view a then b else a) = max (be_nat a) (be_nat b)"
  by (auto simp: view_less max_def)

text \<open>Keeping the smaller one, as the upsert of the best share does.\<close>

lemma clamp_min:
  "length a = length b \<Longrightarrow>
    be_nat (if view b < view a then b else a) = min (be_nat a) (be_nat b)"
  by (auto simp: view_less min_def)

end

interpretation array_view: target_view "\<lambda>b. b"
  by unfold_locales (simp add: be_nat_less_iff)

interpretation text_view: target_view hex_text
  by unfold_locales (simp add: hex_text_less_iff be_nat_less_iff)

section \<open>Compact bits\<close>

definition compact_to_target_be :: "u32 \<Rightarrow> bytes" where
  "compact_to_target_be bits =
     (let exp = unat (drop_bit 24 bits);
          mantissa = bits AND 0x007fffff;
          be = replicate 32 (0::u8)
      in if exp \<ge> 3 \<and> exp \<le> 32 then
           let i = 32 - exp;
               be = (if i < 32 then be[i := ucast (drop_bit 16 mantissa AND 0xff)] else be);
               be = (if i + 1 < 32 then be[i + 1 := ucast (drop_bit 8 mantissa AND 0xff)] else be);
               be = (if i + 2 < 32 then be[i + 2 := ucast (mantissa AND 0xff)] else be)
           in be
         else be)"

definition compact_to_target_hex :: "crates \<Rightarrow> u32 \<Rightarrow> string" where
  "compact_to_target_hex L bits =
     (let exp = unat (drop_bit 24 bits);
          mantissa = bits AND 0x007fffff;
          be = replicate 32 (0::u8);
          be = (if exp \<ge> 3 \<and> exp \<le> 32 then
           let i = 32 - exp;
               be = (if i < 32 then be[i := ucast (drop_bit 16 mantissa AND 0xff)] else be);
               be = (if i + 1 < 32 then be[i + 1 := ucast (drop_bit 8 mantissa AND 0xff)] else be);
               be = (if i + 2 < 32 then be[i + 2 := ucast (mantissa AND 0xff)] else be)
           in be
         else be)
      in hex_encode L be)"

lemma compact_hex_is_text: "compact_to_target_hex L bits = hex_encode L (compact_to_target_be bits)"
  by (simp add: compact_to_target_hex_def compact_to_target_be_def Let_def)

lemma length_compact [simp, len_simps]: "length (compact_to_target_be bits) = 32"
  by (simp add: compact_to_target_be_def Let_def)

lemma unat_take_bit: "unat (take_bit n (w :: 'w::len word)) = unat w mod 2 ^ n"
  by (metis take_bit_eq_mod unsigned_take_bit_eq)

lemma unat_drop_bit_div: "unat (drop_bit n (w :: u32)) = unat w div 2 ^ n"
proof -
  have "unat (drop_bit n w) = drop_bit n (take_bit LENGTH(32) (unat w))"
    by (rule unsigned_drop_bit_eq)
  also have "take_bit LENGTH(32) (unat w) = unat w"
    using unat_width(2) [of w] by (simp add: take_bit_nat_eq_self)
  finally show ?thesis by (simp only: drop_bit_eq_div)
qed

lemma unat_and_255: "unat (ucast (w AND 0xff :: u32) :: u8) = unat w mod 256"
proof -
  have w: "w AND 0xff = take_bit 8 w" by (simp add: take_bit_eq_mask mask_eq_exp_minus_1)
  have "unat (ucast (take_bit 8 w) :: u8) = unat (take_bit 8 w) mod 2 ^ 8"
    unfolding unsigned_ucast_eq take_bit_eq_mod [where 'a = nat] by simp
  then show ?thesis unfolding w unat_take_bit by simp
qed

lemma update_three:
  assumes "i + 2 < (n::nat)"
  shows "(replicate n (z::'a))[i := a, i + 1 := b, i + 2 := c] =
    replicate i z @ [a, b, c] @ replicate (n - (i + 3)) z"
proof -
  obtain k where k: "n = i + (3 + k)" using assms by (metis add.assoc add_2_eq_Suc' le_Suc_ex
      Suc_leI eval_nat_numeral(3) add_Suc_right add_Suc)
  have "replicate n z = replicate i z @ [z, z, z] @ replicate k z"
    unfolding k replicate_add by (simp add: numeral_3_eq_3)
  then show ?thesis by (simp add: list_update_append k)
qed

lemma mantissa_bytes:
  assumes "m < 2 ^ 24"
  shows "m div 65536 mod 256 * 65536 + m div 256 mod 256 * 256 + m mod 256 = (m::nat)"
proof -
  define q where "q = m div 256"
  have "m div 65536 = q div 256" by (simp add: q_def flip: div_mult2_eq)
  moreover have "q div 256 < 256" using assms by (simp add: q_def less_mult_imp_div_less)
  moreover have "q div 256 * 65536 + q mod 256 * 256 = q * 256"
    using div_mult_mod_eq [of q 256] by linarith
  moreover have "q * 256 + m mod 256 = m" by (simp add: q_def)
  ultimately show ?thesis by (simp flip: q_def)
qed

text \<open>The value of the target: the mantissa at the exponent's place; 0 where the code gives up.\<close>

lemma compact_target_nat:
  "be_nat (compact_to_target_be bits) =
     (let exp = unat bits div 2 ^ 24; mantissa = unat (bits AND 0x007fffff) in
      if 3 \<le> exp \<and> exp \<le> 32 then mantissa * 256 ^ (exp - 3) else 0)"
proof -
  define m where "m = bits AND 0x007fffff"
  have m: "m = take_bit 23 bits" by (simp add: m_def take_bit_eq_mask mask_eq_exp_minus_1)
  have "unat m < 2 ^ 24" unfolding m unat_take_bit by (rule less_trans [of _ "2 ^ 23"]) simp_all
  then have val: "unat m div 65536 mod 256 * 65536 + unat m div 256 mod 256 * 256 + unat m mod 256 = unat m"
    by (rule mantissa_bytes)
  define e where "e = unat bits div 2 ^ 24"
  have "be_nat (compact_to_target_be bits) = unat m * 256 ^ (e - 3)" if "3 \<le> e" "e \<le> 32"
  proof -
    let ?b = "\<lambda>n. ucast (drop_bit n m AND 0xff) :: u8"
    have "compact_to_target_be bits = (replicate 32 0)[32 - e := ?b 16, 32 - e + 1 := ?b 8, 32 - e + 2 := ?b 0]"
      using that by (auto simp: compact_to_target_be_def Let_def unat_drop_bit_div e_def m_def)
    also have "\<dots> = replicate (32 - e) 0 @ [?b 16, ?b 8, ?b 0] @ replicate (e - 3) 0"
      using that by (subst update_three) auto
    finally have "be_nat (compact_to_target_be bits) =
        (unat m div 65536 mod 256 * 65536 + unat m div 256 mod 256 * 256 + unat m mod 256) * 256 ^ (e - 3)"
      by (simp add: be_nat_append be_nat_replicate_0 unat_and_255 unat_drop_bit_div
          distrib_right)
    then show ?thesis by (simp only: val)
  qed
  moreover have "be_nat (compact_to_target_be bits) = 0" if "\<not> (3 \<le> e \<and> e \<le> 32)"
    using that by (auto simp: compact_to_target_be_def Let_def unat_drop_bit_div e_def be_nat_replicate_0)
  ultimately show ?thesis unfolding Let_def m_def e_def by auto
qed

text \<open>
  C23: Expanding compact bits gives 32 bytes whose value is the 23-bit mantissa shifted to the place
  the exponent names, for exponents from 3 to 32, and 0 for every other exponent; the text form is
  the encoding of the same bytes.
\<close>

theorem compact_target_value:
  "length (compact_to_target_be bits) = 32 \<and>
   be_nat (compact_to_target_be bits) =
     (let exp = unat bits div 2 ^ 24; mantissa = unat (bits AND 0x007fffff) in
      if 3 \<le> exp \<and> exp \<le> 32 then mantissa * 256 ^ (exp - 3) else 0) \<and>
   compact_to_target_hex L bits = hex_encode L (compact_to_target_be bits)"
  using compact_target_nat compact_hex_is_text by simp

section \<open>The channel target from a declared hashrate\<close>

definition SHARE_INTERVAL_SECS :: f64 where "SHARE_INTERVAL_SECS = Fin 30"

text \<open>
  One pass of the long division over the 32 bytes; \<open>carry\<close> is the running remainder, a \<open>u128\<close>
  whose multiplication and addition are checked.
\<close>

fun divide_bytes :: "nat \<Rightarrow> nat \<Rightarrow> bytes \<Rightarrow> bytes outcome" where
  "divide_bytes difficulty carry [] = Inr []"
| "divide_bytes difficulty carry (b # bs) =
     (if 2 ^ 128 \<le> carry * 256 then Inl (Panic ''attempt to multiply with overflow'')
      else if 2 ^ 128 \<le> carry * 256 + unat b then Inl (Panic ''attempt to add with overflow'')
      else if difficulty = 0 then Inl (Panic ''attempt to divide by zero'')
      else
        let val = carry * 256 + unat b in
        and_then (divide_bytes difficulty (val mod difficulty) bs) (\<lambda>qs.
          Inr (of_nat (val div difficulty) # qs)))"

definition share_difficulty :: "f64 \<Rightarrow> nat" where
  "share_difficulty hashrate_hps =
     (let expected_hashes = f64_mul hashrate_hps SHARE_INTERVAL_SECS
      in f64_to_u128 (f64_maximum (f64_div expected_hashes (f64_of_nat (2 ^ 32))) (Fin 1)))"

definition hashrate_to_target_be :: "f64 \<Rightarrow> bytes outcome" where
  "hashrate_to_target_be hashrate_hps =
     (let difficulty = share_difficulty hashrate_hps;
          target = (replicate 32 0)[4 := 0xff, 5 := 0xff]
      in divide_bytes difficulty 0 target)"

text \<open>A \<open>U256\<close> takes exactly 32 bytes.\<close>

definition target_be_to_sv2 :: "bytes \<Rightarrow> bytes outcome" where
  "target_be_to_sv2 target_be =
     (let le = rev target_be in
      if length le = 32 then Inr le else Inl (Bail ''target_be_to_sv2''))"

lemma regroup: "(q * d + r) * p + x = (r * p + x) + (q * p) * (d::nat)"
  by (simp add: algebra_simps)

text \<open>The division is exact, for every divisor that leaves the running remainder room.\<close>

lemma divide_bytes_correct:
  assumes "0 < d" and "d \<le> 2 ^ 120" and "carry < d"
  shows "\<exists>qs. divide_bytes d carry bs = Inr qs \<and> length qs = length bs \<and>
    be_nat qs = (carry * 256 ^ length bs + be_nat bs) div d"
  using assms(3)
proof (induction bs arbitrary: carry)
  case Nil
  then show ?case by simp
next
  case (Cons b bs)
  define val where "val = carry * 256 + unat b"
  have b: "unat b < 256" by simp
  have "val < d * 256" using Cons.prems b unfolding val_def by linarith
  then have val: "val < 2 ^ 128" and byte: "val div d < 256"
    using assms(2) by (simp_all add: less_mult_imp_div_less mult.commute)
  have "val mod d < d" using assms(1) by simp
  from Cons.IH [OF this] obtain qs where qs: "divide_bytes d (val mod d) bs = Inr qs" "length qs = length bs"
    "be_nat qs = (val mod d * 256 ^ length bs + be_nat bs) div d" by blast
  have "carry * 256 + unat b < 2 ^ 128" using val by (simp add: val_def)
  then have "divide_bytes d carry (b # bs) = Inr (of_nat (val div d) # qs)"
    using assms(1) qs(1) by (simp add: val_def Let_def not_le)
  moreover have "be_nat (of_nat (val div d) # qs) = (carry * 256 ^ length (b # bs) + be_nat (b # bs)) div d"
  proof -
    have "carry * 256 ^ length (b # bs) + be_nat (b # bs) = val * 256 ^ length bs + be_nat bs"
      by (simp add: val_def algebra_simps)
    also have "\<dots> = (val mod d * 256 ^ length bs + be_nat bs) + (val div d * 256 ^ length bs) * d"
      using regroup [of "val div d" d "val mod d"] by (simp only: div_mult_mod_eq)
    also have "\<dots> div d = be_nat qs + val div d * 256 ^ length bs"
      using assms(1) qs(3) by simp
    finally show ?thesis using byte qs(2) by (simp add: unat_of_nat)
  qed
  ultimately show ?case using qs(2) by auto
qed

text \<open>The reference target of difficulty 1.\<close>

definition pdiff1 :: nat where "pdiff1 = 0xffff * 2 ^ 208"

lemma pdiff1_array:
  "(replicate 32 (0::u8))[4 := 0xff, 5 := 0xff] =
    [0, 0, 0, 0, 0xff, 0xff, 0, 0, 0, 0, 0, 0, 0, 0, 0, 0, 0, 0, 0, 0, 0, 0, 0, 0, 0, 0, 0, 0, 0, 0, 0, 0]"
  by code_simp

lemma pdiff1_bytes: "be_nat ((replicate 32 0)[4 := 0xff, 5 := 0xff]) = pdiff1"
proof -
  have "(replicate 32 (0::u8))[4 := 0xff, 5 := 0xff] = replicate 4 0 @ [0xff, 0xff] @ replicate 26 0"
    by code_simp
  then show ?thesis by (simp add: be_nat_append be_nat_replicate_0 pdiff1_def)
qed

text \<open>
  The hashrate arrives as an \<open>f32\<close>, whose finite values lie strictly between \<open>- 2 ^ 128\<close> and
  \<open>2 ^ 128\<close>; widening it to \<open>f64\<close> is exact.
\<close>

definition finite_f32 :: "f64 \<Rightarrow> bool" where
  "finite_f32 h \<longleftrightarrow> (\<exists>r. h = Fin r \<and> \<bar>r\<bar> < 2 ^ 128)"

definition hash_unit :: "rat \<Rightarrow> f64" where
  "hash_unit r = f64_div (f64_mul (Fin r) SHARE_INTERVAL_SECS) (f64_of_nat (2 ^ 32))"

lemma two_32_exact: "f64_of_nat 4294967296 = Fin 4294967296"
  using f64_of_nat_exact [of 4294967296] by simp

lemma hash_unit_nonneg:
  assumes "0 \<le> r" and "r < 2 ^ 128"
  obtains b where "hash_unit r = Fin b" "0 \<le> b" "b \<le> 2 ^ 101"
proof -
  have "r * 30 \<le> 2 ^ 133" using assms(2) by simp
  then obtain a where a: "f64_of_rat (r * 30) = Fin a" "0 \<le> a" "a \<le> 2 ^ 133"
    using assms(1) f64_of_rat_bounded [of "r * 30" 133] by auto
  then have "0 \<le> a / 2 ^ 32" "a / 2 ^ 32 \<le> 2 ^ 101" by simp_all
  then obtain b where "f64_of_rat (a / 2 ^ 32) = Fin b" "0 \<le> b" "b \<le> 2 ^ 101"
    using f64_of_rat_bounded [of "a / 2 ^ 32" 101] by auto
  with a show thesis
    by (intro that [of b]) (simp_all add: hash_unit_def SHARE_INTERVAL_SECS_def two_32_exact)
qed

lemma f64_of_rat_neg:
  assumes "x < 0" and "- x \<le> 2 ^ n" and "n < 1024"
  obtains r where "f64_of_rat x = Fin (- r)" "0 \<le> r" "r \<le> 2 ^ n"
proof -
  obtain r where "f64_of_rat (- x) = Fin r" "0 \<le> r" "r \<le> 2 ^ n"
    using f64_of_rat_bounded [of "- x" n] assms by auto
  with assms(1) show thesis
    by (intro that [of r]) (auto simp: f64_of_rat_def Let_def split: if_splits)
qed

lemma hash_unit_neg:
  assumes "r < 0" and "- r < 2 ^ 128"
  obtains b where "hash_unit r = Fin b" "b \<le> 0"
proof -
  obtain a where a: "f64_of_rat (r * 30) = Fin (- a)" "0 \<le> a" "a \<le> 2 ^ 133"
    using f64_of_rat_neg [of "r * 30" 133] assms by auto
  have "\<exists>b \<le> 0. f64_of_rat (- a / 2 ^ 32) = Fin b"
  proof (cases "a = 0")
    case True
    then show ?thesis by (simp add: f64_of_rat_def)
  next
    case False
    with a obtain c where "f64_of_rat (- a / 2 ^ 32) = Fin (- c)" "0 \<le> c"
      using f64_of_rat_neg [of "- a / 2 ^ 32" 101] by auto
    then show ?thesis by auto
  qed
  with a show thesis
    by (auto intro: that simp: hash_unit_def SHARE_INTERVAL_SECS_def two_32_exact)
qed

lemma share_difficulty_unit: "share_difficulty (Fin r) = f64_to_u128 (f64_maximum (hash_unit r) (Fin 1))"
  by (simp add: share_difficulty_def hash_unit_def Let_def)

lemma share_difficulty_bounds:
  assumes "finite_f32 h"
  shows "1 \<le> share_difficulty h" and "share_difficulty h \<le> 2 ^ 101"
proof -
  obtain r where r: "h = Fin r" "\<bar>r\<bar> < 2 ^ 128" using assms by (auto simp: finite_f32_def)
  have "\<exists>b. hash_unit r = Fin b \<and> b \<le> 2 ^ 101"
  proof (cases "0 \<le> r")
    case True
    with r show ?thesis by (auto elim: hash_unit_nonneg)
  next
    case False
    then have "r < 0" "- r < 2 ^ 128" using r(2) by simp_all
    then obtain b where "hash_unit r = Fin b" "b \<le> 0" by (rule hash_unit_neg)
    then show ?thesis by (intro exI [of _ b]) simp
  qed
  then obtain b where b: "hash_unit r = Fin b" "b \<le> 2 ^ 101" by blast
  have lo: "1 \<le> \<lfloor>max b 1\<rfloor>" by (simp add: le_floor_iff)
  have "max b 1 \<le> of_int (2 ^ 101)" using b(2) by simp
  then have "\<lfloor>max b 1\<rfloor> \<le> 2 ^ 101" by linarith
  then have hi: "nat \<lfloor>max b 1\<rfloor> \<le> 2 ^ 101" by (simp add: nat_le_iff)
  show "1 \<le> share_difficulty h"
    using lo by (simp add: r(1) share_difficulty_unit b(1) le_nat_iff)
  show "share_difficulty h \<le> 2 ^ 101"
    using hi by (simp add: r(1) share_difficulty_unit b(1) min.coboundedI1)
qed

lemma share_difficulty_mono:
  assumes "0 \<le> r" and "r \<le> s" and "s < 2 ^ 128"
  shows "share_difficulty (Fin r) \<le> share_difficulty (Fin s)"
proof -
  obtain a where a: "hash_unit r = Fin a" using assms hash_unit_nonneg [of r] by auto
  obtain b where b: "hash_unit s = Fin b" using assms hash_unit_nonneg [of s] by auto
  have "\<exists>x y. f64_of_rat (r * 30) = Fin x \<and> f64_of_rat (s * 30) = Fin y \<and> 0 \<le> x \<and> x \<le> y"
  proof -
    obtain x where "f64_of_rat (r * 30) = Fin x" "0 \<le> x"
      using assms f64_of_rat_bounded [of "r * 30" 133] by auto
    moreover obtain y where "f64_of_rat (s * 30) = Fin y"
      using assms f64_of_rat_bounded [of "s * 30" 133] by auto
    ultimately show ?thesis using f64_of_rat_mono [of "r * 30" "s * 30"] assms by auto
  qed
  then obtain x y where xy: "f64_of_rat (r * 30) = Fin x" "f64_of_rat (s * 30) = Fin y" "0 \<le> x" "x \<le> y"
    by blast
  then have "f64_le (f64_of_rat (x / 2 ^ 32)) (f64_of_rat (y / 2 ^ 32))"
    by (intro f64_of_rat_mono) simp_all
  with a b xy have "a \<le> b"
    by (simp add: hash_unit_def SHARE_INTERVAL_SECS_def two_32_exact)
  then have "nat \<lfloor>max a 1\<rfloor> \<le> nat \<lfloor>max b 1\<rfloor>" by (intro nat_mono floor_mono) simp
  then show ?thesis by (simp add: share_difficulty_unit a b min.coboundedI1)
qed

lemma hashrate_to_target_finite:
  assumes "finite_f32 h"
  shows "\<exists>t. hashrate_to_target_be h = Inr t \<and> length t = 32 \<and>
    be_nat t = pdiff1 div share_difficulty h \<and> 0 < be_nat t"
proof -
  let ?d = "share_difficulty h"
  have d: "1 \<le> ?d" "?d \<le> 2 ^ 101" using assms by (rule share_difficulty_bounds)+
  then have "0 < ?d" "?d \<le> 2 ^ 120" by simp_all
  then obtain t where "divide_bytes ?d 0 ((replicate 32 0)[4 := 0xff, 5 := 0xff]) = Inr t"
    "length t = 32" "be_nat t = pdiff1 div ?d"
    using divide_bytes_correct [of ?d 0 "(replicate 32 0)[4 := 0xff, 5 := 0xff]"]
    by (auto simp: pdiff1_bytes)
  moreover have "?d \<le> pdiff1" using d(2) by (simp add: pdiff1_def)
  then have "0 < pdiff1 div ?d" using d(1) by (simp add: div_greater_zero_iff)
  ultimately show ?thesis by (auto simp: hashrate_to_target_be_def Let_def)
qed

text \<open>As byte arrays, the targets are ordered against the hashrates.\<close>

lemma hashrate_target_antimono:
  assumes "0 \<le> r" and "r \<le> s" and "s < 2 ^ 128"
    and "hashrate_to_target_be (Fin r) = Inr t" and "hashrate_to_target_be (Fin s) = Inr u"
  shows "u \<le> t"
proof -
  have "finite_f32 (Fin r)" "finite_f32 (Fin s)" using assms by (simp_all add: finite_f32_def)
  then have t: "length t = 32" "be_nat t = pdiff1 div share_difficulty (Fin r)"
    and u: "length u = 32" "be_nat u = pdiff1 div share_difficulty (Fin s)"
    and "1 \<le> share_difficulty (Fin r)"
    using assms(4,5) hashrate_to_target_finite share_difficulty_bounds(1) by fastforce+
  moreover have "share_difficulty (Fin r) \<le> share_difficulty (Fin s)"
    using assms(1-3) by (rule share_difficulty_mono)
  ultimately have "be_nat u \<le> be_nat t" by (simp add: div_le_mono2)
  moreover have "length u = length t" using t(1) u(1) by simp
  ultimately show ?thesis by (simp only: be_nat_le_iff)
qed

text \<open>
  C22: For every finite declared hashrate the channel target is a 32-byte array whose value is the
  difficulty-1 target divided by the share difficulty, exactly as the long division intends: no
  byte is truncated, no intermediate product overflows, and the target is never zero. A faster miner
  never gets an easier target: for a larger hashrate the target is, as the byte array the handler
  compares, at most the same.
\<close>

theorem hashrate_target_value:
  assumes "finite_f32 h"
  shows "\<exists>t. hashrate_to_target_be h = Inr t \<and> length t = 32 \<and>
    be_nat t = pdiff1 div share_difficulty h \<and> 0 < be_nat t \<and>
    (\<forall>r s u. h = Fin r \<and> 0 \<le> r \<and> r \<le> s \<and> s < 2 ^ 128 \<and> hashrate_to_target_be (Fin s) = Inr u \<longrightarrow> u \<le> t)"
proof -
  obtain t where t: "hashrate_to_target_be h = Inr t" "length t = 32"
    "be_nat t = pdiff1 div share_difficulty h" "0 < be_nat t"
    using hashrate_to_target_finite [OF assms] by blast
  have "u \<le> t" if "h = Fin r \<and> 0 \<le> r \<and> r \<le> s \<and> s < 2 ^ 128 \<and> hashrate_to_target_be (Fin s) = Inr u" for r s u
    by (rule hashrate_target_antimono [of r s]) (use that t(1) in simp_all)
  with t show ?thesis by blast
qed

theorem hashrate_target_value_witness:
  "\<exists>t u. hashrate_to_target_be (Fin 1000) = Inr t \<and> length t = 32 \<and>
    be_nat t = pdiff1 div share_difficulty (Fin 1000) \<and> 0 < be_nat t \<and>
    hashrate_to_target_be (Fin 1000000000000) = Inr u \<and> u \<le> t"
proof -
  have "finite_f32 (Fin 1000)" by (simp add: finite_f32_def)
  from hashrate_target_value [OF this] obtain t where t: "hashrate_to_target_be (Fin 1000) = Inr t"
    "length t = 32" "be_nat t = pdiff1 div share_difficulty (Fin 1000)" "0 < be_nat t"
    and faster: "\<forall>r s u. Fin 1000 = Fin r \<and> 0 \<le> r \<and> r \<le> s \<and> s < 2 ^ 128 \<and>
      hashrate_to_target_be (Fin s) = Inr u \<longrightarrow> u \<le> t" by blast
  obtain u where u: "hashrate_to_target_be (Fin 1000000000000) = Inr u"
    using hashrate_to_target_finite [of "Fin 1000000000000"] by (auto simp: finite_f32_def)
  have "u \<le> t" using faster [THEN spec, of 1000, THEN spec, of 1000000000000] u by simp
  with t u show ?thesis by blast
qed

text \<open>
  C37: The declared hashrate comes from the wire unchecked, and an infinite one is the only value of
  an \<open>f32\<close> that makes the function fail: the difficulty saturates to the largest \<open>u128\<close>, and the
  running remainder times 256 overflows, a panic under the development profile's checks.
\<close>

theorem hashrate_target_panics_iff:
  assumes "finite_f32 h \<or> h = NaN \<or> (\<exists>s. h = Inf s)"
  shows "(\<exists>e. hashrate_to_target_be h = Inl e) \<longleftrightarrow> h = Inf False"
proof -
  have one: "\<exists>t. divide_bytes 1 0 ((replicate 32 0)[4 := 0xff, 5 := 0xff]) = Inr t"
    using divide_bytes_correct [of 1 0] by auto
  have "share_difficulty NaN = 1" "share_difficulty (Inf True) = 1"
    and top: "share_difficulty (Inf False) = 2 ^ 128 - 1"
    by (simp_all add: share_difficulty_def SHARE_INTERVAL_SECS_def two_32_exact Let_def)
  with one have "\<exists>t. hashrate_to_target_be NaN = Inr t" "\<exists>t. hashrate_to_target_be (Inf True) = Inr t"
    by (simp_all add: hashrate_to_target_be_def)
  moreover have "hashrate_to_target_be (Inf False) = Inl (Panic ''attempt to multiply with overflow'')"
    unfolding hashrate_to_target_be_def Let_def top pdiff1_array by simp
  moreover have "\<exists>t. hashrate_to_target_be h = Inr t" if "finite_f32 h"
    using hashrate_to_target_finite [OF that] by blast
  moreover have "\<not> finite_f32 (Inf False)" by (simp add: finite_f32_def)
  ultimately show ?thesis using assms by (metis (full_types) Inl_Inr_False)
qed

theorem hashrate_target_panics_iff_witness:
  "(\<exists>e. hashrate_to_target_be (Inf False) = Inl e) \<longleftrightarrow> Inf False = Inf False"
  by (rule hashrate_target_panics_iff) blast

section \<open>The difficulty of a hash\<close>

definition PDIFF1_UPPER :: f64 where "PDIFF1_UPPER = f64_of_nat 0x00000000FFFF0000"

definition hash_to_difficulty :: "bytes \<Rightarrow> f64" where
  "hash_to_difficulty hash_be =
     (let hash_upper = be_nat (take 8 hash_be) in
      if hash_upper = 0 then F64_MAX
      else f64_div PDIFF1_UPPER (f64_of_nat hash_upper))"

lemma PDIFF1_UPPER_value: "PDIFF1_UPPER = Fin 4294901760"
  using f64_of_nat_exact [of 4294901760] by (simp add: PDIFF1_UPPER_def)

lemma f64_of_u64:
  assumes "0 < n" and "n < 2 ^ 64"
  obtains r where "f64_of_nat n = Fin r" "1 \<le> r"
proof -
  have "(of_nat n :: rat) < of_nat (2 ^ 64)" using assms(2) by (simp only: of_nat_less_iff)
  then obtain r where r: "f64_of_nat n = Fin r"
    using f64_of_rat_bounded [of "of_nat n" 64] by (auto simp: f64_of_nat_def)
  have "f64_le (f64_of_rat 1) (f64_of_rat (of_nat n))" using assms(1) by (intro f64_of_rat_mono) simp_all
  moreover have "f64_of_rat 1 = Fin 1" using f64_of_nat_exact [of 1] by (simp add: f64_of_nat_def)
  ultimately have "1 \<le> r" using r by (simp add: f64_of_nat_def)
  with r show thesis by (rule that)
qed

lemma f64_of_nat_mono: "m \<le> n \<Longrightarrow> f64_le (f64_of_nat m) (f64_of_nat n)"
  unfolding f64_of_nat_def by (rule f64_of_rat_mono) simp_all

definition difficulty_of_upper :: "nat \<Rightarrow> f64" where
  "difficulty_of_upper u = (if u = 0 then F64_MAX else f64_div PDIFF1_UPPER (f64_of_nat u))"

lemma difficulty_of_upper_antimono:
  assumes "a \<le> b" and "b < 2 ^ 64"
  shows "f64_le (difficulty_of_upper b) (difficulty_of_upper a)"
proof (cases "b = 0")
  case True
  with assms show ?thesis by (simp add: difficulty_of_upper_def F64_MAX_def)
next
  case False
  then obtain y where y: "f64_of_nat b = Fin y" "1 \<le> y" using f64_of_u64 [of b] assms(2) by auto
  have small: "4294901760 / y \<le> 2 ^ 32"
  proof -
    have "4294901760 / y \<le> 4294901760 / 1" using y(2) by (intro divide_left_mono) simp_all
    then show ?thesis by simp
  qed
  show ?thesis
  proof (cases "a = 0")
    case True
    obtain q where "f64_of_rat (4294901760 / y) = Fin q" "q \<le> 2 ^ 32"
      using f64_of_rat_bounded [of "4294901760 / y" 32] small y(2) by auto
    moreover have "(2::rat) ^ 32 \<le> (2 ^ 53 - 1) * 2 ^ 971" by simp
    ultimately have "f64_le (f64_of_rat (4294901760 / y)) F64_MAX" by (simp add: F64_MAX_def del: power_numeral)
    with True False y show ?thesis by (simp add: difficulty_of_upper_def PDIFF1_UPPER_value)
  next
    case a: False
    then obtain x where x: "f64_of_nat a = Fin x" "1 \<le> x" using f64_of_u64 [of a] assms by auto
    have "x \<le> y" using f64_of_nat_mono [OF assms(1)] by (simp add: x y)
    then have "4294901760 / y \<le> 4294901760 / x" using x(2) by (intro divide_left_mono) simp_all
    then have "f64_le (f64_of_rat (4294901760 / y)) (f64_of_rat (4294901760 / x))"
      using y(2) by (intro f64_of_rat_mono) simp_all
    with a False x y show ?thesis by (simp add: difficulty_of_upper_def PDIFF1_UPPER_value)
  qed
qed

text \<open>
  A smaller block hash (a better share) never has a smaller difficulty: on 32-byte hashes the
  difficulty is antitone in the order of the arrays, the rounding of the division, the rounding of
  the integer and the special value for eight leading zero bytes included.
\<close>

lemma hash_to_difficulty_antimono:
  assumes "length h = 32" and "length k = 32" and "h \<le> k"
  shows "f64_le (hash_to_difficulty k) (hash_to_difficulty h)"
proof -
  have upper: "be_nat (take 8 x) = be_nat x div 256 ^ 24" if "length x = 32" for x
  proof -
    have "be_nat x = be_nat (take 8 x) * 256 ^ 24 + be_nat (drop 8 x)"
      using be_nat_append [of "take 8 x" "drop 8 x"] that by simp
    moreover have "be_nat (drop 8 x) < 256 ^ 24" using be_nat_less [of "drop 8 x"] that by simp
    ultimately show ?thesis by simp
  qed
  have "be_nat h \<le> be_nat k" using assms by (simp add: be_nat_le_iff)
  then have "be_nat (take 8 h) \<le> be_nat (take 8 k)" unfolding upper [OF assms(1)] upper [OF assms(2)]
    by (rule div_le_mono)
  moreover have "be_nat (take 8 k) < 2 ^ 64" using be_nat_less [of "take 8 k"] assms(2) by simp
  ultimately have "f64_le (difficulty_of_upper (be_nat (take 8 k))) (difficulty_of_upper (be_nat (take 8 h)))"
    by (rule difficulty_of_upper_antimono)
  then show ?thesis by (simp only: hash_to_difficulty_def difficulty_of_upper_def Let_def)
qed

lemma hash_to_difficulty_example:
  "f64_le (hash_to_difficulty (replicate 32 255)) (hash_to_difficulty (replicate 32 0))"
  by (rule hash_to_difficulty_antimono) (simp_all flip: be_nat_le_iff add: be_nat_replicate_0)

end
