(* ===== verification/Database.thy ===== *)
theory Database
  imports Difficulty "HOL-Library.AList"
begin

text \<open>
  The tables of the persistence layer and the statements on them, from \<open>pool/src/db.rs\<close>: the
  events, the four tables that the pool writes, and the transaction of a
  flush. SQLite itself is not part of the repository; the statements the source sends are
  defined here with the documented meaning of SQL: \<open>INSERT OR IGNORE\<close>, upserts, a transaction that
  is rolled back when a statement fails.
\<close>

section \<open>Events\<close>

record share_event =
  se_miner_address :: string
  se_difficulty :: f64
  se_block_hash_be :: bytes
  se_timestamp :: int

datatype db_event =
    Share share_event
  | Miner_Connected (mc_address: string) (mc_timestamp: int)

text \<open>
  The system clock: the whole seconds since the epoch, \<open>None\<close> for a clock before it; the cast to \<open>i64\<close>
  keeps the bits.
\<close>

definition now_secs :: "nat option \<Rightarrow> int" where
  "now_secs clock = (case clock of None \<Rightarrow> 0 | Some secs \<Rightarrow> sint (of_nat secs :: 64 word))"

section \<open>Tables\<close>

text \<open>
  The rows of \<open>shares\<close> in the order of their automatic ids; \<open>minute_hashrates\<close> as an association
  list on its primary key. \<open>competition_entries\<close> is created by the source and never used.
\<close>

record epoch_row =
  ep_shares_count :: int
  ep_active_minutes :: int
  ep_total_difficulty :: f64
  ep_best_share_hash :: "bytes option"

record database =
  miners :: "string \<rightharpoonup> int"
  shares :: "share_event list"
  epoch_stats :: "string \<rightharpoonup> epoch_row"
  minute_hashrates :: "((string \<times> int) \<times> f64) list"

definition empty_database :: database where
  "empty_database = \<lparr>miners = Map.empty, shares = [], epoch_stats = Map.empty, minute_hashrates = []\<rparr>"

definition insert_or_ignore_miner :: "string \<Rightarrow> int \<Rightarrow> database \<Rightarrow> database" where
  "insert_or_ignore_miner address ts db =
     (case miners db address of
        None \<Rightarrow> db\<lparr>miners := (miners db)(address \<mapsto> ts)\<rparr>
      | Some _ \<Rightarrow> db)"

definition insert_share :: "share_event \<Rightarrow> database \<Rightarrow> database" where
  "insert_share share db = db\<lparr>shares := shares db @ [share]\<rparr>"

text \<open>The upsert of a share into \<open>epoch_stats\<close>; blobs compare with \<open>memcmp\<close>, the order of lists.\<close>

definition upsert_epoch_share :: "share_event \<Rightarrow> database \<Rightarrow> database" where
  "upsert_epoch_share share db =
     db\<lparr>epoch_stats := (epoch_stats db)(se_miner_address share \<mapsto>
       (case epoch_stats db (se_miner_address share) of
          None \<Rightarrow> \<lparr>ep_shares_count = 1, ep_active_minutes = 0,
                  ep_total_difficulty = se_difficulty share,
                  ep_best_share_hash = Some (se_block_hash_be share)\<rparr>
        | Some r \<Rightarrow> r\<lparr>ep_shares_count := ep_shares_count r + 1,
            ep_total_difficulty := f64_add (ep_total_difficulty r) (se_difficulty share),
            ep_best_share_hash := Some
              (case ep_best_share_hash r of
                 None \<Rightarrow> se_block_hash_be share
               | Some best \<Rightarrow> if se_block_hash_be share < best then se_block_hash_be share else best)\<rparr>))\<rparr>"

definition upsert_minute :: "string \<Rightarrow> int \<Rightarrow> f64 \<Rightarrow> database \<Rightarrow> database" where
  "upsert_minute address minute_ts diff_sum db =
     db\<lparr>minute_hashrates :=
       AList.map_default (address, minute_ts) diff_sum (\<lambda>old. f64_add old diff_sum) (minute_hashrates db)\<rparr>"

definition upsert_active_minute :: "string \<Rightarrow> database \<Rightarrow> database" where
  "upsert_active_minute address db =
     db\<lparr>epoch_stats := (epoch_stats db)(address \<mapsto>
       (case epoch_stats db address of
          None \<Rightarrow> \<lparr>ep_shares_count = 0, ep_active_minutes = 1, ep_total_difficulty = Fin 0,
                  ep_best_share_hash = None\<rparr>
        | Some r \<Rightarrow> r\<lparr>ep_active_minutes := ep_active_minutes r + 1\<rparr>))\<rparr>"

definition prune_minutes :: "int \<Rightarrow> database \<Rightarrow> database" where
  "prune_minutes cutoff db =
     db\<lparr>minute_hashrates := filter (\<lambda>((address, minute_ts), d). \<not> minute_ts < cutoff) (minute_hashrates db)\<rparr>"

section \<open>The transaction of a flush\<close>

text \<open>
  A statement may fail: \<open>tx_faults\<close> says of each coming one whether it does. A failure ends the
  function with an error, and the transaction, dropped without a commit, is rolled back: the caller
  keeps the database it had.
\<close>

record transaction_state =
  tx_db :: database
  tx_faults :: "bool list"

definition execute :: "(database \<Rightarrow> database) \<Rightarrow> transaction_state \<Rightarrow> transaction_state outcome" where
  "execute stmt t =
     (case tx_faults t of
        True # _ \<Rightarrow> Inl (Bail ''statement failed'')
      | _ \<Rightarrow> Inr \<lparr>tx_db = stmt (tx_db t), tx_faults = tl (tx_faults t)\<rparr>)"

fun for_each :: "('a \<Rightarrow> 't \<Rightarrow> 't outcome) \<Rightarrow> 'a list \<Rightarrow> 't \<Rightarrow> 't outcome" where
  "for_each f [] t = Inr t"
| "for_each f (x # xs) t = and_then (f x t) (for_each f xs)"

definition MINUTE_RETENTION_SECS :: int where "MINUTE_RETENTION_SECS = 24 * 3600"

text \<open>
  \<open>windows\<close> is the hash map of the difficulties of the minute, \<open>keys\<close> the order in which the
  library iterates over it.
\<close>

definition flush_inner ::
    "bool list \<Rightarrow> share_event list \<Rightarrow> (string \<times> int) list \<Rightarrow> (string \<rightharpoonup> f64) \<Rightarrow> string list \<Rightarrow> int \<Rightarrow>
     database \<Rightarrow> database outcome" where
  "flush_inner faults new_shares new_miners windows keys minute_ts db =
     and_then (execute id \<lparr>tx_db = db, tx_faults = faults\<rparr>) (\<lambda>t.
     and_then (for_each (\<lambda>(address, ts). execute (insert_or_ignore_miner address ts)) new_miners t) (\<lambda>t.
     and_then (for_each (\<lambda>share t.
         and_then (execute (insert_share share) t) (execute (upsert_epoch_share share))) new_shares t) (\<lambda>t.
     and_then (for_each (\<lambda>address t.
         and_then (execute (upsert_minute address minute_ts (the (windows address))) t)
           (execute (upsert_active_minute address))) keys t) (\<lambda>t.
     and_then (execute (prune_minutes (minute_ts - MINUTE_RETENTION_SECS)) t) (\<lambda>t.
     and_then (execute id t) (\<lambda>t. Inr (tx_db t)))))))"

section \<open>What a successful flush writes\<close>

text \<open>When no statement fails, the statements are applied one after the other.\<close>

definition flushed ::
    "share_event list \<Rightarrow> (string \<times> int) list \<Rightarrow> (string \<rightharpoonup> f64) \<Rightarrow> string list \<Rightarrow> int \<Rightarrow> database \<Rightarrow> database" where
  "flushed new_shares new_miners windows keys minute_ts db =
     prune_minutes (minute_ts - MINUTE_RETENTION_SECS)
       (fold (\<lambda>a d. upsert_active_minute a (upsert_minute a minute_ts (the (windows a)) d)) keys
         (fold (\<lambda>s d. upsert_epoch_share s (insert_share s d)) new_shares
           (fold (\<lambda>(a, ts). insert_or_ignore_miner a ts) new_miners db)))"

lemma execute_Inr: "execute stmt t = Inr t' \<Longrightarrow> tx_db t' = stmt (tx_db t)"
  by (auto simp: execute_def split: list.splits bool.splits)

lemma for_each_Inr:
  assumes "\<And>x t t'. f x t = Inr t' \<Longrightarrow> tx_db t' = g x (tx_db t)"
  shows "for_each f xs t = Inr t' \<Longrightarrow> tx_db t' = fold g xs (tx_db t)"
  by (induction xs arbitrary: t) (auto dest: assms)

lemma flush_inner_Inr:
  assumes "flush_inner faults new_shares new_miners windows keys minute_ts db = Inr db'"
  shows "db' = flushed new_shares new_miners windows keys minute_ts db"
proof -
  obtain t1 t2 t3 t4 t5 t6 where
    "execute id \<lparr>tx_db = db, tx_faults = faults\<rparr> = Inr t1"
    "for_each (\<lambda>(address, ts). execute (insert_or_ignore_miner address ts)) new_miners t1 = Inr t2"
    "for_each (\<lambda>share t. and_then (execute (insert_share share) t) (execute (upsert_epoch_share share)))
      new_shares t2 = Inr t3"
    "for_each (\<lambda>address t. and_then (execute (upsert_minute address minute_ts (the (windows address))) t)
      (execute (upsert_active_minute address))) keys t3 = Inr t4"
    "execute (prune_minutes (minute_ts - MINUTE_RETENTION_SECS)) t4 = Inr t5"
    "execute id t5 = Inr t6" "db' = tx_db t6"
    using assms unfolding flush_inner_def by auto
  note steps = this
  have "tx_db t2 = fold (\<lambda>(a, ts). insert_or_ignore_miner a ts) new_miners (tx_db t1)"
    by (rule for_each_Inr [OF _ steps(2)]) (auto dest: execute_Inr)
  moreover have "tx_db t3 = fold (\<lambda>s d. upsert_epoch_share s (insert_share s d)) new_shares (tx_db t2)"
    by (rule for_each_Inr [OF _ steps(3)]) (auto dest!: execute_Inr)
  moreover have "tx_db t4 =
      fold (\<lambda>a d. upsert_active_minute a (upsert_minute a minute_ts (the (windows a)) d)) keys (tx_db t3)"
    by (rule for_each_Inr [OF _ steps(4)]) (auto dest!: execute_Inr)
  ultimately show ?thesis
    using steps(1,5,6) [THEN execute_Inr] steps(7) by (simp add: flushed_def)
qed

text \<open>Without a fault there is no failure.\<close>

lemma execute_total: "list_all Not (tx_faults t) \<Longrightarrow> \<exists>t'. execute stmt t = Inr t' \<and> list_all Not (tx_faults t')"
  by (cases "tx_faults t") (auto simp: execute_def split: bool.splits)

section \<open>The statistics agree with the rows\<close>

definition rows_of :: "string \<Rightarrow> share_event list \<Rightarrow> share_event list" where
  "rows_of a rows = filter (\<lambda>s. se_miner_address s = a) rows"

fun difficulty_sum :: "f64 list \<Rightarrow> f64" where
  "difficulty_sum [] = Fin 0"
| "difficulty_sum (d # ds) = foldl f64_add d ds"

definition best_hash :: "share_event list \<Rightarrow> bytes \<Rightarrow> bool" where
  "best_hash rows b \<longleftrightarrow> (\<exists>s \<in> set rows. b = se_block_hash_be s) \<and>
     (\<forall>s \<in> set rows. be_nat b \<le> be_nat (se_block_hash_be s))"

definition epoch_row_ok :: "share_event list \<Rightarrow> epoch_row \<Rightarrow> bool" where
  "epoch_row_ok rows r \<longleftrightarrow> rows \<noteq> [] \<and> ep_shares_count r = int (length rows) \<and>
     ep_total_difficulty r = difficulty_sum (map se_difficulty rows) \<and>
     (\<exists>b. ep_best_share_hash r = Some b \<and> best_hash rows b)"

definition stats_ok :: "share_event list \<Rightarrow> (string \<rightharpoonup> epoch_row) \<Rightarrow> string \<Rightarrow> bool" where
  "stats_ok rows stats a \<longleftrightarrow>
     (case stats a of None \<Rightarrow> rows_of a rows = [] | Some r \<Rightarrow> epoch_row_ok (rows_of a rows) r)"

definition db_ok :: "database \<Rightarrow> bool" where
  "db_ok db \<longleftrightarrow> (\<forall>s \<in> set (shares db). length (se_block_hash_be s) = 32) \<and>
     (\<forall>a. stats_ok (shares db) (epoch_stats db) a)"

lemma rows_of_simps [simp]:
  "rows_of a [] = []"
  "rows_of a (xs @ ys) = rows_of a xs @ rows_of a ys"
  "rows_of a [s] = (if se_miner_address s = a then [s] else [])"
  by (simp_all add: rows_of_def)

lemma difficulty_sum_snoc: "ds \<noteq> [] \<Longrightarrow> difficulty_sum (ds @ [d]) = f64_add (difficulty_sum ds) d"
  by (cases ds) auto

lemma best_hash_snoc:
  assumes "best_hash rows b" and "length b = length (se_block_hash_be s)"
  shows "best_hash (rows @ [s]) (if se_block_hash_be s < b then se_block_hash_be s else b)"
  using assms array_view.view_less [of "se_block_hash_be s" b] by (fastforce simp: best_hash_def)

lemma epoch_row_snoc:
  assumes "epoch_row_ok rows r" and "\<forall>x \<in> set (rows @ [s]). length (se_block_hash_be x) = 32"
  shows "epoch_row_ok (rows @ [s]) (r\<lparr>ep_shares_count := ep_shares_count r + 1,
    ep_total_difficulty := f64_add (ep_total_difficulty r) (se_difficulty s),
    ep_best_share_hash := Some (case ep_best_share_hash r of None \<Rightarrow> se_block_hash_be s
      | Some best \<Rightarrow> if se_block_hash_be s < best then se_block_hash_be s else best)\<rparr>)"
proof -
  obtain b where b: "ep_best_share_hash r = Some b" "best_hash rows b"
    using assms(1) by (auto simp: epoch_row_ok_def)
  then have "length b = length (se_block_hash_be s)" using assms(2) by (auto simp: best_hash_def)
  with b assms(1) best_hash_snoc [OF b(2) this] show ?thesis
    by (simp add: epoch_row_ok_def difficulty_sum_snoc)
qed

lemma share_keeps_db_ok:
  assumes "db_ok db" and "length (se_block_hash_be s) = 32"
  shows "db_ok (upsert_epoch_share s (insert_share s db))"
proof -
  let ?a = "se_miner_address s"
  have stats: "stats_ok (shares db) (epoch_stats db) a" for a
    using assms(1) by (simp add: db_ok_def)
  have lengths: "\<forall>x \<in> set (rows_of ?a (shares db) @ [s]). length (se_block_hash_be x) = 32"
    using assms by (auto simp: db_ok_def rows_of_def)
  have "epoch_row_ok (rows_of ?a (shares db) @ [s])
      (the (epoch_stats (upsert_epoch_share s (insert_share s db)) ?a))"
  proof (cases "epoch_stats db ?a")
    case None
    with stats [of ?a] show ?thesis
      by (simp add: upsert_epoch_share_def insert_share_def epoch_row_ok_def best_hash_def stats_ok_def)
  next
    case (Some r)
    with stats [of ?a] epoch_row_snoc [OF _ lengths] show ?thesis
      by (simp add: upsert_epoch_share_def insert_share_def stats_ok_def)
  qed
  note row = this
  let ?db = "upsert_epoch_share s (insert_share s db)"
  have tables: "shares ?db = shares db @ [s]" "\<And>a. a \<noteq> ?a \<Longrightarrow> epoch_stats ?db a = epoch_stats db a"
    "epoch_stats ?db ?a \<noteq> None"
    by (simp_all add: upsert_epoch_share_def insert_share_def)
  have "stats_ok (shares ?db) (epoch_stats ?db) a" for a
  proof (cases "a = ?a")
    case True
    with row tables show ?thesis by (auto simp: stats_ok_def)
  next
    case False
    with stats [of a] tables show ?thesis by (simp add: stats_ok_def split: option.splits)
  qed
  with assms tables(1) show ?thesis by (simp add: db_ok_def)
qed

lemma epoch_row_ok_active [simp]: "epoch_row_ok rows (r\<lparr>ep_active_minutes := n\<rparr>) = epoch_row_ok rows r"
  by (simp add: epoch_row_ok_def)

lemma active_keeps_stats:
  "stats_ok rows stats b \<Longrightarrow> stats a = Some r \<Longrightarrow> stats_ok rows (stats(a \<mapsto> r\<lparr>ep_active_minutes := n\<rparr>)) b"
  by (auto simp: stats_ok_def)

lemma active_keeps_db_ok: "db_ok db \<Longrightarrow> epoch_stats db a \<noteq> None \<Longrightarrow> db_ok (upsert_active_minute a db)"
  by (auto simp: db_ok_def upsert_active_minute_def active_keeps_stats)

lemma other_tables_keep_db_ok [simp]:
  "db_ok (insert_or_ignore_miner a ts db) = db_ok db" "db_ok (upsert_minute a m d db) = db_ok db"
  "db_ok (prune_minutes c db) = db_ok db"
  by (simp_all add: db_ok_def insert_or_ignore_miner_def upsert_minute_def prune_minutes_def split: option.split)

lemma untouched_tables [simp]:
  "shares (insert_or_ignore_miner a ts db) = shares db" "epoch_stats (insert_or_ignore_miner a ts db) = epoch_stats db"
  "shares (upsert_minute a m d db) = shares db" "epoch_stats (upsert_minute a m d db) = epoch_stats db"
  "shares (prune_minutes c db) = shares db" "epoch_stats (prune_minutes c db) = epoch_stats db"
  "shares (upsert_active_minute a db) = shares db" "miners (upsert_active_minute a db) = miners db"
  "miners (upsert_minute a m d db) = miners db" "miners (prune_minutes c db) = miners db"
  "shares (upsert_epoch_share s db) = shares db" "miners (upsert_epoch_share s db) = miners db"
  "minute_hashrates (insert_or_ignore_miner a ts db) = minute_hashrates db"
  "miners (insert_share s db) = miners db" "shares (insert_share s db) = shares db @ [s]"
  by (simp_all add: insert_or_ignore_miner_def upsert_minute_def prune_minutes_def upsert_active_minute_def
      upsert_epoch_share_def insert_share_def split: option.split)

section \<open>The effect of a flush\<close>

lemma fold_miners_other:
  "shares (fold (\<lambda>(a, ts). insert_or_ignore_miner a ts) ms db) = shares db \<and>
   epoch_stats (fold (\<lambda>(a, ts). insert_or_ignore_miner a ts) ms db) = epoch_stats db \<and>
   minute_hashrates (fold (\<lambda>(a, ts). insert_or_ignore_miner a ts) ms db) = minute_hashrates db \<and>
   db_ok (fold (\<lambda>(a, ts). insert_or_ignore_miner a ts) ms db) = db_ok db"
  by (induction ms arbitrary: db) (simp_all add: case_prod_beta)

lemma fold_miners_first_seen:
  "miners (fold (\<lambda>(a, ts). insert_or_ignore_miner a ts) ms db) = map_of ms ++ miners db"
proof (induction ms arbitrary: db)
  case (Cons m ms)
  obtain a ts where m: "m = (a, ts)" by (cases m)
  have "map_of ms ++ miners (insert_or_ignore_miner a ts db) = (map_of ms)(a \<mapsto> ts) ++ miners db"
    by (cases "miners db a") (auto simp: insert_or_ignore_miner_def map_add_def fun_eq_iff split: option.split)
  with Cons m show ?case by (simp add: fun_upd_def)
qed simp

lemma fold_shares_rows:
  "shares (fold (\<lambda>s d. upsert_epoch_share s (insert_share s d)) ss db) = shares db @ ss \<and>
   miners (fold (\<lambda>s d. upsert_epoch_share s (insert_share s d)) ss db) = miners db"
  by (induction ss arbitrary: db) simp_all

lemma fold_shares_ok:
  "db_ok db \<Longrightarrow> \<forall>s \<in> set ss. length (se_block_hash_be s) = 32 \<Longrightarrow>
    db_ok (fold (\<lambda>s d. upsert_epoch_share s (insert_share s d)) ss db)"
  by (induction ss arbitrary: db) (simp_all add: share_keeps_db_ok)

lemma fold_windows_tables:
  "shares (fold (\<lambda>a d. upsert_active_minute a (upsert_minute a m (the (w a)) d)) ks db) = shares db \<and>
   miners (fold (\<lambda>a d. upsert_active_minute a (upsert_minute a m (the (w a)) d)) ks db) = miners db"
  by (induction ks arbitrary: db) simp_all

lemma fold_windows_ok:
  "db_ok db \<Longrightarrow> \<forall>a \<in> set ks. epoch_stats db a \<noteq> None \<Longrightarrow>
    db_ok (fold (\<lambda>a d. upsert_active_minute a (upsert_minute a m (the (w a)) d)) ks db)"
proof (induction ks arbitrary: db)
  case (Cons a ks)
  have "db_ok (upsert_active_minute a (upsert_minute a m (the (w a)) db))"
    using Cons.prems by (intro active_keeps_db_ok) simp_all
  moreover have "\<forall>b \<in> set ks. epoch_stats (upsert_active_minute a (upsert_minute a m (the (w a)) db)) b \<noteq> None"
    using Cons.prems(2) by (simp add: upsert_active_minute_def)
  ultimately show ?case using Cons.IH by simp
qed simp

lemma db_ok_has_stats:
  assumes "db_ok db" and "s \<in> set (shares db)"
  shows "epoch_stats db (se_miner_address s) \<noteq> None"
proof -
  have "rows_of (se_miner_address s) (shares db) \<noteq> []" using assms(2) by (auto simp: rows_of_def filter_empty_conv)
  moreover have "stats_ok (shares db) (epoch_stats db) (se_miner_address s)" using assms(1) by (simp add: db_ok_def)
  ultimately show ?thesis by (auto simp: stats_ok_def split: option.splits)
qed

lemma flushed_rows:
  "shares (flushed ss ms w ks m db) = shares db @ ss"
  "miners (flushed ss ms w ks m db) = map_of ms ++ miners db"
  by (simp_all add: flushed_def fold_windows_tables fold_shares_rows fold_miners_other fold_miners_first_seen)

lemma flushed_ok:
  assumes "db_ok db" and "\<forall>s \<in> set ss. length (se_block_hash_be s) = 32"
    and "set ks \<subseteq> se_miner_address ` set ss"
  shows "db_ok (flushed ss ms w ks m db)"
proof -
  let ?db = "fold (\<lambda>s d. upsert_epoch_share s (insert_share s d)) ss
    (fold (\<lambda>(a, ts). insert_or_ignore_miner a ts) ms db)"
  have ok: "db_ok ?db" using assms(1,2) by (intro fold_shares_ok) (simp_all add: fold_miners_other)
  moreover have "\<forall>a \<in> set ks. epoch_stats ?db a \<noteq> None"
    using assms(3) db_ok_has_stats [OF ok] by (force simp: fold_shares_rows)
  ultimately show ?thesis unfolding flushed_def by (simp add: fold_windows_ok)
qed

text \<open>Every flush counts one active minute for each address of the window, whatever the minute.\<close>

abbreviation active_minutes :: "database \<Rightarrow> string \<Rightarrow> int" where
  "active_minutes db a \<equiv> (case epoch_stats db a of None \<Rightarrow> 0 | Some r \<Rightarrow> ep_active_minutes r)"

lemma active_step:
  "active_minutes (upsert_active_minute a (upsert_minute a m d db)) b = active_minutes db b + (if a = b then 1 else 0)"
  "active_minutes (upsert_epoch_share s (insert_share s db)) b = active_minutes db b"
  by (simp_all add: upsert_active_minute_def upsert_epoch_share_def insert_share_def split: option.split)

lemma flushed_active:
  assumes "distinct ks"
  shows "active_minutes (flushed ss ms w ks m db) a = active_minutes db a + (if a \<in> set ks then 1 else 0)"
proof -
  have shares: "active_minutes (fold (\<lambda>s d. upsert_epoch_share s (insert_share s d)) ss db) a = active_minutes db a" for db
    by (induction ss arbitrary: db) (simp_all add: active_step del: fun_upd_apply)
  have "distinct ks \<Longrightarrow>
      active_minutes (fold (\<lambda>a d. upsert_active_minute a (upsert_minute a m (the (w a)) d)) ks db) a =
      active_minutes db a + (if a \<in> set ks then 1 else 0)" for db
    by (induction ks arbitrary: db) (auto simp: active_step)
  with assms shares show ?thesis by (simp add: flushed_def fold_miners_other)
qed

lemma prune_window: "\<forall>((a, t), d) \<in> set (minute_hashrates (flushed ss ms w ks m db)). m - MINUTE_RETENTION_SECS \<le> t"
  by (auto simp: flushed_def prune_minutes_def)

text \<open>
  The rows of the minutes after a flush: each address of the window has its difficulties added to the
  row of the minute, rows older than a day are gone, and no other row changes.
\<close>

lemma map_of_upsert_minute:
  "map_of (minute_hashrates (upsert_minute a m d db)) =
    (map_of (minute_hashrates db))((a, m) \<mapsto>
      (case map_of (minute_hashrates db) (a, m) of None \<Rightarrow> d | Some old \<Rightarrow> f64_add old d))"
proof -
  have "map_of (AList.map_default k d (\<lambda>old. f64_add old d) al) =
      (map_of al)(k \<mapsto> (case map_of al k of None \<Rightarrow> d | Some old \<Rightarrow> f64_add old d))" for k al
    by (induction al) (auto simp: fun_eq_iff)
  then show ?thesis by (simp add: upsert_minute_def)
qed

lemma map_of_prune_minutes:
  "map_of (minute_hashrates (prune_minutes c db)) (a, m) =
    (if m < c then None else map_of (minute_hashrates db) (a, m))"
proof -
  have "map_of (filter (\<lambda>((addr, t), d). \<not> t < c) al) (a, m) = (if m < c then None else map_of al (a, m))" for al :: "((string \<times> int) \<times> f64) list"
    by (induction al) auto
  then show ?thesis by (simp add: prune_minutes_def)
qed

lemma minute_rows_only [simp]:
  "minute_hashrates (upsert_active_minute a db) = minute_hashrates db"
  "minute_hashrates (upsert_epoch_share s (insert_share s db)) = minute_hashrates db"
  by (simp_all add: upsert_active_minute_def upsert_epoch_share_def insert_share_def)

lemma flushed_minute_rows:
  assumes "distinct ks"
  shows "map_of (minute_hashrates (flushed ss ms w ks m db)) (a, t) =
    (if t < m - MINUTE_RETENTION_SECS then None
     else if t = m \<and> a \<in> set ks then
       Some (case map_of (minute_hashrates db) (a, t) of None \<Rightarrow> the (w a) | Some old \<Rightarrow> f64_add old (the (w a)))
     else map_of (minute_hashrates db) (a, t))"
proof -
  have shares: "minute_hashrates (fold (\<lambda>s d. upsert_epoch_share s (insert_share s d)) ss db) = minute_hashrates db" for db
    by (induction ss arbitrary: db) simp_all
  have miners: "minute_hashrates (fold (\<lambda>(a, ts). insert_or_ignore_miner a ts) ms db) = minute_hashrates db"
    by (induction ms arbitrary: db) (auto simp: insert_or_ignore_miner_def split: option.split)
  have "distinct ks \<Longrightarrow> map_of (minute_hashrates (fold (\<lambda>a d. upsert_active_minute a (upsert_minute a m (the (w a)) d)) ks db)) (a, t) =
      (if t = m \<and> a \<in> set ks then
         Some (case map_of (minute_hashrates db) (a, t) of None \<Rightarrow> the (w a) | Some old \<Rightarrow> f64_add old (the (w a)))
       else map_of (minute_hashrates db) (a, t))" for db
    by (induction ks arbitrary: db) (auto simp: map_of_upsert_minute)
  with assms show ?thesis by (simp add: flushed_def map_of_prune_minutes shares miners)
qed

section \<open>A flush without faults succeeds\<close>

text \<open>The key of \<open>minute_hashrates\<close>: one row for an address and a minute, before and after a flush.\<close>

lemma upsert_minute_distinct:
  "distinct (map fst (minute_hashrates db)) \<Longrightarrow> distinct (map fst (minute_hashrates (upsert_minute a m d db)))"
  by (simp add: upsert_minute_def distinct_map_default)

lemma flushed_distinct:
  assumes "distinct (map fst (minute_hashrates db))"
  shows "distinct (map fst (minute_hashrates (flushed ss ms w ks m db)))"
proof -
  have shares: "minute_hashrates (fold (\<lambda>s d. upsert_epoch_share s (insert_share s d)) ss db) = minute_hashrates db" for db
    by (induction ss arbitrary: db) simp_all
  have miners: "minute_hashrates (fold (\<lambda>(a, ts). insert_or_ignore_miner a ts) ms db) = minute_hashrates db"
    by (simp add: fold_miners_other)
  have windows: "distinct (map fst (minute_hashrates db)) \<Longrightarrow>
      distinct (map fst (minute_hashrates (fold (\<lambda>a d. upsert_active_minute a (upsert_minute a m (the (w a)) d)) ks db)))" for db
    by (induction ks arbitrary: db) (simp_all add: upsert_minute_distinct)
  have prune: "distinct (map fst (minute_hashrates db)) \<Longrightarrow>
      distinct (map fst (minute_hashrates (prune_minutes c db)))" for c db
    by (simp add: prune_minutes_def distinct_map_filter)
  from assms show ?thesis unfolding flushed_def by (intro prune windows) (simp add: shares miners)
qed

lemma one_row:
  assumes "distinct (map fst rows)" and "map_of rows k = Some d"
  shows "length (filter (\<lambda>row. fst row = k) rows) = 1"
  using assms
proof (induction rows)
  case (Cons r rows)
  have "filter (\<lambda>row. fst row = fst r) rows = []"
    using Cons.prems(1) by (auto simp: filter_empty_conv) (metis fst_conv image_eqI)
  with Cons show ?case by (cases r) (auto split: if_splits)
qed simp

lemma for_each_total:
  assumes "\<And>x t. list_all Not (tx_faults t) \<Longrightarrow> \<exists>t'. f x t = Inr t' \<and> list_all Not (tx_faults t')"
  shows "list_all Not (tx_faults t) \<Longrightarrow> \<exists>t'. for_each f xs t = Inr t' \<and> list_all Not (tx_faults t')"
proof (induction xs arbitrary: t)
  case (Cons x xs)
  then show ?case using assms [of t x] by fastforce
qed simp

lemma execute_twice_total:
  assumes "list_all Not (tx_faults t)"
  shows "\<exists>t'. and_then (execute f t) (execute g) = Inr t' \<and> list_all Not (tx_faults t')"
proof -
  obtain t1 where "execute f t = Inr t1" "list_all Not (tx_faults t1)" using execute_total [OF assms] by blast
  with execute_total [OF this(2), of g] show ?thesis by simp
qed

lemma flush_inner_total:
  assumes "list_all Not faults"
  shows "flush_inner faults ss ms w ks m db = Inr (flushed ss ms w ks m db)"
proof -
  obtain t1 where t1: "execute id \<lparr>tx_db = db, tx_faults = faults\<rparr> = Inr t1" "list_all Not (tx_faults t1)"
    using execute_total [of "\<lparr>tx_db = db, tx_faults = faults\<rparr>"] assms by auto
  obtain t2 where t2: "for_each (\<lambda>(address, ts). execute (insert_or_ignore_miner address ts)) ms t1 = Inr t2"
    "list_all Not (tx_faults t2)"
    using for_each_total [OF _ t1(2), of "\<lambda>(address, ts). execute (insert_or_ignore_miner address ts)"]
    by (fastforce intro: execute_total split: prod.splits)
  obtain t3 where t3: "for_each (\<lambda>share t. and_then (execute (insert_share share) t)
      (execute (upsert_epoch_share share))) ss t2 = Inr t3" "list_all Not (tx_faults t3)"
    using for_each_total [where f = "\<lambda>share t. and_then (execute (insert_share share) t)
      (execute (upsert_epoch_share share))", OF execute_twice_total t2(2)] by blast
  obtain t4 where t4: "for_each (\<lambda>address t. and_then (execute (upsert_minute address m (the (w address))) t)
      (execute (upsert_active_minute address))) ks t3 = Inr t4" "list_all Not (tx_faults t4)"
    using for_each_total [where f = "\<lambda>address t. and_then (execute (upsert_minute address m (the (w address))) t)
      (execute (upsert_active_minute address))", OF execute_twice_total t3(2)] by blast
  obtain t5 t6 where "execute (prune_minutes (m - MINUTE_RETENTION_SECS)) t4 = Inr t5" "execute id t5 = Inr t6"
    using execute_total t4(2) by metis
  with t1 t2 t3 t4 have "\<exists>db'. flush_inner faults ss ms w ks m db = Inr db'" by (simp add: flush_inner_def)
  then show ?thesis using flush_inner_Inr by blast
qed

end
