(* ===== verification/Messages.thy ===== *)
theory Messages
  imports Templates Database
begin

text \<open>
  The messages of the mining protocol that the server reads and writes
  (\<open>pool/src/stratum_sv2.rs\<close>), and the handlers' effects. The message layouts and their binary
  encoding belong to the \<open>*_sv2\<close> crates, which are not part of the repository: the parsers and
  the numbers of the message types are the parameters in \<open>codec\<close>, and a written message is a
  value of \<open>server_message\<close> in the log of the connection.
\<close>

section \<open>Messages the server reads\<close>

datatype protocol = Mining_Protocol | Job_Declaration_Protocol | Template_Distribution_Protocol

record setup_connection =
  sc_protocol :: protocol
  sc_min_version :: u16
  sc_max_version :: u16

text \<open>
  \<open>oc_user_identity\<close> is the text that \<open>as_utf8_or_hex\<close> gives; the declared hashrate is an
  \<open>f32\<close>, whose values are among those of \<open>f64\<close>.
\<close>

record open_extended_mining_channel =
  oc_request_id :: u32
  oc_user_identity :: string
  oc_nominal_hash_rate :: f64

record submit_shares_extended =
  sh_channel_id :: u32
  sh_sequence_number :: u32
  sh_job_id :: u32
  sh_nonce :: u32
  sh_ntime :: u32
  sh_version :: u32
  sh_extranonce :: bytes

record codec =
  parse_setup_connection :: "bytes \<Rightarrow> setup_connection option"
  parse_open_extended_mining_channel :: "bytes \<Rightarrow> open_extended_mining_channel option"
  parse_submit_shares_extended :: "bytes \<Rightarrow> submit_shares_extended option"
  MESSAGE_TYPE_SETUP_CONNECTION :: u8
  MESSAGE_TYPE_OPEN_EXTENDED_MINING_CHANNEL :: u8
  MESSAGE_TYPE_SUBMIT_SHARES_EXTENDED :: u8

text \<open>A frame is a handshake frame, or a message with its type (when it has a header) and payload.\<close>

datatype either_frame =
    Hand_Shake bytes
  | Sv2 (msg_type: "u8 option") (payload: bytes)

section \<open>Messages the server writes\<close>

record setup_connection_success =
  ok_used_version :: u16
  ok_flags :: u32

record setup_connection_error =
  er_flags :: u32
  er_error_code :: string

record open_extended_mining_channel_success =
  os_request_id :: u32
  os_channel_id :: u32
  os_target :: bytes
  os_extranonce_size :: u16
  os_extranonce_prefix :: bytes
  os_group_channel_id :: u32

record new_extended_mining_job =
  nj_channel_id :: u32
  nj_job_id :: u32
  nj_min_ntime :: "u32 option"
  nj_version :: u32
  nj_version_rolling_allowed :: bool
  nj_merkle_path :: "bytes list"
  nj_coinbase_tx_prefix :: bytes
  nj_coinbase_tx_suffix :: bytes

record mining_set_new_prev_hash =
  mp_channel_id :: u32
  mp_job_id :: u32
  mp_prev_hash :: bytes
  mp_min_ntime :: u32
  mp_nbits :: u32

record submit_shares_success =
  ok_channel_id :: u32
  ok_last_sequence_number :: u32
  ok_new_submits_accepted_count :: u32
  ok_new_shares_sum :: u64

record submit_shares_error =
  er_channel_id :: u32
  er_sequence_number :: u32
  er_share_error_code :: string

datatype server_message =
    Setup_Success setup_connection_success
  | Setup_Error setup_connection_error
  | Open_Success open_extended_mining_channel_success
  | New_Job new_extended_mining_job
  | New_Prev_Hash mining_set_new_prev_hash
  | Shares_Success submit_shares_success
  | Shares_Error submit_shares_error

section \<open>Effects\<close>

text \<open>
  A handler acts on the state it owns and on the world: it writes messages to the peer, hands
  solutions to the node client and events to the database worker. The log keeps these outputs in
  the order in which they happen. A write can fail: \<open>w_faults\<close> says of each coming write whether
  it does (the writes past the end of the list succeed). The results of the two channel sends
  are dropped by the code, so they have no fault.
\<close>

datatype effect =
    Wrote (channel_bit: bool) (message: server_message)
  | Solution submit_solution_data
  | Db_Sent db_event

record 's world =
  w_state :: 's
  w_log :: "effect list"
  w_faults :: "bool list"

type_synonym ('s, 'a) handler = "'s world \<Rightarrow> 'a outcome \<times> 's world"

named_theorems handler_simps

text \<open>\<open>then_do m f\<close> is \<open>m?\<close> followed by \<open>f\<close>: an error ends the handler, its effects stay.\<close>

definition then_do :: "('s, 'a) handler \<Rightarrow> ('a \<Rightarrow> ('s, 'b) handler) \<Rightarrow> ('s, 'b) handler" where
  "then_do m f w = (case m w of (Inl e, w') \<Rightarrow> (Inl e, w') | (Inr x, w') \<Rightarrow> f x w')"

definition done_with :: "'a \<Rightarrow> ('s, 'a) handler" where
  "done_with x w = (Inr x, w)"

definition fail_with :: "error \<Rightarrow> ('s, 'a) handler" where
  "fail_with e w = (Inl e, w)"

definition check :: "'a outcome \<Rightarrow> ('s, 'a) handler" where
  "check r w = (r, w)"

definition get_state :: "('s, 's) handler" where
  "get_state w = (Inr (w_state w), w)"

definition put_state :: "'s \<Rightarrow> ('s, unit) handler" where
  "put_state s w = (Inr (), w\<lparr>w_state := s\<rparr>)"

definition emit :: "effect \<Rightarrow> ('s, unit) handler" where
  "emit ev w = (Inr (), w\<lparr>w_log := w_log w @ [ev]\<rparr>)"

definition write_sv2_message :: "server_message \<Rightarrow> bool \<Rightarrow> ('s, unit) handler" where
  "write_sv2_message msg channel_msg w =
     (case w_faults w of
        True # fs \<Rightarrow> (Inl (Bail ''write failed''), w\<lparr>w_faults := fs\<rparr>)
      | _ \<Rightarrow> (Inr (), w\<lparr>w_log := w_log w @ [Wrote channel_msg msg], w_faults := tl (w_faults w)\<rparr>))"

lemma handler_steps [handler_simps, simp]:
  "then_do (done_with x) f w = f x w"
  "then_do (fail_with e) g w = (Inl e, w)"
  "then_do (check (Inr y)) h w = h y w"
  "then_do (check (Inl e)) k w = (Inl e, w)"
  "then_do get_state l v = l (w_state v) v"
  "then_do (put_state s) m v = m () (v\<lparr>w_state := s\<rparr>)"
  "then_do (emit ev) m v = m () (v\<lparr>w_log := w_log v @ [ev]\<rparr>)"
  "done_with x w = (Inr x, w)" "fail_with e w = (Inl e, w)" "check r w = (r, w)"
  "emit ev v = (Inr (), v\<lparr>w_log := w_log v @ [ev]\<rparr>)"
  "put_state s v = (Inr (), v\<lparr>w_state := s\<rparr>)"
  by (simp_all add: then_do_def done_with_def fail_with_def check_def get_state_def put_state_def
      emit_def)

text \<open>The next write fails, or succeeds; both cases as rewrite rules.\<close>

definition next_fails :: "'s world \<Rightarrow> bool" where
  "next_fails w \<longleftrightarrow> (case w_faults w of b # _ \<Rightarrow> b | [] \<Rightarrow> False)"

lemma write_fails [handler_simps]:
  "next_fails w \<Longrightarrow> write_sv2_message m b w = (Inl (Bail ''write failed''), w\<lparr>w_faults := tl (w_faults w)\<rparr>)"
  by (auto simp: next_fails_def write_sv2_message_def split: list.splits bool.splits)

lemma write_succeeds [handler_simps]:
  "\<not> next_fails w \<Longrightarrow> write_sv2_message m b w =
    (Inr (), w\<lparr>w_log := w_log w @ [Wrote b m], w_faults := tl (w_faults w)\<rparr>)"
  by (auto simp: next_fails_def write_sv2_message_def split: list.splits bool.splits)

lemma then_write [handler_simps]:
  "then_do (write_sv2_message m b) f w =
    (if next_fails w then (Inl (Bail ''write failed''), w\<lparr>w_faults := tl (w_faults w)\<rparr>)
     else f () (w\<lparr>w_log := w_log w @ [Wrote b m], w_faults := tl (w_faults w)\<rparr>))"
  by (simp add: then_do_def write_fails write_succeeds)

lemma next_fails_update [simp]:
  "next_fails (w\<lparr>w_log := l\<rparr>) = next_fails w" "next_fails (w\<lparr>w_state := s\<rparr>) = next_fails w"
  by (simp_all add: next_fails_def)

lemma no_faults [simp]: "w_faults w = [] \<Longrightarrow> \<not> next_fails w"
  by (simp add: next_fails_def)

section \<open>Reasoning about handlers\<close>

text \<open>
  \<open>wp m Q w\<close>: running \<open>m\<close> from \<open>w\<close> ends with a result and a world that satisfy \<open>Q\<close>. The rules
  push it through the steps of a handler, so that a property of every path is proved once per path.
\<close>

definition wp :: "('s, 'a) handler \<Rightarrow> ('a outcome \<Rightarrow> 's world \<Rightarrow> bool) \<Rightarrow> 's world \<Rightarrow> bool" where
  "wp m Q w \<longleftrightarrow> (case m w of (r, w') \<Rightarrow> Q r w')"

named_theorems wp_rules

lemma wp_steps [wp_rules]:
  "wp (then_do m f) Q w \<longleftrightarrow> wp m (\<lambda>r. case r of Inl e \<Rightarrow> Q (Inl e) | Inr x \<Rightarrow> wp (f x) Q) w"
  "wp (done_with y) R w \<longleftrightarrow> R (Inr y) w"
  "wp (fail_with er) R w \<longleftrightarrow> R (Inl er) w"
  "wp (check r) R w \<longleftrightarrow> R r w"
  "wp get_state S w \<longleftrightarrow> S (Inr (w_state w)) w"
  "wp (put_state s) T w \<longleftrightarrow> T (Inr ()) (w\<lparr>w_state := s\<rparr>)"
  "wp (emit ev) T w \<longleftrightarrow> T (Inr ()) (w\<lparr>w_log := w_log w @ [ev]\<rparr>)"
  "wp (if b then m1 else m2) R w \<longleftrightarrow> (if b then wp m1 R w else wp m2 R w)"
  by (auto simp: wp_def then_do_def get_state_def split: prod.splits sum.splits)

lemma wp_write [wp_rules]:
  "wp (write_sv2_message m b) Q w \<longleftrightarrow>
    (if next_fails w then Q (Inl (Bail ''write failed'')) (w\<lparr>w_faults := tl (w_faults w)\<rparr>)
     else Q (Inr ()) (w\<lparr>w_log := w_log w @ [Wrote b m], w_faults := tl (w_faults w)\<rparr>))"
  by (simp add: wp_def write_fails write_succeeds)

lemma wp_snd: "wp m (\<lambda>_. P) w \<longleftrightarrow> P (snd (m w))"
  by (simp add: wp_def split: prod.splits)

text \<open>
  The same as introduction rules, for a long handler: one subgoal per way out of it, and a fresh
  world at every step, known by its state and log.
\<close>

named_theorems wp_intros

lemma wp_check_intro [wp_intros]:
  "\<lbrakk>\<And>e. r = Inl e \<Longrightarrow> Q (Inl e) w; \<And>x. r = Inr x \<Longrightarrow> wp (f x) Q w\<rbrakk> \<Longrightarrow> wp (then_do (check r) f) Q w"
  by (cases r) (simp_all add: wp_rules)

lemma wp_get_intro [wp_intros]: "wp (f (w_state w)) Q w \<Longrightarrow> wp (then_do get_state f) Q w"
  by (simp add: wp_rules)

lemma wp_put_intro [wp_intros]:
  "(\<And>w'. w_state w' = s \<Longrightarrow> w_log w' = w_log w \<Longrightarrow> wp (f ()) Q w') \<Longrightarrow> wp (then_do (put_state s) f) Q w"
  by (simp add: wp_rules)

lemma wp_write_intro [wp_intros]:
  "\<lbrakk>\<And>e w'. w_state w' = w_state w \<Longrightarrow> w_log w' = w_log w \<Longrightarrow> Q (Inl e) w';
    \<And>w'. w_state w' = w_state w \<Longrightarrow> w_log w' = w_log w @ [Wrote b m] \<Longrightarrow> wp (f ()) Q w'\<rbrakk>
    \<Longrightarrow> wp (then_do (write_sv2_message m b) f) Q w"
  by (simp add: wp_rules)

lemma wp_emit_intro [wp_intros]:
  "(\<And>w'. w_state w' = w_state w \<Longrightarrow> w_log w' = w_log w @ [ev] \<Longrightarrow> Q (Inr ()) w') \<Longrightarrow> wp (emit ev) Q w"
  by (simp add: wp_rules)

lemma wp_done_intro [wp_intros]: "Q (Inr x) w \<Longrightarrow> wp (done_with x) Q w"
  by (simp add: wp_rules)

lemma wp_if_intro [wp_intros]: "(b \<Longrightarrow> wp m1 Q w) \<Longrightarrow> (\<not> b \<Longrightarrow> wp m2 Q w) \<Longrightarrow> wp (if b then m1 else m2) Q w"
  by simp

lemma wp_prod_intro [wp_intros]: "(\<And>a b. x = (a, b) \<Longrightarrow> wp (g a b) Q w) \<Longrightarrow> wp (case x of (a, b) \<Rightarrow> g a b) Q w"
  by (cases x) simp

end
