(* ===== verification/Merkle.thy ===== *)
theory Merkle
  imports Crates "HOL-Library.Log_Nat"
begin

text \<open>
  The merkle branch of a block template, from \<open>pool/src/jobs.rs\<close>: the sibling hashes on the path
  of the coinbase, built level by level, and the template transaction they are built from
  (\<open>pool/src/rpc.rs\<close>). The specification is the protocol's merkle root of the whole list of
  transaction ids; the main theorem is that folding any coinbase id over the branch gives the
  root of the list with that coinbase in front.
\<close>

section \<open>Template transactions\<close>

record template_transaction =
  tt_data :: string
  tt_txid :: string
  tt_hash :: string
  tt_fee :: int
  tt_weight :: u32

section \<open>The branch\<close>

definition sha256d_pair :: "crates \<Rightarrow> bytes \<Rightarrow> bytes \<Rightarrow> bytes" where
  "sha256d_pair L a b = sha256d L (a @ b)"

text \<open>Display order to internal order; a wrong text or length ends the function with a panic.\<close>

definition internal_txid :: "crates \<Rightarrow> template_transaction \<Rightarrow> bytes outcome" where
  "internal_txid L tx =
     and_then (ok_or (Panic ''txid is not valid hex'') (hex_decode L (tt_txid tx))) (\<lambda>b.
       let b = rev b in
       if length b = 32 then Inr b
       else Inl (Panic ''source slice length does not match destination slice length''))"

text \<open>The inner loop: the pairs of \<open>level[i..]\<close>, an odd last hash paired with itself.\<close>

function next_level :: "crates \<Rightarrow> bytes list \<Rightarrow> nat \<Rightarrow> bytes list" where
  "next_level L level i =
     (if i < length level then
        let a = level ! i;
            b = (if i + 1 < length level then level ! (i + 1) else a)
        in sha256d_pair L a b # next_level L level (i + 2)
      else [])"
  by pat_completeness auto
termination by (relation "measure (\<lambda>(L, level, i). length level - i)") auto

declare next_level.simps [simp del]

fun pair_up :: "('h \<Rightarrow> 'h \<Rightarrow> 'h) \<Rightarrow> 'h list \<Rightarrow> 'h list" where
  "pair_up H [] = []"
| "pair_up H [a] = [H a a]"
| "pair_up H (a # b # r) = H a b # pair_up H r"

lemma length_pair_up [simp, len_simps]: "length (pair_up H xs) = (length xs + 1) div 2"
  by (induction H xs rule: pair_up.induct) auto

lemma next_level_pair_up: "next_level L level i = pair_up (sha256d_pair L) (drop i level)"
proof (induction L level i rule: next_level.induct)
  case (1 L level i)
  show ?case
  proof (cases "i < length level")
    case True
    then have d: "drop i level = level ! i # drop (Suc i) level" by (simp add: Cons_nth_drop_Suc)
    show ?thesis
    proof (cases "Suc i < length level")
      case True
      then have "drop (Suc i) level = level ! Suc i # drop (i + 2) level"
        by (simp add: Cons_nth_drop_Suc)
      with 1 True d show ?thesis by (simp add: next_level.simps [of L level i] Let_def)
    next
      case False
      with 1 True d show ?thesis by (simp add: next_level.simps [of L level i] Let_def)
    qed
  qed (simp add: next_level.simps [of L level i])
qed

text \<open>The outer loop; indexing an empty level would panic.\<close>

function branch_loop :: "crates \<Rightarrow> bytes list \<Rightarrow> bytes list \<Rightarrow> bytes list outcome" where
  "branch_loop L level branch =
     (if level = [] then Inl (Panic ''index out of bounds'')
      else let branch = branch @ [level ! 0] in
        if length level = 1 then Inr branch
        else branch_loop L (next_level L level 1) branch)"
  by pat_completeness auto
termination
  by (relation "measure (\<lambda>(L, level, branch). length level)") (auto simp: next_level_pair_up)

declare branch_loop.simps [simp del]

definition build_merkle_branch :: "crates \<Rightarrow> template_transaction list \<Rightarrow> bytes list outcome" where
  "build_merkle_branch L transactions =
     (if transactions = [] then Inr []
      else and_then (mapM (internal_txid L) transactions) (\<lambda>level. branch_loop L level []))"

text \<open>
  The other side of the branch, as the share handler and the tests apply it: the running hash
  and each sibling in one 64-byte block.
\<close>

fun apply_branch :: "crates \<Rightarrow> bytes \<Rightarrow> bytes list \<Rightarrow> bytes" where
  "apply_branch L hash [] = hash"
| "apply_branch L hash (sibling # path) = apply_branch L (sha256d L (hash @ sibling)) path"

section \<open>The protocol's merkle root\<close>

function merkle_root :: "('h \<Rightarrow> 'h \<Rightarrow> 'h) \<Rightarrow> 'h list \<Rightarrow> 'h" where
  "merkle_root H [] = undefined"
| "merkle_root H [a] = a"
| "merkle_root H (a # b # r) = merkle_root H (pair_up H (a # b # r))"
  by pat_completeness auto
termination by (relation "measure (\<lambda>(H, xs). length xs)") auto

declare merkle_root.simps(3) [simp del]

lemma merkle_root_step:
  "merkle_root H (a # b # r) = merkle_root H (H a b # pair_up H r)"
  by (simp add: merkle_root.simps(3))

section \<open>Correctness\<close>

lemma branch_loop_root:
  "level \<noteq> [] \<Longrightarrow> \<exists>br. branch_loop L level acc = Inr (acc @ br) \<and> length br = floorlog 2 (length level) \<and>
    (\<forall>cb. apply_branch L cb br = merkle_root (sha256d_pair L) (cb # level))"
proof (induction L level acc rule: branch_loop.induct)
  case (1 L level acc)
  then obtain t rest where level: "level = t # rest" by (cases level) auto
  show ?case
  proof (cases rest)
    case Nil
    with level show ?thesis
      by (intro exI [of _ "[t]"])
        (simp add: branch_loop.simps merkle_root_step sha256d_pair_def compute_floorlog)
  next
    case (Cons r rs)
    let ?up = "pair_up (sha256d_pair L) rest"
    have nxt: "next_level L level (Suc 0) = ?up" by (simp add: next_level_pair_up level)
    have ne: "?up \<noteq> []" using Cons by (cases rs) auto
    obtain br where br: "branch_loop L ?up (acc @ [t]) = Inr (acc @ [t] @ br)"
      "length br = floorlog 2 (length ?up)"
      "\<And>cb. apply_branch L cb br = merkle_root (sha256d_pair L) (cb # ?up)"
      using "1.IH" [OF "1.prems" refl] level Cons ne nxt by fastforce
    have "floorlog 2 (length level) = Suc (length br)"
      by (subst compute_floorlog) (simp add: level Cons br(2))
    moreover have "branch_loop L level acc = Inr (acc @ t # br)"
      by (subst branch_loop.simps) (use level Cons br(1) nxt in simp)
    ultimately show ?thesis
      using level br(3) by (intro exI [of _ "t # br"]) (simp add: merkle_root_step flip: sha256d_pair_def)
  qed
qed

lemma internal_txid_ok:
  "hex_decode L (tt_txid tx) = Some b \<Longrightarrow> length b = 32 \<Longrightarrow> internal_txid L tx = Inr (rev b)"
  by (simp add: internal_txid_def Let_def)

lemma merkle_branch_root:
  assumes "\<forall>tx \<in> set txs. \<exists>b. hex_decode L (tt_txid tx) = Some b \<and> length b = 32"
  shows "\<exists>branch. build_merkle_branch L txs = Inr branch \<and>
    length branch = floorlog 2 (length txs) \<and>
    (\<forall>coinbase. apply_branch L coinbase branch =
       merkle_root (sha256d_pair L) (coinbase # map (\<lambda>tx. rev (the (hex_decode L (tt_txid tx)))) txs))"
proof (cases "txs = []")
  case True
  then show ?thesis by (simp add: build_merkle_branch_def compute_floorlog)
next
  case False
  let ?ids = "map (\<lambda>tx. rev (the (hex_decode L (tt_txid tx)))) txs"
  have "mapM (internal_txid L) txs = Inr ?ids"
    using assms by (intro mapM_Inr) (force intro: internal_txid_ok)
  moreover obtain br where "branch_loop L ?ids [] = Inr br" "length br = floorlog 2 (length ?ids)"
    "\<And>cb. apply_branch L cb br = merkle_root (sha256d_pair L) (cb # ?ids)"
    using branch_loop_root [of ?ids L "[]"] False by auto
  ultimately show ?thesis using False by (simp add: build_merkle_branch_def)
qed

text \<open>
  C18: The branch is correct: on transactions whose ids are hexadecimal texts of 32 bytes it is
  built, has as many hashes as the number of transactions has binary digits, and folding any
  coinbase id over it gives the protocol's merkle root of the whole list with that coinbase in
  front, odd levels included.
\<close>

theorem merkle_branch_correct:
  assumes "\<forall>tx \<in> set txs. \<exists>b. hex_decode L (tt_txid tx) = Some b \<and> length b = 32"
  shows "\<exists>branch. build_merkle_branch L txs = Inr branch \<and>
    length branch = floorlog 2 (length txs) \<and>
    (\<forall>coinbase. apply_branch L coinbase branch =
       merkle_root (sha256d_pair L) (coinbase # map (\<lambda>tx. rev (the (hex_decode L (tt_txid tx)))) txs))"
  using assms by (rule merkle_branch_root)

text \<open>A decoder for the witnesses: an id is the text of one byte, repeated to 32.\<close>

definition sample_hex_crates :: crates where
  "sample_hex_crates = sample_crates\<lparr>hex_decode := (\<lambda>s. case s of [] \<Rightarrow> None
     | c # _ \<Rightarrow> Some (replicate 32 (of_nat (of_char c))))\<rparr>"

definition sample_tx :: "string \<Rightarrow> template_transaction" where
  "sample_tx txid = \<lparr>tt_data = [], tt_txid = txid, tt_hash = txid, tt_fee = 1000, tt_weight = 561\<rparr>"

theorem merkle_branch_correct_witness:
  "\<exists>branch. build_merkle_branch sample_hex_crates [sample_tx ''a'', sample_tx ''b'', sample_tx ''c''] = Inr branch \<and>
    length branch = 2 \<and>
    apply_branch sample_hex_crates (replicate 32 0) branch =
      merkle_root (sha256d_pair sample_hex_crates)
        [replicate 32 0, replicate 32 97, replicate 32 98, replicate 32 99]"
proof -
  let ?txs = "[sample_tx ''a'', sample_tx ''b'', sample_tx ''c'']"
  have "\<forall>tx \<in> set ?txs. \<exists>b. hex_decode sample_hex_crates (tt_txid tx) = Some b \<and> length b = 32"
    by (simp add: sample_hex_crates_def sample_tx_def)
  from merkle_branch_correct [OF this] obtain branch where
    "build_merkle_branch sample_hex_crates ?txs = Inr branch" "length branch = floorlog 2 (Suc (Suc (Suc 0)))"
    "apply_branch sample_hex_crates (replicate 32 0) branch = merkle_root (sha256d_pair sample_hex_crates)
      (replicate 32 0 # map (\<lambda>tx. rev (the (hex_decode sample_hex_crates (tt_txid tx)))) ?txs)"
    by auto
  moreover have "floorlog 2 (Suc (Suc (Suc 0))) = 2" by (simp add: compute_floorlog)
  ultimately show ?thesis by (simp add: sample_hex_crates_def sample_tx_def)
qed

section \<open>Failures\<close>

lemma internal_txid_Inl: "internal_txid L tx = Inl e \<Longrightarrow> \<exists>s. e = Panic s"
  by (auto simp: internal_txid_def Let_def ok_or_def split: option.splits if_splits)

lemma mapM_Inl: "mapM f xs = Inl e \<Longrightarrow> \<exists>x \<in> set xs. f x = Inl e"
  by (induction xs) (auto simp: and_then_eq_Inl)

text \<open>
  The branch fails exactly when some transaction id does not decode to 32 bytes, wherever it stands in
  the list; the tree itself never fails.
\<close>

lemma merkle_branch_fails:
  "(\<exists>e. build_merkle_branch L txs = Inl e) \<longleftrightarrow>
    (\<exists>tx \<in> set txs. \<forall>b. hex_decode L (tt_txid tx) = Some b \<longrightarrow> length b \<noteq> 32)"
proof
  assume "\<exists>e. build_merkle_branch L txs = Inl e"
  then show "\<exists>tx \<in> set txs. \<forall>b. hex_decode L (tt_txid tx) = Some b \<longrightarrow> length b \<noteq> 32"
    using merkle_branch_root [of txs L] by fastforce
next
  assume "\<exists>tx \<in> set txs. \<forall>b. hex_decode L (tt_txid tx) = Some b \<longrightarrow> length b \<noteq> 32"
  then obtain tx where tx: "tx \<in> set txs" "\<And>y. internal_txid L tx \<noteq> Inr y"
    by (fastforce simp: internal_txid_def Let_def split: if_splits)
  then have "mapM (internal_txid L) txs \<noteq> Inr ys" for ys
    unfolding mapM_Inr_iff list_all2_conv_all_nth by (metis in_set_conv_nth)
  with tx show "\<exists>e. build_merkle_branch L txs = Inl e"
    by (cases "mapM (internal_txid L) txs") (auto simp: build_merkle_branch_def)
qed

lemma sample_branch_fails:
  "\<exists>e. build_merkle_branch sample_hex_crates [sample_tx ''a'', sample_tx []] = Inl e"
  by (subst merkle_branch_fails) (simp add: sample_hex_crates_def sample_tx_def)

end
