(* ===== verification/Channels.thy ===== *)
theory Channels
  imports Messages Merkle
begin

text \<open>
  The state of a connection of the mining server and the pure functions on it, from
  \<open>pool/src/stratum_sv2.rs\<close>: jobs, channels, identifiers, the construction of the two messages
  of a job and of its record, the address of a miner and the extranonce of a share. The lemmas
  give the content of a job: its coinbase, completed by the extranonce of a share, is the
  encoding of a transaction that pays the whole template value to the channel's address.
\<close>

section \<open>State\<close>

record job_info =
  ji_job_id :: u32
  ji_template_id :: u64
  ji_coinb1 :: bytes
  ji_coinb2 :: bytes
  ji_merkle_path :: "bytes list"
  ji_prev_hash :: bytes
  ji_nbits :: u32
  ji_ntime :: u32
  ji_version :: u32

record channel_info =
  ch_channel_id :: u32
  ch_extranonce_prefix :: bytes
  ch_miner_address :: string
  ch_current_job :: "job_info option"
  ch_channel_target_be :: bytes

record connection_state =
  next_channel_id :: u32
  next_job_id :: u32
  channels :: "u32 \<rightharpoonup> channel_info"
  pool_address :: string

definition connection_state_new :: "string \<Rightarrow> connection_state" where
  "connection_state_new addr =
     \<lparr>next_channel_id = 0, next_job_id = 1, channels = Map.empty, pool_address = addr\<rparr>"

text \<open>
  \<open>alloc_channel_id\<close> and \<open>alloc_job_id\<close>: the counter is read, then incremented; the increment of
  the largest 32-bit number panics.
\<close>

definition alloc_channel_id :: "connection_state \<Rightarrow> (u32 \<times> connection_state) outcome" where
  "alloc_channel_id st =
     (let id = next_channel_id st in
      if unat id + 1 < 2 ^ 32 then Inr (id, st\<lparr>next_channel_id := id + 1\<rparr>)
      else Inl (Panic ''attempt to add with overflow''))"

definition alloc_job_id :: "connection_state \<Rightarrow> (u32 \<times> connection_state) outcome" where
  "alloc_job_id st =
     (let id = next_job_id st in
      if unat id + 1 < 2 ^ 32 then Inr (id, st\<lparr>next_job_id := id + 1\<rparr>)
      else Inl (Panic ''attempt to add with overflow''))"

lemma alloc_channel_id_Inr [outcome_simps]:
  "alloc_channel_id st = Inr (i, st') \<longleftrightarrow>
    i = next_channel_id st \<and> unat i + 1 < 2 ^ 32 \<and> st' = st\<lparr>next_channel_id := i + 1\<rparr>"
  by (auto simp: alloc_channel_id_def Let_def)

lemma alloc_job_id_Inr [outcome_simps]:
  "alloc_job_id st = Inr (i, st') \<longleftrightarrow>
    i = next_job_id st \<and> unat i + 1 < 2 ^ 32 \<and> st' = st\<lparr>next_job_id := i + 1\<rparr>"
  by (auto simp: alloc_job_id_def Let_def)

lemma unat_incr: "unat (i :: u32) + 1 < 2 ^ 32 \<Longrightarrow> unat (i + 1) = unat i + 1"
  by (simp add: unat_word_ariths)

section \<open>Pure helpers\<close>

text \<open>The text before the first dot; the whole text when there is none.\<close>

definition parse_miner_address :: "crates \<Rightarrow> string \<Rightarrow> string \<Rightarrow> string" where
  "parse_miner_address L user_identity pool_addr =
     (let candidate = takeWhile (\<lambda>c. c \<noteq> CHR ''.'') user_identity in
      case script_from_address L candidate of
        Inr _ \<Rightarrow> candidate
      | Inl _ \<Rightarrow> pool_addr)"

definition build_full_extranonce :: "bytes \<Rightarrow> bytes \<Rightarrow> bytes" where
  "build_full_extranonce prefix ext2 =
     (let ext2_len = min (length ext2) SV2_EXTRANONCE2_SIZE;
          out = replicate SV2_EXTRANONCE_TOTAL 0;
          out = prefix @ drop 32 out
      in take 32 out @ take ext2_len ext2 @ drop (32 + ext2_len) out)"

lemma length_full_extranonce [simp, len_simps]:
  "length prefix = 32 \<Longrightarrow> length (build_full_extranonce prefix ext2) = SV2_EXTRANONCE_TOTAL"
  by (simp add: build_full_extranonce_def Let_def)

lemma full_extranonce_parts:
  "length prefix = 32 \<Longrightarrow>
    build_full_extranonce prefix ext2 =
      prefix @ take 4 ext2 @ replicate (4 - length ext2) 0"
  by (simp add: build_full_extranonce_def Let_def min_def)

section \<open>Job construction\<close>

definition build_job_messages ::
    "crates \<Rightarrow> channel_info \<Rightarrow> u32 \<Rightarrow> raw_template \<Rightarrow>
     (mining_set_new_prev_hash \<times> new_extended_mining_job \<times> job_info) outcome" where
  "build_job_messages L channel job_id raw =
     (let nt = rt_new_template raw; snph = rt_set_new_prev_hash raw in
      and_then (mapM (\<lambda>h. if length h = 32 then Inr h
          else Inl (Panic ''source slice length does not match destination slice length''))
        (nt_merkle_path nt)) (\<lambda>path_hashes.
      and_then (if length (sp_prev_hash snph) = 32 then Inr (sp_prev_hash snph)
          else Inl (Bail ''prev_hash must be 32 bytes'')) (\<lambda>prev_hash.
      and_then (script_from_address L (ch_miner_address channel)) (\<lambda>miner_script.
      let use_segwit = nt_coinbase_tx_outputs_count nt > 0;
          parts = build_sv2_coinbase_from_tdp L (nt_coinbase_prefix nt) (nt_coinbase_tx_version nt)
            (nt_coinbase_tx_input_sequence nt) (nt_coinbase_tx_value_remaining nt)
            (nt_coinbase_tx_outputs_count nt) (nt_coinbase_tx_outputs nt) (nt_coinbase_tx_locktime nt)
            miner_script use_segwit
      in
      and_then (b064k ''coinbase prefix'' (coinb1 parts)) (\<lambda>coinbase_tx_prefix.
      and_then (b064k ''coinbase suffix'' (coinb2 parts)) (\<lambda>coinbase_tx_suffix.
      and_then (seq0255 ''merkle path'' path_hashes) (\<lambda>merkle_path.
      Inr (\<lparr>mp_channel_id = ch_channel_id channel, mp_job_id = job_id, mp_prev_hash = prev_hash,
            mp_min_ntime = sp_header_timestamp snph, mp_nbits = sp_n_bits snph\<rparr>,
           \<lparr>nj_channel_id = ch_channel_id channel, nj_job_id = job_id, nj_min_ntime = None,
            nj_version = nt_version nt, nj_version_rolling_allowed = True,
            nj_merkle_path = merkle_path, nj_coinbase_tx_prefix = coinbase_tx_prefix,
            nj_coinbase_tx_suffix = coinbase_tx_suffix\<rparr>,
           \<lparr>ji_job_id = job_id, ji_template_id = nt_template_id nt, ji_coinb1 = coinb1 parts,
            ji_coinb2 = coinb2 parts, ji_merkle_path = path_hashes, ji_prev_hash = prev_hash,
            ji_nbits = sp_n_bits snph, ji_ntime = sp_header_timestamp snph,
            ji_version = nt_version nt\<rparr>)))))))) "

text \<open>
  The coinbase that a job stands for: what the pool means to mine. \<open>miner_coinbase\<close> is stated on
  transactions; the job holds only two byte strings.
\<close>

definition miner_coinbase :: "raw_template \<Rightarrow> bytes \<Rightarrow> txout list \<Rightarrow> bytes \<Rightarrow> transaction" where
  "miner_coinbase raw miner_script outs extranonce =
     (let nt = rt_new_template raw in
      coinbase_of (nt_coinbase_tx_version nt) (nt_coinbase_tx_locktime nt)
        (nt_coinbase_prefix nt @ extranonce) (nt_coinbase_tx_input_sequence nt)
        (if outs \<noteq> [] then [replicate 32 0] else [])
        (\<lparr>txo_value = nt_coinbase_tx_value_remaining nt, txo_script = miner_script\<rparr> # outs))"

lemma mapM_guard:
  "mapM (\<lambda>h. if P h then Inr h else Inl e) xs = Inr ys \<longleftrightarrow> ys = xs \<and> list_all P xs"
  by (auto simp: mapM_Inr_iff list_all2_conv_all_nth list_all_length intro!: nth_equalityI)

lemma build_job_messages_Inr:
  "build_job_messages L ch job_id raw = Inr (p, n, j) \<longleftrightarrow>
    (\<exists>ms parts. address_script L (ch_miner_address ch) = Some ms \<and>
      parts = build_sv2_coinbase_from_tdp L (nt_coinbase_prefix (rt_new_template raw))
        (nt_coinbase_tx_version (rt_new_template raw)) (nt_coinbase_tx_input_sequence (rt_new_template raw))
        (nt_coinbase_tx_value_remaining (rt_new_template raw))
        (nt_coinbase_tx_outputs_count (rt_new_template raw)) (nt_coinbase_tx_outputs (rt_new_template raw))
        (nt_coinbase_tx_locktime (rt_new_template raw)) ms (nt_coinbase_tx_outputs_count (rt_new_template raw) > 0) \<and>
      length (coinb1 parts) \<le> 65535 \<and> length (coinb2 parts) \<le> 65535 \<and>
      list_all (\<lambda>h. length h = 32) (nt_merkle_path (rt_new_template raw)) \<and>
      length (nt_merkle_path (rt_new_template raw)) \<le> 255 \<and>
      length (sp_prev_hash (rt_set_new_prev_hash raw)) = 32 \<and>
      p = \<lparr>mp_channel_id = ch_channel_id ch, mp_job_id = job_id,
           mp_prev_hash = sp_prev_hash (rt_set_new_prev_hash raw),
           mp_min_ntime = sp_header_timestamp (rt_set_new_prev_hash raw),
           mp_nbits = sp_n_bits (rt_set_new_prev_hash raw)\<rparr> \<and>
      n = \<lparr>nj_channel_id = ch_channel_id ch, nj_job_id = job_id, nj_min_ntime = None,
           nj_version = nt_version (rt_new_template raw), nj_version_rolling_allowed = True,
           nj_merkle_path = nt_merkle_path (rt_new_template raw),
           nj_coinbase_tx_prefix = coinb1 parts, nj_coinbase_tx_suffix = coinb2 parts\<rparr> \<and>
      j = \<lparr>ji_job_id = job_id, ji_template_id = nt_template_id (rt_new_template raw),
           ji_coinb1 = coinb1 parts, ji_coinb2 = coinb2 parts,
           ji_merkle_path = nt_merkle_path (rt_new_template raw),
           ji_prev_hash = sp_prev_hash (rt_set_new_prev_hash raw),
           ji_nbits = sp_n_bits (rt_set_new_prev_hash raw),
           ji_ntime = sp_header_timestamp (rt_set_new_prev_hash raw),
           ji_version = nt_version (rt_new_template raw)\<rparr>)"
  unfolding build_job_messages_def Let_def
  by (simp add: mapM_guard script_from_address_def) blast

section \<open>The content of a job\<close>

lemma enc_txout_script_le:
  "o' \<in> set outs \<Longrightarrow> length (txo_script o') \<le> length (concat (map enc_txout outs))"
  by (induction outs) (auto simp: enc_txout_def enc_blob_def)

lemma template_outputs_count:
  "template_outputs raw outs \<Longrightarrow> nt_coinbase_tx_outputs_count (rt_new_template raw) > 0 \<longleftrightarrow> outs \<noteq> []"
  by (auto simp: template_outputs_def word_less_nat_alt)

text \<open>
  A job of a well-formed template. \<open>job_of\<close> says where a stored job comes from: it is what
  \<open>build_job_messages\<close> gave for a template and the channel's address.
\<close>

definition job_of :: "crates \<Rightarrow> raw_template \<Rightarrow> string \<Rightarrow> job_info \<Rightarrow> bool" where
  "job_of L raw addr j \<longleftrightarrow>
     (\<exists>ch job_id p n. ch_miner_address ch = addr \<and> build_job_messages L ch job_id raw = Inr (p, n, j))"

lemma build_job_messages_job_of:
  "build_job_messages L ch job_id raw = Inr (p, n, j) \<Longrightarrow> job_of L raw (ch_miner_address ch) j"
  by (auto simp: job_of_def)

lemma build_job_messages_ids:
  "build_job_messages L ch job_id raw = Inr (p, n, j) \<Longrightarrow>
    ji_job_id j = job_id \<and> nj_job_id n = job_id \<and> mp_job_id p = job_id \<and>
    nj_channel_id n = ch_channel_id ch \<and> mp_channel_id p = ch_channel_id ch \<and>
    nj_coinbase_tx_prefix n = ji_coinb1 j \<and> nj_coinbase_tx_suffix n = ji_coinb2 j \<and>
    nj_merkle_path n = ji_merkle_path j \<and> mp_prev_hash p = ji_prev_hash j \<and> mp_nbits p = ji_nbits j"
  by (auto simp: build_job_messages_Inr)

lemma job_coinbase_encodes:
  assumes "serialize_ok L" and "template_outputs raw outs"
    and "length (nt_coinbase_prefix (rt_new_template raw)) \<le> 255"
    and "job_of L raw addr j" and "length extranonce = SV2_EXTRANONCE_TOTAL"
  shows "\<exists>ms. address_script L addr = Some ms \<and>
    ji_coinb1 j @ extranonce @ ji_coinb2 j = enc_tx (miner_coinbase raw ms outs extranonce)"
proof -
  let ?nt = "rt_new_template raw"
  obtain ms parts where ms: "address_script L addr = Some ms"
    and parts: "parts = build_sv2_coinbase_from_tdp L (nt_coinbase_prefix ?nt) (nt_coinbase_tx_version ?nt)
      (nt_coinbase_tx_input_sequence ?nt) (nt_coinbase_tx_value_remaining ?nt)
      (nt_coinbase_tx_outputs_count ?nt) (nt_coinbase_tx_outputs ?nt) (nt_coinbase_tx_locktime ?nt) ms
      (nt_coinbase_tx_outputs_count ?nt > 0)"
    and j: "ji_coinb1 j = coinb1 parts" "ji_coinb2 j = coinb2 parts"
    using assms(4) by (auto simp: job_of_def build_job_messages_Inr)
  have "coinb1 parts @ extranonce @ coinb2 parts =
    enc_tx (coinbase_of (nt_coinbase_tx_version ?nt) (nt_coinbase_tx_locktime ?nt)
      (nt_coinbase_prefix ?nt @ extranonce) (nt_coinbase_tx_input_sequence ?nt)
      (if nt_coinbase_tx_outputs_count ?nt > 0 then [replicate 32 0] else [])
      (\<lparr>txo_value = nt_coinbase_tx_value_remaining ?nt, txo_script = ms\<rparr> # outs))"
    using assms(2,3)
    by (intro coinbase_from_tdp_enc [OF assms(1) _ assms(5) _ _ parts])
      (auto simp: template_outputs_def)
  with ms j template_outputs_count [OF assms(2)] show ?thesis
    by (simp add: miner_coinbase_def Let_def)
qed

lemma job_coinbase_size:
  assumes "job_of L raw addr j"
  shows "length (ji_coinb1 j) \<le> 65535" and "length (ji_coinb2 j) \<le> 65535"
  using assms by (auto simp: job_of_def build_job_messages_Inr)

lemma miner_coinbase_wf:
  assumes "template_outputs raw outs" and "length (nt_coinbase_prefix (rt_new_template raw)) \<le> 255"
    and "length (nt_coinbase_tx_outputs (rt_new_template raw)) \<le> 65535"
    and "length ms \<le> 1000000" and "length extranonce = SV2_EXTRANONCE_TOTAL"
  shows "wf_tx (miner_coinbase raw ms outs extranonce)"
proof -
  have size: "length (concat (map enc_txout outs)) \<le> 65535" "length outs \<le> 65535"
    using assms(1,3) enc_txouts_count [of outs] by (simp_all add: template_outputs_def)
  have "length (txo_script o') \<le> 65535" if "o' \<in> set outs" for o'
    using enc_txout_script_le [OF that] size(1) by linarith
  then have "list_all wf_txout outs" by (force simp: list_all_iff wf_txout_def)
  with assms size show ?thesis
    by (simp add: miner_coinbase_def Let_def coinbase_of_def wf_tx_def wf_txin_def wf_txout_def)
qed

lemma script_le_enc: "length ms \<le> length (enc_tx (miner_coinbase raw ms outs e))"
  by (simp add: miner_coinbase_def enc_coinbase_of enc_list_def enc_txout_def enc_blob_def Let_def)

lemma job_coinbase_deserializes:
  assumes "serialize_ok L" and "deserialize_ok L" and "wf_template raw" and "template_outputs raw outs"
    and "job_of L raw addr j" and "length extranonce = SV2_EXTRANONCE_TOTAL"
  shows "\<exists>ms. address_script L addr = Some ms \<and>
    ji_coinb1 j @ extranonce @ ji_coinb2 j = enc_tx (miner_coinbase raw ms outs extranonce) \<and>
    deserialize_tx L (ji_coinb1 j @ extranonce @ ji_coinb2 j) = Some (miner_coinbase raw ms outs extranonce)"
proof -
  have wf: "length (nt_coinbase_prefix (rt_new_template raw)) \<le> 255"
    "length (nt_coinbase_tx_outputs (rt_new_template raw)) \<le> 65535"
    using assms(3) by (simp_all add: wf_template_def)
  obtain ms where ms: "address_script L addr = Some ms"
    and enc: "ji_coinb1 j @ extranonce @ ji_coinb2 j = enc_tx (miner_coinbase raw ms outs extranonce)"
    using job_coinbase_encodes [OF assms(1,4) wf(1) assms(5,6)] by auto
  have size: "length (enc_tx (miner_coinbase raw ms outs extranonce)) \<le> 1000000"
    using job_coinbase_size [OF assms(5)] assms(6) by (simp flip: enc)
  then have "length ms \<le> 1000000" using script_le_enc [of ms raw outs extranonce] by linarith
  then have "wf_tx (miner_coinbase raw ms outs extranonce)"
    by (intro miner_coinbase_wf assms wf)
  with assms(2) size ms enc show ?thesis by (simp add: deserialize_ok_def)
qed

text \<open>The coinbase pays the template's value, all of it to the miner's script.\<close>

lemma miner_coinbase_value:
  assumes "template_outputs raw outs"
  shows "sum_list (map (unat \<circ> txo_value) (tx_outputs (miner_coinbase raw ms outs e))) =
    unat (nt_coinbase_tx_value_remaining (rt_new_template raw))"
    and "hd (tx_outputs (miner_coinbase raw ms outs e)) =
      \<lparr>txo_value = nt_coinbase_tx_value_remaining (rt_new_template raw), txo_script = ms\<rparr>"
proof -
  have "sum_list (map (unat \<circ> txo_value) outs) = 0"
    using assms by (auto simp: template_outputs_def list_all_iff)
  then show "sum_list (map (unat \<circ> txo_value) (tx_outputs (miner_coinbase raw ms outs e))) =
      unat (nt_coinbase_tx_value_remaining (rt_new_template raw))"
    by (simp add: miner_coinbase_def Let_def coinbase_of_def)
qed (simp add: miner_coinbase_def Let_def coinbase_of_def)

section \<open>When a job can be built\<close>

lemma build_job_messages_total:
  assumes "wf_template raw" and "serialize_ok L"
    and "address_script L (ch_miner_address ch) = Some ms"
    and "68 + length ms + length (nt_coinbase_tx_outputs (rt_new_template raw)) \<le> 65535"
  shows "\<exists>p n j. build_job_messages L ch job_id raw = Inr (p, n, j)"
proof -
  let ?nt = "rt_new_template raw"
  define parts where "parts = build_sv2_coinbase_from_tdp L (nt_coinbase_prefix ?nt)
    (nt_coinbase_tx_version ?nt) (nt_coinbase_tx_input_sequence ?nt) (nt_coinbase_tx_value_remaining ?nt)
    (nt_coinbase_tx_outputs_count ?nt) (nt_coinbase_tx_outputs ?nt) (nt_coinbase_tx_locktime ?nt) ms
    (nt_coinbase_tx_outputs_count ?nt > 0)"
  have "length (coinb1 parts) \<le> 65535" "length (coinb2 parts) \<le> 65535"
    using length_coinbase_from_tdp [OF parts_def assms(2)] assms(1,4) by (simp_all add: wf_template_def)
  with assms(1,3) show ?thesis
    by (simp add: build_job_messages_Inr wf_template_def flip: parts_def)
qed

end
