(* ===== verification/Handlers.thy ===== *)
theory Handlers
  imports Channels
begin

text \<open>
  The message handlers of a connection, from \<open>pool/src/stratum_sv2.rs\<close>, in the order of the
  source. Each is a \<open>handler\<close>: guards, early returns and writes in the order of the code, every
  \<open>?\<close> a \<open>then_do\<close>. Tracing output and the text that \<open>context\<close> adds to an error are left out.
\<close>

section \<open>SetupConnection\<close>

definition setup_error :: "string \<Rightarrow> server_message" where
  "setup_error code = Setup_Error \<lparr>er_flags = 0, er_error_code = code\<rparr>"

definition handle_setup_connection :: "codec \<Rightarrow> either_frame \<Rightarrow> ('s, unit) handler" where
  "handle_setup_connection C frame =
     (case frame of
        Hand_Shake _ \<Rightarrow> fail_with (Bail ''unexpected HandShake frame after Noise transport'')
      | Sv2 hdr pl \<Rightarrow>
        then_do (check (ok_or (Bail ''frame missing header'') hdr)) (\<lambda>mt.
        if mt \<noteq> MESSAGE_TYPE_SETUP_CONNECTION C then
          then_do (write_sv2_message (setup_error ''unsupported-message'') False) (\<lambda>_.
          fail_with (Bail ''expected SetupConnection''))
        else
        then_do (check (ok_or (Bail ''SetupConnection parse error'') (parse_setup_connection C pl))) (\<lambda>msg.
        if sc_protocol msg \<noteq> Mining_Protocol then
          then_do (write_sv2_message (setup_error ''unsupported-protocol'') False) (\<lambda>_.
          fail_with (Bail ''unsupported protocol''))
        else if sc_min_version msg > 2 \<or> sc_max_version msg < 2 then
          then_do (write_sv2_message (setup_error ''protocol-version-mismatch'') False) (\<lambda>_.
          fail_with (Bail ''version mismatch''))
        else
          write_sv2_message (Setup_Success \<lparr>ok_used_version = 2, ok_flags = 0x02\<rparr>) False)))"

section \<open>OpenExtendedMiningChannel\<close>

definition handle_open_extended_mining_channel ::
    "crates \<Rightarrow> codec \<Rightarrow> bool \<Rightarrow> int \<Rightarrow> bytes \<Rightarrow> raw_template \<Rightarrow> (connection_state, unit) handler" where
  "handle_open_extended_mining_channel L C db now pl template =
     then_do (check (ok_or (Bail ''OpenExtendedMiningChannel parse error'')
       (parse_open_extended_mining_channel C pl))) (\<lambda>msg.
     then_do get_state (\<lambda>st.
     let miner_address = parse_miner_address L (oc_user_identity msg) (pool_address st) in
     then_do (check (alloc_channel_id st)) (\<lambda>(channel_id, st).
     then_do (put_state st) (\<lambda>_.
     let extranonce_prefix = le32 channel_id @ replicate 28 0 in
     then_do (check (hashrate_to_target_be (oc_nominal_hash_rate msg))) (\<lambda>channel_target_be.
     let network_target_be = compact_to_target_be (sp_n_bits (rt_set_new_prev_hash template));
         channel_target_be =
           (if network_target_be > channel_target_be then network_target_be else channel_target_be)
     in
     then_do (check (target_be_to_sv2 channel_target_be)) (\<lambda>channel_target_sv2.
     then_do (write_sv2_message (Open_Success
       \<lparr>os_request_id = oc_request_id msg, os_channel_id = channel_id, os_target = channel_target_sv2,
        os_extranonce_size = of_nat SV2_EXTRANONCE2_SIZE, os_extranonce_prefix = extranonce_prefix,
        os_group_channel_id = 0\<rparr>) False) (\<lambda>_.
     let channel = \<lparr>ch_channel_id = channel_id, ch_extranonce_prefix = extranonce_prefix,
           ch_miner_address = miner_address, ch_current_job = None,
           ch_channel_target_be = channel_target_be\<rparr>;
         st = st\<lparr>channels := (channels st)(channel_id \<mapsto> channel)\<rparr>
     in
     then_do (put_state st) (\<lambda>_.
     then_do (check (alloc_job_id st)) (\<lambda>(job_id, st).
     then_do (put_state st) (\<lambda>_.
     then_do (check (build_job_messages L channel job_id template)) (\<lambda>(prev_hash, job, job_info).
     let st = st\<lparr>channels := (channels st)(channel_id \<mapsto> channel\<lparr>ch_current_job := Some job_info\<rparr>)\<rparr> in
     then_do (put_state st) (\<lambda>_.
     then_do (write_sv2_message (New_Job job) True) (\<lambda>_.
     then_do (write_sv2_message (New_Prev_Hash prev_hash) True) (\<lambda>_.
     if db then emit (Db_Sent (Miner_Connected miner_address now)) else done_with ()))))))))))))))"

section \<open>Broadcast\<close>

text \<open>
  The keys of the hash map come in an order that the library does not specify: \<open>channel_ids\<close> is
  that order, an argument. A key that is not in the map would make \<open>unwrap\<close> panic.
\<close>

fun send_jobs_to_all_channels ::
    "crates \<Rightarrow> raw_template \<Rightarrow> u32 \<Rightarrow> u32 list \<Rightarrow> (connection_state, unit) handler" where
  "send_jobs_to_all_channels L template job_id [] = done_with ()"
| "send_jobs_to_all_channels L template job_id (channel_id # channel_ids) =
     then_do get_state (\<lambda>st.
     then_do (check (ok_or (Panic ''unwrap on None'') (channels st channel_id))) (\<lambda>channel.
     then_do (check (build_job_messages L channel job_id template)) (\<lambda>(prev_hash, job, job_info).
     then_do (put_state (st\<lparr>channels := (channels st)
       (channel_id \<mapsto> channel\<lparr>ch_current_job := Some job_info\<rparr>)\<rparr>)) (\<lambda>_.
     then_do (write_sv2_message (New_Job job) True) (\<lambda>_.
     then_do (write_sv2_message (New_Prev_Hash prev_hash) True) (\<lambda>_.
     send_jobs_to_all_channels L template job_id channel_ids))))))"

section \<open>SubmitSharesExtended\<close>

definition send_shares_error :: "u32 \<Rightarrow> u32 \<Rightarrow> string \<Rightarrow> ('s, unit) handler" where
  "send_shares_error channel_id sequence_number error_code =
     (let code = (if length error_code \<le> 255 then error_code else ''unknown-error'') in
      write_sv2_message (Shares_Error
        \<lparr>er_channel_id = channel_id, er_sequence_number = sequence_number,
         er_share_error_code = code\<rparr>) True)"

text \<open>The header of a share: the merkle root is the coinbase id folded over the job's path.\<close>

definition share_header :: "crates \<Rightarrow> job_info \<Rightarrow> submit_shares_extended \<Rightarrow> transaction \<Rightarrow> header" where
  "share_header L job share coinbase_tx =
     \<lparr>hd_version = sh_version share, hd_prev_blockhash = ji_prev_hash job,
      hd_merkle_root = apply_branch L (compute_txid L coinbase_tx) (ji_merkle_path job),
      hd_time = sh_ntime share, hd_bits = ji_nbits job, hd_nonce = sh_nonce share\<rparr>"

definition handle_submit_shares_extended ::
    "crates \<Rightarrow> codec \<Rightarrow> bool \<Rightarrow> bytes \<Rightarrow> (connection_state, unit) handler" where
  "handle_submit_shares_extended L C db pl =
     then_do (check (ok_or (Bail ''SubmitSharesExtended parse error'')
       (parse_submit_shares_extended C pl))) (\<lambda>share.
     let channel_id = sh_channel_id share; sequence_number = sh_sequence_number share in
     then_do get_state (\<lambda>st.
     case channels st channel_id of
       None \<Rightarrow> done_with ()
     | Some channel \<Rightarrow>
     (case ch_current_job channel of
       None \<Rightarrow> send_shares_error channel_id sequence_number ''stale-share-before-activation''
     | Some job \<Rightarrow>
     if ji_job_id job \<noteq> sh_job_id share then
       send_shares_error channel_id sequence_number ''stale-share-before-activation''
     else
     let full_extranonce = build_full_extranonce (ch_extranonce_prefix channel) (sh_extranonce share);
         coinbase = ji_coinb1 job @ full_extranonce @ ji_coinb2 job
     in
     (case deserialize_tx L coinbase of
       None \<Rightarrow> done_with ()
     | Some coinbase_tx \<Rightarrow>
     let header = share_header L job share coinbase_tx;
         bh = block_hash_text L header;
         channel_target_hex = hex_encode L (ch_channel_target_be channel);
         network_target_hex = compact_to_target_hex L (ji_nbits job)
     in
     if bh > channel_target_hex then
       send_shares_error channel_id sequence_number ''difficulty-too-low''
     else
     then_do (if bh \<le> network_target_hex then
         emit (Solution
           \<lparr>ss_template_id = ji_template_id job, ss_version = sh_version share,
            ss_header_timestamp = sh_ntime share, ss_header_nonce = sh_nonce share,
            ss_coinbase_tx = coinbase\<rparr>)
       else done_with ()) (\<lambda>_.
     then_do (write_sv2_message (Shares_Success
       \<lparr>ok_channel_id = channel_id, ok_last_sequence_number = sequence_number,
        ok_new_submits_accepted_count = 1, ok_new_shares_sum = 1\<rparr>) True) (\<lambda>_.
     let hash_be = rev (block_hash L header) in
     if db then
       emit (Db_Sent (Share
         \<lparr>se_miner_address = ch_miner_address channel, se_difficulty = hash_to_difficulty hash_be,
          se_block_hash_be = hash_be, se_timestamp = uint (sh_ntime share)\<rparr>))
     else done_with ()))))))"

section \<open>Dispatch\<close>

definition dispatch_message ::
    "crates \<Rightarrow> codec \<Rightarrow> bool \<Rightarrow> int \<Rightarrow> either_frame \<Rightarrow> raw_template \<Rightarrow> (connection_state, unit) handler" where
  "dispatch_message L C db now frame template =
     (case frame of
        Hand_Shake _ \<Rightarrow> fail_with (Bail ''unexpected HandShake frame in transport mode'')
      | Sv2 hdr pl \<Rightarrow>
        then_do (check (ok_or (Bail ''frame missing header'') hdr)) (\<lambda>mt.
        if mt = MESSAGE_TYPE_OPEN_EXTENDED_MINING_CHANNEL C then
          handle_open_extended_mining_channel L C db now pl template
        else if mt = MESSAGE_TYPE_SUBMIT_SHARES_EXTENDED C then
          handle_submit_shares_extended L C db pl
        else done_with ()))"

end
