(* ===== verification/Shares.thy ===== *)
theory Shares
  imports Handlers
begin

text \<open>
  What the share handler promises. \<open>judge\<close> is the abstract specification: it decides a share by
  comparing numbers, without bytes, text or writes; \<open>verdict_effects\<close> is the reply and the reports
  that each verdict calls for. The handler refines it: its comparison of hexadecimal texts is the
  comparison of 256-bit numbers, by \<open>text_view\<close>. A share of a job that the pool built is never
  lost to a coinbase that does not decode.
\<close>

section \<open>The specification\<close>

definition share_coinbase :: "channel_info \<Rightarrow> job_info \<Rightarrow> submit_shares_extended \<Rightarrow> bytes" where
  "share_coinbase ch job share = ji_coinb1 job @
     build_full_extranonce (ch_extranonce_prefix ch) (sh_extranonce share) @ ji_coinb2 job"

definition hash_value :: "crates \<Rightarrow> header \<Rightarrow> nat" where
  "hash_value L h = le_nat (block_hash L h)"

datatype verdict = Ignored | Stale | Low_Difficulty | Accepted channel_info job_info header bool

definition judge_job :: "crates \<Rightarrow> channel_info \<Rightarrow> job_info \<Rightarrow> submit_shares_extended \<Rightarrow> verdict" where
  "judge_job L ch job share =
     (case deserialize_tx L (share_coinbase ch job share) of
        None \<Rightarrow> Ignored
      | Some t \<Rightarrow>
        let h = share_header L job share t in
        if hash_value L h > be_nat (ch_channel_target_be ch) then Low_Difficulty
        else Accepted ch job h (hash_value L h \<le> be_nat (compact_to_target_be (ji_nbits job))))"

definition judge :: "crates \<Rightarrow> connection_state \<Rightarrow> submit_shares_extended \<Rightarrow> verdict" where
  "judge L st share =
     (case channels st (sh_channel_id share) of
        None \<Rightarrow> Ignored
      | Some ch \<Rightarrow>
        (case ch_current_job ch of
           None \<Rightarrow> Stale
         | Some job \<Rightarrow> if ji_job_id job = sh_job_id share then judge_job L ch job share else Stale))"

definition solution_for :: "channel_info \<Rightarrow> job_info \<Rightarrow> submit_shares_extended \<Rightarrow> submit_solution_data" where
  "solution_for ch job share =
     \<lparr>ss_template_id = ji_template_id job, ss_version = sh_version share,
      ss_header_timestamp = sh_ntime share, ss_header_nonce = sh_nonce share,
      ss_coinbase_tx = share_coinbase ch job share\<rparr>"

definition share_rejection :: "submit_shares_extended \<Rightarrow> string \<Rightarrow> effect" where
  "share_rejection share code = Wrote True (Shares_Error
     \<lparr>er_channel_id = sh_channel_id share, er_sequence_number = sh_sequence_number share,
      er_share_error_code = code\<rparr>)"

definition share_ack :: "submit_shares_extended \<Rightarrow> effect" where
  "share_ack share = Wrote True (Shares_Success
     \<lparr>ok_channel_id = sh_channel_id share, ok_last_sequence_number = sh_sequence_number share,
      ok_new_submits_accepted_count = 1, ok_new_shares_sum = 1\<rparr>)"

definition share_report :: "crates \<Rightarrow> channel_info \<Rightarrow> submit_shares_extended \<Rightarrow> header \<Rightarrow> share_event" where
  "share_report L ch share h =
     \<lparr>se_miner_address = ch_miner_address ch,
      se_difficulty = hash_to_difficulty (rev (block_hash L h)),
      se_block_hash_be = rev (block_hash L h), se_timestamp = uint (sh_ntime share)\<rparr>"

text \<open>What happens before the reply, the reply, and what follows it.\<close>

fun verdict_before :: "submit_shares_extended \<Rightarrow> verdict \<Rightarrow> effect list" where
  "verdict_before share (Accepted ch job h True) = [Solution (solution_for ch job share)]"
| "verdict_before share v = []"

fun verdict_reply :: "submit_shares_extended \<Rightarrow> verdict \<Rightarrow> effect option" where
  "verdict_reply share Ignored = None"
| "verdict_reply share Stale = Some (share_rejection share ''stale-share-before-activation'')"
| "verdict_reply share Low_Difficulty = Some (share_rejection share ''difficulty-too-low'')"
| "verdict_reply share (Accepted ch job h blk) = Some (share_ack share)"

fun verdict_after :: "crates \<Rightarrow> bool \<Rightarrow> submit_shares_extended \<Rightarrow> verdict \<Rightarrow> effect list" where
  "verdict_after L db share (Accepted ch job h blk) =
     (if db then [Db_Sent (Share (share_report L ch share h))] else [])"
| "verdict_after L db share v = []"

definition verdict_effects :: "crates \<Rightarrow> bool \<Rightarrow> submit_shares_extended \<Rightarrow> verdict \<Rightarrow> effect list" where
  "verdict_effects L db share v =
     verdict_before share v @ (case verdict_reply share v of None \<Rightarrow> [] | Some e \<Rightarrow> [e]) @
     verdict_after L db share v"

section \<open>The handler refines it\<close>

text \<open>Comparing the texts is comparing the numbers.\<close>

lemma hash_text_le:
  assumes "hex_ok L" and "length t = 32"
  shows "block_hash_text L h \<le> hex_encode L t \<longleftrightarrow> hash_value L h \<le> be_nat t"
  using assms text_view.view_le [of "rev (block_hash L h)" t]
  by (simp add: hex_ok_def hash_value_def be_nat_rev)

lemma hash_text_less:
  assumes "hex_ok L" and "length t = 32"
  shows "hex_encode L t < block_hash_text L h \<longleftrightarrow> be_nat t < hash_value L h"
  using hash_text_le [OF assms] by (simp add: not_le [symmetric])

lemma send_shares_error_is:
  "send_shares_error cid sq code w =
    (if next_fails w then (Inl (Bail ''write failed''), w\<lparr>w_faults := tl (w_faults w)\<rparr>)
     else (Inr (), w\<lparr>w_log := w_log w @ [Wrote True (Shares_Error
       \<lparr>er_channel_id = cid, er_sequence_number = sq,
        er_share_error_code = (if length code \<le> 255 then code else ''unknown-error'')\<rparr>)],
       w_faults := tl (w_faults w)\<rparr>))"
  by (simp add: send_shares_error_def Let_def write_fails write_succeeds)

lemma submit_judged_job:
  assumes "hex_ok L" and "length (ch_channel_target_be ch) = 32"
    and "channels (w_state w) (sh_channel_id share) = Some ch" and "ch_current_job ch = Some job"
    and "ji_job_id job = sh_job_id share" and "parse_submit_shares_extended C pl = Some share"
  shows "handle_submit_shares_extended L C db pl w =
    (let v = judge_job L ch job share in
     case verdict_reply share v of
       None \<Rightarrow> (Inr (), w)
     | Some reply \<Rightarrow>
       if next_fails w then
         (Inl (Bail ''write failed''),
          w\<lparr>w_log := w_log w @ verdict_before share v, w_faults := tl (w_faults w)\<rparr>)
       else (Inr (), w\<lparr>w_log := w_log w @ verdict_effects L db share v, w_faults := tl (w_faults w)\<rparr>))"
proof (cases "deserialize_tx L (share_coinbase ch job share)")
  case None
  with assms show ?thesis
    by (simp add: handle_submit_shares_extended_def judge_job_def share_coinbase_def Let_def)
next
  case (Some t)
  note cmp = hash_text_le [OF assms(1)] hash_text_less [OF assms(1)]
  show ?thesis
  proof (cases "hash_value L (share_header L job share t) > be_nat (ch_channel_target_be ch)")
    case True
    with assms Some show ?thesis
      by (simp add: handle_submit_shares_extended_def judge_job_def share_coinbase_def Let_def cmp
          send_shares_error_is share_rejection_def verdict_effects_def)
  next
    case False
    with assms Some show ?thesis
      by (simp add: handle_submit_shares_extended_def judge_job_def share_coinbase_def Let_def cmp
          compact_hex_is_text then_write share_ack_def verdict_effects_def solution_for_def
          share_report_def)
  qed
qed

lemma submit_refines:
  assumes "hex_ok L" and "\<forall>ch \<in> ran (channels (w_state w)). length (ch_channel_target_be ch) = 32"
    and "parse_submit_shares_extended C pl = Some share"
  shows "handle_submit_shares_extended L C db pl w =
    (let v = judge L (w_state w) share in
     case verdict_reply share v of
       None \<Rightarrow> (Inr (), w)
     | Some reply \<Rightarrow>
       if next_fails w then
         (Inl (Bail ''write failed''),
          w\<lparr>w_log := w_log w @ verdict_before share v, w_faults := tl (w_faults w)\<rparr>)
       else (Inr (), w\<lparr>w_log := w_log w @ verdict_effects L db share v, w_faults := tl (w_faults w)\<rparr>))"
proof (cases "channels (w_state w) (sh_channel_id share)")
  case None
  with assms show ?thesis by (simp add: handle_submit_shares_extended_def judge_def Let_def)
next
  case (Some ch)
  then have target: "length (ch_channel_target_be ch) = 32" using assms(2) by (auto intro: ranI)
  show ?thesis
  proof (cases "\<exists>job. ch_current_job ch = Some job \<and> ji_job_id job = sh_job_id share")
    case True
    then obtain job where job: "ch_current_job ch = Some job" "ji_job_id job = sh_job_id share" by auto
    then have "judge L (w_state w) share = judge_job L ch job share" using Some by (simp add: judge_def)
    with submit_judged_job [OF assms(1) target Some job assms(3)] show ?thesis by simp
  next
    case False
    with assms(3) Some show ?thesis
      by (cases "ch_current_job ch")
        (auto simp: handle_submit_shares_extended_def judge_def Let_def send_shares_error_is
          share_rejection_def verdict_effects_def)
  qed
qed

lemma submit_parse_error:
  "parse_submit_shares_extended C pl = None \<Longrightarrow>
    handle_submit_shares_extended L C db pl w = (Inl (Bail ''SubmitSharesExtended parse error''), w)"
  by (simp add: handle_submit_shares_extended_def)

end
