(* ===== verification/Connection.thy ===== *)
theory Connection
  imports Shares
begin

text \<open>
  One connection of the mining server as a state machine (\<open>handle_connection\<close> in
  \<open>pool/src/stratum_sv2.rs\<close>) and the invariant of its run. The events are the readiness of the
  two branches of \<open>select!\<close> and the publication of a template by the node client; their order is
  free, so every interleaving is a list of events.
\<close>

section \<open>The loop\<close>

datatype phase = Awaiting_Setup | Serving | Ended "error option"

text \<open>
  \<open>cn_template\<close> and \<open>cn_changed\<close> are the connection's receiver of the watch channel: the value
  last published, and whether it is newer than the one that \<open>changed()\<close> saw. The template at the
  start may already be unseen, because the receiver is a clone of the server's.
\<close>

record connection =
  cn_world :: "connection_state world"
  cn_phase :: phase
  cn_template :: raw_template
  cn_changed :: bool

datatype conn_event =
    Publish raw_template
  | Read_Frame either_frame int
  | Read_Failed
  | Template_Changed "u32 list"

definition connection_start :: "string \<Rightarrow> raw_template \<Rightarrow> bool \<Rightarrow> bool list \<Rightarrow> connection" where
  "connection_start addr template changed faults =
     \<lparr>cn_world = \<lparr>w_state = connection_state_new addr, w_log = [], w_faults = faults\<rparr>,
      cn_phase = Awaiting_Setup, cn_template = template, cn_changed = changed\<rparr>"

definition after_handler :: "connection \<Rightarrow> phase \<Rightarrow> unit outcome \<times> connection_state world \<Rightarrow> connection" where
  "after_handler c ok_phase rw =
     (case rw of
        (Inr _, w) \<Rightarrow> c\<lparr>cn_world := w, cn_phase := ok_phase\<rparr>
      | (Inl e, w) \<Rightarrow> c\<lparr>cn_world := w, cn_phase := Ended (Some e)\<rparr>)"

text \<open>An error of the broadcast is logged and the loop goes on; a panic ends the task.\<close>

definition broadcast :: "crates \<Rightarrow> raw_template \<Rightarrow> u32 list \<Rightarrow> (connection_state, unit) handler" where
  "broadcast L template channel_ids =
     then_do get_state (\<lambda>st.
     then_do (check (alloc_job_id st)) (\<lambda>(job_id, st).
     then_do (put_state st) (\<lambda>_.
     send_jobs_to_all_channels L template job_id channel_ids)))"

definition after_broadcast :: "connection \<Rightarrow> unit outcome \<times> connection_state world \<Rightarrow> connection" where
  "after_broadcast c rw =
     (case rw of
        (Inl (Panic p), w) \<Rightarrow> c\<lparr>cn_world := w, cn_phase := Ended (Some (Panic p))\<rparr>
      | (_, w) \<Rightarrow> c\<lparr>cn_world := w\<rparr>)"

definition connection_step :: "crates \<Rightarrow> codec \<Rightarrow> bool \<Rightarrow> conn_event \<Rightarrow> connection \<Rightarrow> connection" where
  "connection_step L C db ev c =
     (case ev of
        Publish t \<Rightarrow> c\<lparr>cn_template := t, cn_changed := True\<rparr>
      | Read_Frame frame now \<Rightarrow>
          (case cn_phase c of
             Awaiting_Setup \<Rightarrow> after_handler c Serving (handle_setup_connection C frame (cn_world c))
           | Serving \<Rightarrow>
               after_handler c Serving (dispatch_message L C db now frame (cn_template c) (cn_world c))
           | Ended _ \<Rightarrow> c)
      | Read_Failed \<Rightarrow>
          (case cn_phase c of
             Awaiting_Setup \<Rightarrow> c\<lparr>cn_phase := Ended (Some (Bail ''read SetupConnection''))\<rparr>
           | Serving \<Rightarrow> c\<lparr>cn_phase := Ended None\<rparr>
           | Ended _ \<Rightarrow> c)
      | Template_Changed channel_ids \<Rightarrow>
          (if cn_phase c = Serving \<and> cn_changed c then
             after_broadcast (c\<lparr>cn_changed := False\<rparr>)
               (broadcast L (cn_template c) channel_ids (cn_world c))
           else c))"

text \<open>
  What the environment promises: published templates are well formed (\<open>build_raw_template_wf\<close>),
  and the keys of the hash map come once each.
\<close>

definition templates_ok :: "raw_template set \<Rightarrow> bool" where
  "templates_ok T \<longleftrightarrow> (\<forall>t \<in> T. wf_template t)"

definition conn_legal :: "raw_template set \<Rightarrow> conn_event \<Rightarrow> connection \<Rightarrow> bool" where
  "conn_legal T ev c =
     (case ev of
        Publish t \<Rightarrow> t \<in> T
      | Template_Changed ids \<Rightarrow>
          distinct ids \<and> (\<forall>i. i \<in> set ids \<longleftrightarrow> channels (w_state (cn_world c)) i \<noteq> None)
      | _ \<Rightarrow> True)"

section \<open>The invariant\<close>

definition channel_ok :: "crates \<Rightarrow> raw_template set \<Rightarrow> connection_state \<Rightarrow> u32 \<Rightarrow> channel_info \<Rightarrow> bool" where
  "channel_ok L T st cid ch \<longleftrightarrow>
     ch_channel_id ch = cid \<and> unat cid < unat (next_channel_id st) \<and>
     ch_extranonce_prefix ch = le32 cid @ replicate 28 0 \<and> length (ch_channel_target_be ch) = 32 \<and>
     (\<forall>j. ch_current_job ch = Some j \<longrightarrow> unat (ji_job_id j) < unat (next_job_id st) \<and>
       (\<exists>raw \<in> T. job_of L raw (ch_miner_address ch) j))"

definition state_ok :: "crates \<Rightarrow> raw_template set \<Rightarrow> connection_state \<Rightarrow> bool" where
  "state_ok L T st \<longleftrightarrow> (\<forall>cid ch. channels st cid = Some ch \<longrightarrow> channel_ok L T st cid ch)"

text \<open>The jobs sent on a channel, in order.\<close>

fun sent_job :: "effect \<Rightarrow> new_extended_mining_job option" where
  "sent_job (Wrote b (New_Job n)) = Some n"
| "sent_job _ = None"

definition job_ids :: "u32 \<Rightarrow> effect list \<Rightarrow> u32 list" where
  "job_ids cid out = map nj_job_id (filter (\<lambda>n. nj_channel_id n = cid) (List.map_filter sent_job out))"

text \<open>
  A solution is good for the node when its coinbase is the template's with the whole value going
  to the script of a valid address, and the header it completes has a hash within the network
  target.
\<close>

definition solution_header :: "crates \<Rightarrow> raw_template \<Rightarrow> submit_solution_data \<Rightarrow> transaction \<Rightarrow> header" where
  "solution_header L raw sol cb =
     \<lparr>hd_version = ss_version sol, hd_prev_blockhash = sp_prev_hash (rt_set_new_prev_hash raw),
      hd_merkle_root = apply_branch L (compute_txid L cb) (nt_merkle_path (rt_new_template raw)),
      hd_time = ss_header_timestamp sol, hd_bits = sp_n_bits (rt_set_new_prev_hash raw),
      hd_nonce = ss_header_nonce sol\<rparr>"

definition solution_ok :: "crates \<Rightarrow> raw_template set \<Rightarrow> submit_solution_data \<Rightarrow> bool" where
  "solution_ok L T sol \<longleftrightarrow>
     (\<exists>raw \<in> T. \<exists>outs addr ms extranonce. template_outputs raw outs \<and>
       ss_template_id sol = nt_template_id (rt_new_template raw) \<and> address_script L addr = Some ms \<and>
       ss_coinbase_tx sol = enc_tx (miner_coinbase raw ms outs extranonce) \<and>
       hash_value L (solution_header L raw sol (miner_coinbase raw ms outs extranonce))
         \<le> be_nat (compact_to_target_be (sp_n_bits (rt_set_new_prev_hash raw))))"

fun is_ack :: "effect \<Rightarrow> bool" where
  "is_ack (Wrote b (Shares_Success m)) = True"
| "is_ack _ = False"

fun is_report :: "effect \<Rightarrow> bool" where
  "is_report (Db_Sent (Share s)) = True"
| "is_report _ = False"

definition log_ok :: "crates \<Rightarrow> raw_template set \<Rightarrow> bool \<Rightarrow> connection_state \<Rightarrow> effect list \<Rightarrow> bool" where
  "log_ok L T db st out \<longleftrightarrow>
     (\<forall>cid. sorted_wrt (<) (map unat (job_ids cid out)) \<and>
       (\<forall>j \<in> set (job_ids cid out). unat j < unat (next_job_id st))) \<and>
     (\<forall>sol. Solution sol \<in> set out \<longrightarrow> solution_ok L T sol) \<and>
     (\<forall>s. Db_Sent (Share s) \<in> set out \<longrightarrow> length (se_block_hash_be s) = 32) \<and>
     length (filter is_report out) = (if db then length (filter is_ack out) else 0)"

definition world_ok :: "crates \<Rightarrow> raw_template set \<Rightarrow> bool \<Rightarrow> connection_state world \<Rightarrow> bool" where
  "world_ok L T db w \<longleftrightarrow> state_ok L T (w_state w) \<and> log_ok L T db (w_state w) (w_log w)"

definition conn_inv :: "crates \<Rightarrow> raw_template set \<Rightarrow> bool \<Rightarrow> connection \<Rightarrow> bool" where
  "conn_inv L T db c \<longleftrightarrow> cn_template c \<in> T \<and> world_ok L T db (cn_world c)"

section \<open>Every handler keeps it\<close>

lemma job_ids_append [simp]: "job_ids cid (xs @ ys) = job_ids cid xs @ job_ids cid ys"
  by (simp add: job_ids_def List.map_filter_def)

lemma job_ids_simps [simp]:
  "job_ids cid [] = []"
  "job_ids cid (Wrote b (New_Job n) # out) =
     (if nj_channel_id n = cid then nj_job_id n # job_ids cid out else job_ids cid out)"
  "sent_job e = None \<Longrightarrow> job_ids cid (e # out) = job_ids cid out"
  by (simp_all add: job_ids_def List.map_filter_simps)

lemma job_of_fields:
  "job_of L raw addr j \<Longrightarrow>
    ji_template_id j = nt_template_id (rt_new_template raw) \<and>
    ji_merkle_path j = nt_merkle_path (rt_new_template raw) \<and>
    ji_prev_hash j = sp_prev_hash (rt_set_new_prev_hash raw) \<and>
    ji_nbits j = sp_n_bits (rt_set_new_prev_hash raw)"
  by (auto simp: job_of_def build_job_messages_Inr)

lemma state_ok_targets:
  "state_ok L T st \<Longrightarrow> \<forall>ch \<in> ran (channels st). length (ch_channel_target_be ch) = 32"
  by (auto simp: state_ok_def channel_ok_def ran_def)

text \<open>An accepted block of a job from a template is a good solution.\<close>

lemma accepted_solution_ok:
  assumes "serialize_ok L" and "deserialize_ok L" and "state_ok L T st"
    and "judge L st share = Accepted ch job h True" and "templates_ok T"
  shows "solution_ok L T (solution_for ch job share)"
proof -
  obtain t where ch: "channels st (sh_channel_id share) = Some ch" "ch_current_job ch = Some job"
    and t: "deserialize_tx L (share_coinbase ch job share) = Some t" "h = share_header L job share t"
    and le: "hash_value L h \<le> be_nat (compact_to_target_be (ji_nbits job))"
    using assms(4) by (auto simp: judge_def judge_job_def Let_def split: option.splits if_splits)
  obtain raw where T: "raw \<in> T" and job: "job_of L raw (ch_miner_address ch) job"
    and prefix: "length (ch_extranonce_prefix ch) = 32"
    using assms(3) ch by (fastforce simp: state_ok_def channel_ok_def)
  then have raw: "wf_template raw" "job_of L raw (ch_miner_address ch) job"
    using assms(5) by (simp_all add: templates_ok_def)
  obtain outs where outs: "template_outputs raw outs" using raw(1) by (auto simp: wf_template_def)
  let ?e = "build_full_extranonce (ch_extranonce_prefix ch) (sh_extranonce share)"
  obtain ms where ms: "address_script L (ch_miner_address ch) = Some ms"
    and enc: "ji_coinb1 job @ ?e @ ji_coinb2 job = enc_tx (miner_coinbase raw ms outs ?e)"
    and de: "deserialize_tx L (ji_coinb1 job @ ?e @ ji_coinb2 job) = Some (miner_coinbase raw ms outs ?e)"
    using job_coinbase_deserializes [OF assms(1,2) raw(1) outs raw(2) length_full_extranonce [OF prefix]]
    by blast
  have "t = miner_coinbase raw ms outs ?e" using t(1) de by (simp add: share_coinbase_def)
  then have "solution_header L raw (solution_for ch job share) (miner_coinbase raw ms outs ?e) = h"
    using job_of_fields [OF raw(2)] t(2)
    by (simp add: solution_header_def solution_for_def share_header_def)
  with T outs ms enc le job_of_fields [OF raw(2)] show ?thesis
    unfolding solution_ok_def
    by (intro bexI [of _ raw] exI [of _ outs] exI [of _ "ch_miner_address ch"] exI [of _ ms] exI [of _ ?e])
      (simp add: solution_for_def share_coinbase_def)
qed

lemma judged_effects_ok:
  assumes "log_ok L T db st out" and "\<And>ch job h. v = Accepted ch job h True \<Longrightarrow> solution_ok L T (solution_for ch job share)"
    and "hex_ok L"
  shows "log_ok L T db st (out @ verdict_before share v)"
    and "log_ok L T db st (out @ verdict_effects L db share v)"
proof -
  consider "v = Ignored" | "v = Stale" | "v = Low_Difficulty"
    | (block) ch job h where "v = Accepted ch job h True" | (share) ch job h where "v = Accepted ch job h False"
    by (metis (full_types) verdict.exhaust)
  note cases = this
  have report: "length (se_block_hash_be (share_report L ch share h)) = 32" for ch h
    using assms(3) by (simp add: share_report_def hex_ok_def)
  show "log_ok L T db st (out @ verdict_before share v)"
    by (cases rule: cases) (use assms in \<open>auto simp: log_ok_def\<close>)
  show "log_ok L T db st (out @ verdict_effects L db share v)"
    by (cases rule: cases)
      (use assms report in \<open>auto simp: log_ok_def verdict_effects_def share_rejection_def share_ack_def\<close>)
qed

lemma submit_keeps:
  assumes "serialize_ok L" and "deserialize_ok L" and "hex_ok L" and "world_ok L T db w"
    and "templates_ok T"
  shows "world_ok L T db (snd (handle_submit_shares_extended L C db pl w))"
proof (cases "parse_submit_shares_extended C pl")
  case None
  with assms(4) show ?thesis by (simp add: submit_parse_error)
next
  case (Some share)
  let ?v = "judge L (w_state w) share"
  have ok: "state_ok L T (w_state w)" "log_ok L T db (w_state w) (w_log w)"
    using assms(4) by (simp_all add: world_ok_def)
  note eff = judged_effects_ok [OF ok(2) _ assms(3), of ?v share]
  have "solution_ok L T (solution_for ch job share)" if "?v = Accepted ch job h True" for ch job h
    by (rule accepted_solution_ok [OF assms(1,2) ok(1) that assms(5)])
  with eff have "log_ok L T db (w_state w) (w_log w @ verdict_before share ?v)"
    "log_ok L T db (w_state w) (w_log w @ verdict_effects L db share ?v)" by blast+
  with ok show ?thesis
    unfolding submit_refines [OF assms(3) state_ok_targets [OF ok(1)] Some] Let_def
    by (auto simp: world_ok_def split: option.split)
qed

lemma channel_ok_mono:
  assumes "channel_ok L T st cid ch" and "unat (next_channel_id st) \<le> unat (next_channel_id st')"
    and "unat (next_job_id st) \<le> unat (next_job_id st')"
  shows "channel_ok L T st' cid ch"
  using assms by (auto simp: channel_ok_def)

lemma state_ok_mono:
  assumes "state_ok L T st" and "channels st' = channels st"
    and "unat (next_channel_id st) \<le> unat (next_channel_id st')"
    and "unat (next_job_id st) \<le> unat (next_job_id st')"
  shows "state_ok L T st'"
  using assms by (auto simp: state_ok_def intro: channel_ok_mono)

lemma state_ok_insert:
  assumes "state_ok L T st" and "channel_ok L T st cid ch"
  shows "state_ok L T (st\<lparr>channels := (channels st)(cid \<mapsto> ch)\<rparr>)"
  using assms by (auto simp: state_ok_def channel_ok_def)

lemma log_ok_mono:
  "log_ok L T db st out \<Longrightarrow> unat (next_job_id st) \<le> unat (next_job_id st') \<Longrightarrow> log_ok L T db st' out"
  by (auto simp: log_ok_def intro: order_less_le_trans)

lemma log_ok_plain:
  "log_ok L T db st out \<Longrightarrow> sent_job e = None \<Longrightarrow> \<not> is_ack e \<Longrightarrow> \<not> is_report e \<Longrightarrow>
    (\<And>sol. e \<noteq> Solution sol) \<Longrightarrow> log_ok L T db st (out @ [e])"
  by (auto simp: log_ok_def)

lemma log_ok_job:
  assumes "log_ok L T db st out" and "\<forall>j \<in> set (job_ids (nj_channel_id n) out). unat j < unat (nj_job_id n)"
    and "unat (nj_job_id n) < unat (next_job_id st)"
  shows "log_ok L T db st (out @ [Wrote b (New_Job n)])"
  using assms by (auto simp: log_ok_def sorted_wrt_append)

lemma build_job_channel_ok:
  assumes "channel_ok L T st cid ch" and "raw \<in> T" and "build_job_messages L ch job_id raw = Inr (p, n, j)"
    and "unat job_id < unat (next_job_id st)"
  shows "channel_ok L T st cid (ch\<lparr>ch_current_job := Some j\<rparr>)"
  using assms build_job_messages_ids [OF assms(3)] build_job_messages_job_of [OF assms(3)]
  by (auto simp: channel_ok_def)

lemma target_max_length:
  "hashrate_to_target_be h = Inr t \<Longrightarrow>
    target_be_to_sv2 (if x > t then x else t) = Inr t' \<Longrightarrow> length (if x > t then x else t) = 32"
  by (auto simp: target_be_to_sv2_def Let_def split: if_splits)

lemma alloc_channel_keeps:
  assumes "alloc_channel_id st = Inr (i, st')" and "state_ok L T st"
  shows "state_ok L T st'" and "log_ok L T db st' out = log_ok L T db st out"
    and "next_job_id st' = next_job_id st" and "unat i < unat (next_channel_id st')"
    and "channels st' = channels st"
  using assms by (auto simp: outcome_simps unat_incr log_ok_def intro: state_ok_mono)

lemma alloc_job_keeps:
  assumes "alloc_job_id st = Inr (i, st')" and "state_ok L T st" and "log_ok L T db st out"
  shows "state_ok L T st'" and "log_ok L T db st' out" and "unat i < unat (next_job_id st')"
    and "next_channel_id st' = next_channel_id st" and "channels st' = channels st"
    and "\<forall>cid. \<forall>j \<in> set (job_ids cid out). unat j < unat i"
proof -
  have i: "i = next_job_id st" "unat i + 1 < 2 ^ 32" "st' = st\<lparr>next_job_id := i + 1\<rparr>"
    using assms(1) by (auto simp: outcome_simps)
  then show "unat i < unat (next_job_id st')" by (simp add: unat_incr)
  with assms i show "state_ok L T st'" "log_ok L T db st' out"
    by (auto intro: state_ok_mono log_ok_mono)
qed (use assms in \<open>auto simp: outcome_simps log_ok_def\<close>)

text \<open>The two messages of a job whose id is new on the channel.\<close>

lemma job_messages_keep:
  assumes "channel_ok L T st cid ch" and "state_ok L T st" and "log_ok L T db st out" and "raw \<in> T"
    and "build_job_messages L ch job_id raw = Inr (p, n, j)" and "unat job_id < unat (next_job_id st)"
    and "\<forall>j \<in> set (job_ids cid out). unat j < unat job_id"
  defines "st' \<equiv> st\<lparr>channels := (channels st)(cid \<mapsto> ch\<lparr>ch_current_job := Some j\<rparr>)\<rparr>"
  shows "state_ok L T st'" and "log_ok L T db st' out" and "log_ok L T db st' (out @ [Wrote True (New_Job n)])"
    and "log_ok L T db st' (out @ [Wrote True (New_Job n), Wrote True (New_Prev_Hash p)])"
proof -
  have n: "nj_channel_id n = cid" "nj_job_id n = job_id"
    using build_job_messages_ids [OF assms(5)] assms(1) by (auto simp: channel_ok_def)
  show "state_ok L T st'" unfolding st'_def
    by (rule state_ok_insert [OF assms(2) build_job_channel_ok [OF assms(1,4,5,6)]])
  show out: "log_ok L T db st' out" using assms(3) by (auto simp: st'_def log_ok_def)
  show job: "log_ok L T db st' (out @ [Wrote True (New_Job n)])"
    by (rule log_ok_job [OF out]) (use assms(6,7) n in \<open>simp_all add: st'_def\<close>)
  show "log_ok L T db st' (out @ [Wrote True (New_Job n), Wrote True (New_Prev_Hash p)])"
    using log_ok_plain [OF job, of "Wrote True (New_Prev_Hash p)"] by simp
qed

text \<open>A channel as the open handler registers it, before its first job.\<close>

abbreviation fresh_channel :: "u32 \<Rightarrow> string \<Rightarrow> bytes \<Rightarrow> channel_info" where
  "fresh_channel cid addr t \<equiv>
     \<lparr>ch_channel_id = cid, ch_extranonce_prefix = le32 cid @ replicate 28 0, ch_miner_address = addr,
      ch_current_job = None, ch_channel_target_be = t\<rparr>"

lemma fresh_channel_keeps:
  fixes addr :: string
  assumes "alloc_channel_id st0 = Inr (cid, st)" and "state_ok L T st0" and "log_ok L T db st0 out"
    and "length t = 32"
  defines "st2 \<equiv> st\<lparr>channels := (channels st)(cid \<mapsto> fresh_channel cid addr t)\<rparr>"
  shows "channel_ok L T st2 cid (fresh_channel cid addr t)" and "state_ok L T st2"
    and "log_ok L T db st2 (out @ [Wrote False (Open_Success m)])"
proof -
  note st = alloc_channel_keeps [OF assms(1,2)]
  then have ch: "channel_ok L T st cid (fresh_channel cid addr t)" using assms(4) by (simp add: channel_ok_def)
  with st(4) show "channel_ok L T st2 cid (fresh_channel cid addr t)"
    unfolding st2_def by (auto intro: channel_ok_mono)
  show "state_ok L T st2" unfolding st2_def by (rule state_ok_insert [OF st(1) ch])
  have "log_ok L T db st2 out" by (rule log_ok_mono [OF assms(3)]) (use st(3) in \<open>simp add: st2_def\<close>)
  then show "log_ok L T db st2 (out @ [Wrote False (Open_Success m)])" by (rule log_ok_plain) simp_all
qed

lemma fresh_alloc_keeps:
  assumes "alloc_channel_id st0 = Inr (cid, st)" and "state_ok L T st0" and "log_ok L T db st0 out"
    and "length t = 32"
    and "alloc_job_id (st\<lparr>channels := (channels st)(cid \<mapsto> fresh_channel cid addr t)\<rparr>) = Inr (job_id, st3)"
  shows "state_ok L T st3" and "log_ok L T db st3 (out @ [Wrote False (Open_Success m)])"
    and "channel_ok L T st3 cid (fresh_channel cid addr t)" and "unat job_id < unat (next_job_id st3)"
    and "\<forall>j \<in> set (job_ids cid (out @ [Wrote False (Open_Success m)])). unat j < unat job_id"
proof -
  note st2 = fresh_channel_keeps [OF assms(1-4)]
  note st3 = alloc_job_keeps [OF assms(5) st2(2,3)]
  show "channel_ok L T st3 cid (fresh_channel cid addr t)"
    by (rule channel_ok_mono [OF st2(1)]) (use st3 assms(5) in \<open>auto simp: outcome_simps unat_incr\<close>)
qed (use alloc_job_keeps [OF assms(5) fresh_channel_keeps(2,3) [OF assms(1-4)]] in blast)+

lemma fresh_job_keeps:
  assumes "alloc_channel_id st0 = Inr (cid, st)" and "state_ok L T st0" and "log_ok L T db st0 out"
    and "length t = 32" and "raw \<in> T"
    and "alloc_job_id (st\<lparr>channels := (channels st)(cid \<mapsto> fresh_channel cid addr t)\<rparr>) = Inr (job_id, st3)"
    and "build_job_messages L (fresh_channel cid addr t) job_id raw = Inr (p, n, j)"
  defines "st4 \<equiv> st3\<lparr>channels := (channels st3)(cid \<mapsto> (fresh_channel cid addr t)\<lparr>ch_current_job := Some j\<rparr>)\<rparr>"
  shows "state_ok L T st4" and "log_ok L T db st4 (out @ [Wrote False (Open_Success m)])"
    and "log_ok L T db st4 (out @ [Wrote False (Open_Success m), Wrote True (New_Job n)])"
    and "log_ok L T db st4 (out @ [Wrote False (Open_Success m), Wrote True (New_Job n), Wrote True (New_Prev_Hash p)])"
proof -
  note a = fresh_alloc_keeps [OF assms(1-4,6)]
  note k = job_messages_keep [OF a(3,1) a(2) [where m = m] assms(5,7) a(4) a(5) [where m = m], folded st4_def]
  show "state_ok L T st4" "log_ok L T db st4 (out @ [Wrote False (Open_Success m)])" by (rule k(1,2))+
  show "log_ok L T db st4 (out @ [Wrote False (Open_Success m), Wrote True (New_Job n)])"
    "log_ok L T db st4 (out @ [Wrote False (Open_Success m), Wrote True (New_Job n), Wrote True (New_Prev_Hash p)])"
    using k(3,4) by simp_all
qed

lemma open_keeps:
  assumes "world_ok L T db w" and "template \<in> T"
  shows "world_ok L T db (snd (handle_open_extended_mining_channel L C db now pl template w))"
proof -
  have ok: "state_ok L T (w_state w)" "log_ok L T db (w_state w) (w_log w)"
    using assms(1) by (simp_all add: world_ok_def)
  note chan = fresh_channel_keeps [OF _ ok target_max_length]
  note alloc = fresh_alloc_keeps [OF _ ok target_max_length]
  note job = fresh_job_keeps [OF _ ok target_max_length assms(2)]
  have report: "log_ok L T d st (out @ [a, b, c, Db_Sent (Miner_Connected x t)])"
    if "log_ok L T d st (out @ [a, b, c])" for d st out a b c x t
    using log_ok_plain [OF that, of "Db_Sent (Miner_Connected x t)"] by simp
  show ?thesis
    unfolding wp_snd [symmetric] handle_open_extended_mining_channel_def Let_def
    apply (intro wp_intros)
              apply (simp_all only: world_ok_def ok simp_thms)
            apply (simp add: ok alloc_channel_keeps [OF _ ok(1)])
           apply (simp add: ok alloc_channel_keeps [OF _ ok(1)])
          apply (simp add: ok alloc_channel_keeps [OF _ ok(1)])
    subgoal premises p
      using chan [OF p(2) [unfolded p(3)] p(6,7)] p by simp
    subgoal premises p
      using alloc [OF p(2) [unfolded p(3)] p(6,7) p(12) [unfolded p(13)]] p by simp
    subgoal premises p
      using job [OF p(2) [unfolded p(3)] p(6,7) p(12) [unfolded p(13)] p(16) [unfolded p(17,18)]] p by simp
    subgoal premises p
      using job [OF p(2) [unfolded p(3)] p(6,7) p(12) [unfolded p(13)] p(16) [unfolded p(17,18)]] p by simp
    subgoal premises p
      using job [OF p(2) [unfolded p(3)] p(6,7) p(12) [unfolded p(13)] p(16) [unfolded p(17,18)]] p
      by (simp add: report)
    subgoal premises p
      using job [OF p(2) [unfolded p(3)] p(6,7) p(12) [unfolded p(13)] p(16) [unfolded p(17,18)]] p by simp
    done
qed

lemma send_jobs_keeps:
  assumes "world_ok L T db w" and "template \<in> T" and "unat job_id < unat (next_job_id (w_state w))"
    and "distinct ids" and "\<forall>cid \<in> set ids. \<forall>j \<in> set (job_ids cid (w_log w)). unat j < unat job_id"
  shows "wp (send_jobs_to_all_channels L template job_id ids) (\<lambda>_. world_ok L T db) w"
  using assms
proof (induction ids arbitrary: w)
  case Nil
  then show ?case by (simp add: wp_def)
next
  case (Cons cid ids)
  have ok: "state_ok L T (w_state w)" "log_ok L T db (w_state w) (w_log w)"
    using Cons.prems(1) by (simp_all add: world_ok_def)
  have fresh: "\<forall>j \<in> set (job_ids cid (w_log w)). unat j < unat job_id" using Cons.prems(5) by simp
  have chan: "channel_ok L T (w_state w) cid ch"
    if "ok_or e (channels (w_state w) cid) = Inr ch" for ch e
    using that ok(1) by (simp add: state_ok_def)
  note keep = job_messages_keep [OF chan ok Cons.prems(2) _ Cons.prems(3) fresh]
  show ?case
    unfolding send_jobs_to_all_channels.simps
    apply (intro wp_intros)
         apply (rule Cons.prems(1))
        apply (rule Cons.prems(1))
    subgoal premises p using keep [OF p(1) p(2) [unfolded p(3,4)]] p by (simp add: world_ok_def)
    subgoal premises p using keep [OF p(1) p(2) [unfolded p(3,4)]] p by (simp add: world_ok_def)
    subgoal premises p for ch r prev_hash b job job_info w1 w2 w3
    proof (rule Cons.IH [OF _ Cons.prems(2)])
      show "world_ok L T db w3"
        using keep [OF p(1) p(2) [unfolded p(3,4)]] p by (simp add: world_ok_def)
      have "nj_channel_id job = cid"
        using build_job_messages_ids [OF p(2) [unfolded p(3,4)]] chan [OF p(1)] by (simp add: channel_ok_def)
      with p Cons.prems(4,5)
      show "\<forall>cid \<in> set ids. \<forall>j \<in> set (job_ids cid (w_log w3)). unat j < unat job_id" by auto
    qed (use p Cons.prems in auto)
    done
qed

lemma broadcast_keeps:
  assumes "world_ok L T db w" and "template \<in> T" and "distinct ids"
  shows "world_ok L T db (snd (broadcast L template ids w))"
proof -
  have ok: "state_ok L T (w_state w)" "log_ok L T db (w_state w) (w_log w)"
    using assms(1) by (simp_all add: world_ok_def)
  show ?thesis
    unfolding wp_snd [symmetric] broadcast_def
    apply (intro wp_intros)
     apply (rule assms(1))
    subgoal premises p for r job_id st w1
      using alloc_job_keeps [OF p(1) [unfolded p(2)] ok] p(3,4)
      by (intro send_jobs_keeps assms) (auto simp: world_ok_def)
    done
qed

lemma setup_keeps:
  assumes "world_ok L T db w"
  shows "world_ok L T db (snd (handle_setup_connection C frame w))"
proof -
  have quiet: "world_ok L T db (w\<lparr>w_faults := f\<rparr>)" for f
    using assms by (simp add: world_ok_def)
  have plain: "world_ok L T db (w\<lparr>w_log := w_log w @ [Wrote False (Setup_Error x)], w_faults := f\<rparr>)"
    "world_ok L T db (w\<lparr>w_log := w_log w @ [Wrote False (Setup_Success y)], w_faults := f\<rparr>)" for x y f
    using assms by (auto simp: world_ok_def intro!: log_ok_plain)
  show ?thesis
    unfolding wp_snd [symmetric] handle_setup_connection_def
    by (cases frame) (simp_all add: wp_rules assms quiet plain setup_error_def split: sum.split)
qed

lemma dispatch_keeps:
  assumes "serialize_ok L" and "deserialize_ok L" and "hex_ok L" and "world_ok L T db w"
    and "templates_ok T" and "template \<in> T"
  shows "world_ok L T db (snd (dispatch_message L C db now frame template w))"
proof (cases frame)
  case (Hand_Shake bs)
  with assms(4) show ?thesis by (simp add: dispatch_message_def)
next
  case (Sv2 hdr pl)
  with assms show ?thesis
    by (cases hdr) (simp_all add: dispatch_message_def open_keeps submit_keeps)
qed

lemma after_handler_simps [simp]:
  "cn_world (after_handler c p rw) = snd rw" "cn_template (after_handler c p rw) = cn_template c"
  "cn_world (after_broadcast c rw) = snd rw" "cn_template (after_broadcast c rw) = cn_template c"
  by (auto simp: after_handler_def after_broadcast_def split: prod.splits sum.splits error.splits)

lemma connection_step_keeps:
  assumes "serialize_ok L" and "deserialize_ok L" and "hex_ok L" and "conn_inv L T db c"
    and "templates_ok T" and "conn_legal T ev c"
  shows "conn_inv L T db (connection_step L C db ev c)"
  using assms
  by (cases ev; cases "cn_phase c")
    (simp_all add: connection_step_def conn_inv_def conn_legal_def setup_keeps dispatch_keeps broadcast_keeps)

lemma connection_start_inv: "t \<in> T \<Longrightarrow> conn_inv L T db (connection_start addr t changed faults)"
  by (simp add: conn_inv_def connection_start_def world_ok_def state_ok_def connection_state_new_def log_ok_def)

section \<open>The loop meets its contract\<close>

definition crates_ok :: "crates \<Rightarrow> bool" where
  "crates_ok L \<longleftrightarrow> serialize_ok L \<and> deserialize_ok L \<and> hex_ok L"

interpretation connection_loop:
  event_loop "\<lambda>c. crates_ok L \<and> templates_ok T \<and> conn_inv L T db c" "conn_legal T" "connection_step L C db"
  for L T C db
  by unfold_locales (auto simp: crates_ok_def connection_step_keeps)

text \<open>The connection after the events \<open>es\<close>, and what every legal run of it satisfies.\<close>

definition connection_run ::
    "crates \<Rightarrow> codec \<Rightarrow> bool \<Rightarrow> string \<Rightarrow> raw_template \<Rightarrow> bool \<Rightarrow> bool list \<Rightarrow> conn_event list \<Rightarrow> connection" where
  "connection_run L C db addr t changed faults es =
     fold (connection_step L C db) es (connection_start addr t changed faults)"

lemma run_world_ok:
  assumes "crates_ok L" and "templates_ok T" and "t \<in> T"
    and "legal_run (conn_legal T) (connection_step L C db) es (connection_start addr t changed faults)"
  shows "world_ok L T db (cn_world (connection_run L C db addr t changed faults es))"
  using connection_loop.run_inv [of L T db "connection_start addr t changed faults" C es]
    assms connection_start_inv [OF assms(3)]
  by (simp add: connection_run_def conn_inv_def)

section \<open>Shares of a job of the pool\<close>

text \<open>
  The current job of a channel is always one that the pool built, so a share for it is judged by
  the hash of the header over the coinbase that pays the channel's address.
\<close>

lemma judge_pool_job:
  assumes "serialize_ok L" and "deserialize_ok L" and "wf_template raw" and "template_outputs raw outs"
    and "job_of L raw (ch_miner_address ch) job" and "length (ch_extranonce_prefix ch) = 32"
  shows "\<exists>ms. address_script L (ch_miner_address ch) = Some ms \<and>
    (let cb = miner_coinbase raw ms outs
        (build_full_extranonce (ch_extranonce_prefix ch) (sh_extranonce share));
      h = share_header L job share cb
     in share_coinbase ch job share = enc_tx cb \<and>
       judge_job L ch job share =
         (if hash_value L h > be_nat (ch_channel_target_be ch) then Low_Difficulty
          else Accepted ch job h (hash_value L h \<le> be_nat (compact_to_target_be (ji_nbits job)))))"
  using job_coinbase_deserializes [OF assms(1-5) length_full_extranonce [OF assms(6)], of "sh_extranonce share"]
  by (auto simp: judge_job_def share_coinbase_def Let_def)

end
