(* ===== verification/Delivery.thy ===== *)
theory Delivery
  imports Connection
begin

text \<open>
  What the other handlers promise when nothing fails: the reply to a setup message, the reply,
  channel and first job of an opened channel, and the delivery of a job to every channel by the
  broadcast. Each result is the complete world after the handler, not a part of it.
\<close>

section \<open>SetupConnection\<close>

definition setup_acceptable :: "setup_connection \<Rightarrow> bool" where
  "setup_acceptable msg \<longleftrightarrow>
     sc_protocol msg = Mining_Protocol \<and> sc_min_version msg \<le> 2 \<and> 2 \<le> sc_max_version msg"

fun setup_reply :: "codec \<Rightarrow> either_frame \<Rightarrow> server_message option" where
  "setup_reply C (Sv2 (Some mt) pl) =
     (if mt \<noteq> MESSAGE_TYPE_SETUP_CONNECTION C then Some (setup_error ''unsupported-message'')
      else
        (case parse_setup_connection C pl of
           None \<Rightarrow> None
         | Some msg \<Rightarrow> Some
            (if sc_protocol msg \<noteq> Mining_Protocol then setup_error ''unsupported-protocol''
             else if setup_acceptable msg then Setup_Success \<lparr>ok_used_version = 2, ok_flags = 2\<rparr>
             else setup_error ''protocol-version-mismatch'')))"
| "setup_reply C _ = None"

lemma setup_result:
  "handle_setup_connection C frame w =
    (case setup_reply C frame of
       None \<Rightarrow> (fst (handle_setup_connection C frame w), w)
     | Some m \<Rightarrow> (fst (handle_setup_connection C frame w),
        if next_fails w then w\<lparr>w_faults := tl (w_faults w)\<rparr>
        else w\<lparr>w_log := w_log w @ [Wrote False m], w_faults := tl (w_faults w)\<rparr>))"
proof (cases frame)
  case (Sv2 hdr pl)
  then show ?thesis
    by (cases hdr) (auto simp: handle_setup_connection_def setup_acceptable_def then_write write_fails
        write_succeeds not_less split: option.splits)
qed (simp add: handle_setup_connection_def)

lemma setup_ok_iff:
  "fst (handle_setup_connection C frame w) = Inr () \<longleftrightarrow>
    \<not> next_fails w \<and> (\<exists>pl msg. frame = Sv2 (Some (MESSAGE_TYPE_SETUP_CONNECTION C)) pl \<and>
      parse_setup_connection C pl = Some msg \<and> setup_acceptable msg)"
proof (cases frame)
  case (Sv2 hdr pl)
  then show ?thesis
    by (cases hdr; cases "parse_setup_connection C pl")
      (auto simp: handle_setup_connection_def setup_acceptable_def then_write write_fails
        write_succeeds not_less)
qed (simp add: handle_setup_connection_def)

section \<open>OpenExtendedMiningChannel\<close>

definition channel_target :: "bytes \<Rightarrow> raw_template \<Rightarrow> bytes" where
  "channel_target t template =
     (let network = compact_to_target_be (sp_n_bits (rt_set_new_prev_hash template)) in
      if network > t then network else t)"

definition opened_channel :: "u32 \<Rightarrow> string \<Rightarrow> bytes \<Rightarrow> job_info \<Rightarrow> channel_info" where
  "opened_channel cid addr target j =
     \<lparr>ch_channel_id = cid, ch_extranonce_prefix = le32 cid @ replicate 28 0, ch_miner_address = addr,
      ch_current_job = Some j, ch_channel_target_be = target\<rparr>"

definition open_effects ::
    "bool \<Rightarrow> int \<Rightarrow> open_extended_mining_channel \<Rightarrow> u32 \<Rightarrow> string \<Rightarrow> bytes \<Rightarrow>
     new_extended_mining_job \<Rightarrow> mining_set_new_prev_hash \<Rightarrow> effect list" where
  "open_effects db now msg cid addr target n p =
     [Wrote False (Open_Success
        \<lparr>os_request_id = oc_request_id msg, os_channel_id = cid, os_target = rev target,
         os_extranonce_size = 4, os_extranonce_prefix = le32 cid @ replicate 28 0,
         os_group_channel_id = 0\<rparr>),
      Wrote True (New_Job n), Wrote True (New_Prev_Hash p)] @
     (if db then [Db_Sent (Miner_Connected addr now)] else [])"

lemma length_channel_target [simp, len_simps]: "length t = 32 \<Longrightarrow> length (channel_target t template) = 32"
  by (simp add: channel_target_def Let_def)

lemma channel_target_max:
  "length t = 32 \<Longrightarrow> be_nat (channel_target t template) =
    max (be_nat t) (be_nat (compact_to_target_be (sp_n_bits (rt_set_new_prev_hash template))))"
  using array_view.clamp_max [of t "compact_to_target_be (sp_n_bits (rt_set_new_prev_hash template))"]
  by (simp add: channel_target_def Let_def)

lemma open_result:
  fixes L :: crates and template :: raw_template
  assumes "parse_open_extended_mining_channel C pl = Some msg"
    and "unat (next_channel_id (w_state w)) + 1 < 2 ^ 32" and "unat (next_job_id (w_state w)) + 1 < 2 ^ 32"
    and "hashrate_to_target_be (oc_nominal_hash_rate msg) = Inr t" and "length t = 32"
    and "w_faults w = []"
  defines "cid \<equiv> next_channel_id (w_state w)" and "jid \<equiv> next_job_id (w_state w)"
    and "addr \<equiv> parse_miner_address L (oc_user_identity msg) (pool_address (w_state w))"
    and "target \<equiv> channel_target t template"
  assumes "build_job_messages L \<lparr>ch_channel_id = cid, ch_extranonce_prefix = le32 cid @ replicate 28 0,
      ch_miner_address = addr, ch_current_job = None, ch_channel_target_be = target\<rparr> jid template
      = Inr (p, n, j)"
  shows "handle_open_extended_mining_channel L C db now pl template w =
    (Inr (), w\<lparr>w_state := (w_state w)\<lparr>next_channel_id := cid + 1, next_job_id := jid + 1,
        channels := (channels (w_state w))(cid \<mapsto> opened_channel cid addr target j)\<rparr>,
      w_log := w_log w @ open_effects db now msg cid addr target n p\<rparr>)"
proof -
  let ?st1 = "(w_state w)\<lparr>next_channel_id := cid + 1\<rparr>"
  let ?ch = "\<lparr>ch_channel_id = cid, ch_extranonce_prefix = le32 cid @ replicate 28 0,
      ch_miner_address = addr, ch_current_job = None, ch_channel_target_be = target\<rparr>"
  let ?st2 = "?st1\<lparr>channels := (channels ?st1)(cid \<mapsto> ?ch)\<rparr>"
  have alloc: "alloc_channel_id (w_state w) = Inr (cid, ?st1)"
    "alloc_job_id ?st2 = Inr (jid, ?st2\<lparr>next_job_id := jid + 1\<rparr>)"
    using assms(2,3) by (simp_all add: outcome_simps cid_def jid_def)
  have target: "target_be_to_sv2 target = Inr (rev target)" "(if t < compact_to_target_be
      (sp_n_bits (rt_set_new_prev_hash template)) then compact_to_target_be
      (sp_n_bits (rt_set_new_prev_hash template)) else t) = target"
    using assms(5) by (simp_all add: target_be_to_sv2_def target_def channel_target_def Let_def)
  show ?thesis
    unfolding handle_open_extended_mining_channel_def Let_def
    using assms(1,4,6,11)
    by (simp add: alloc(1) alloc(2) [simplified] target then_write opened_channel_def open_effects_def
        flip: addr_def del: fun_upd_apply)
qed

text \<open>An opened channel, whatever its declared hashrate, as long as it is finite.\<close>

lemma open_served:
  fixes L :: crates and template :: raw_template
  assumes "serialize_ok L" and "wf_template template"
    and "parse_open_extended_mining_channel C pl = Some msg" and "finite_f32 (oc_nominal_hash_rate msg)"
    and "unat (next_channel_id (w_state w)) + 1 < 2 ^ 32" and "unat (next_job_id (w_state w)) + 1 < 2 ^ 32"
    and "addr = parse_miner_address L (oc_user_identity msg) (pool_address (w_state w))"
    and "address_script L addr = Some ms"
    and "68 + length ms + length (nt_coinbase_tx_outputs (rt_new_template template)) \<le> 65535"
    and "w_faults w = []"
    and "cid = next_channel_id (w_state w)" and "jid = next_job_id (w_state w)"
  shows "\<exists>target p n j. length target = 32 \<and>
    be_nat target = max (pdiff1 div share_difficulty (oc_nominal_hash_rate msg))
      (be_nat (compact_to_target_be (sp_n_bits (rt_set_new_prev_hash template)))) \<and>
    build_job_messages L ((opened_channel cid addr target j)\<lparr>ch_current_job := None\<rparr>) jid template = Inr (p, n, j) \<and>
    handle_open_extended_mining_channel L C db now pl template w =
      (Inr (), w\<lparr>w_state := (w_state w)\<lparr>next_channel_id := cid + 1, next_job_id := jid + 1,
          channels := (channels (w_state w))(cid \<mapsto> opened_channel cid addr target j)\<rparr>,
        w_log := w_log w @ open_effects db now msg cid addr target n p\<rparr>)"
proof -
  obtain t where t: "hashrate_to_target_be (oc_nominal_hash_rate msg) = Inr t" "length t = 32"
    "be_nat t = pdiff1 div share_difficulty (oc_nominal_hash_rate msg)"
    using hashrate_to_target_finite [OF assms(4)] by blast
  let ?target = "channel_target t template"
  let ?ch = "\<lparr>ch_channel_id = cid, ch_extranonce_prefix = le32 cid @ replicate 28 0,
      ch_miner_address = addr, ch_current_job = None, ch_channel_target_be = ?target\<rparr>"
  obtain p n j where job: "build_job_messages L ?ch jid template = Inr (p, n, j)"
    using build_job_messages_total [OF assms(2,1), of ?ch ms jid] assms(8,9) by auto
  have "handle_open_extended_mining_channel L C db now pl template w =
      (Inr (), w\<lparr>w_state := (w_state w)\<lparr>next_channel_id := cid + 1, next_job_id := jid + 1,
          channels := (channels (w_state w))(cid \<mapsto> opened_channel cid addr ?target j)\<rparr>,
        w_log := w_log w @ open_effects db now msg cid addr ?target n p\<rparr>)"
    using open_result [OF assms(3,5,6) t(1,2) assms(10), of L template p n j db now] job
    unfolding assms(7,11,12) by simp
  with t job show ?thesis
    by (intro exI [of _ ?target] exI [of _ p] exI [of _ n] exI [of _ j])
      (simp add: channel_target_max opened_channel_def)
qed

section \<open>The broadcast\<close>

definition assign_job :: "crates \<Rightarrow> u32 \<Rightarrow> raw_template \<Rightarrow> channel_info \<Rightarrow> channel_info" where
  "assign_job L job_id raw ch =
     (case build_job_messages L ch job_id raw of
        Inr (p, n, j) \<Rightarrow> ch\<lparr>ch_current_job := Some j\<rparr>
      | Inl _ \<Rightarrow> ch)"

definition job_pair :: "crates \<Rightarrow> u32 \<Rightarrow> raw_template \<Rightarrow> channel_info \<Rightarrow> effect list" where
  "job_pair L job_id raw ch =
     (case build_job_messages L ch job_id raw of
        Inr (p, n, j) \<Rightarrow> [Wrote True (New_Job n), Wrote True (New_Prev_Hash p)]
      | Inl _ \<Rightarrow> [])"

lemma send_jobs_result:
  assumes "distinct ids" and "w_faults w = []"
    and "\<forall>cid \<in> set ids. \<exists>ch pnj. channels (w_state w) cid = Some ch \<and> build_job_messages L ch job_id raw = Inr pnj"
  shows "send_jobs_to_all_channels L raw job_id ids w =
    (Inr (), w\<lparr>w_state := (w_state w)\<lparr>channels := (\<lambda>cid. if cid \<in> set ids
        then map_option (assign_job L job_id raw) (channels (w_state w) cid) else channels (w_state w) cid)\<rparr>,
      w_log := w_log w @ concat (map (\<lambda>cid. job_pair L job_id raw (the (channels (w_state w) cid))) ids)\<rparr>)"
  using assms
proof (induction ids arbitrary: w)
  case Nil
  then show ?case by simp
next
  case (Cons cid ids)
  obtain ch p n j where ch: "channels (w_state w) cid = Some ch"
    and b: "build_job_messages L ch job_id raw = Inr (p, n, j)"
    using Cons.prems(3) by fastforce
  define w1 where "w1 = w\<lparr>w_state := (w_state w)\<lparr>channels := (channels (w_state w))(cid \<mapsto> ch\<lparr>ch_current_job := Some j\<rparr>)\<rparr>,
    w_log := w_log w @ [Wrote True (New_Job n), Wrote True (New_Prev_Hash p)]\<rparr>"
  have "send_jobs_to_all_channels L raw job_id (cid # ids) w = send_jobs_to_all_channels L raw job_id ids w1"
    using ch b Cons.prems(2) by (cases w) (simp add: then_write w1_def)
  also have "\<dots> = (Inr (), w1\<lparr>w_state := (w_state w1)\<lparr>channels := (\<lambda>i. if i \<in> set ids
        then map_option (assign_job L job_id raw) (channels (w_state w1) i) else channels (w_state w1) i)\<rparr>,
      w_log := w_log w1 @ concat (map (\<lambda>i. job_pair L job_id raw (the (channels (w_state w1) i))) ids)\<rparr>)"
    by (rule Cons.IH) (use Cons.prems in \<open>auto simp: w1_def\<close>)
  also have "(\<lambda>i. if i \<in> set ids then map_option (assign_job L job_id raw) (channels (w_state w1) i)
      else channels (w_state w1) i) =
    (\<lambda>i. if i \<in> set (cid # ids) then map_option (assign_job L job_id raw) (channels (w_state w) i)
      else channels (w_state w) i)"
    using ch b Cons.prems(1) by (auto simp: w1_def assign_job_def fun_eq_iff)
  also have "map (\<lambda>i. job_pair L job_id raw (the (channels (w_state w1) i))) ids =
      map (\<lambda>i. job_pair L job_id raw (the (channels (w_state w) i))) ids"
    using Cons.prems(1) by (auto simp: w1_def)
  finally show ?case using ch b by (simp add: w1_def job_pair_def)
qed

lemma broadcast_result:
  assumes "serialize_ok L" and "wf_template template" and "w_faults w = []"
    and "unat (next_job_id (w_state w)) + 1 < 2 ^ 32"
    and "distinct ids" and "\<forall>i. i \<in> set ids \<longleftrightarrow> channels (w_state w) i \<noteq> None"
    and "\<forall>ch \<in> ran (channels (w_state w)). \<exists>ms. address_script L (ch_miner_address ch) = Some ms \<and>
      68 + length ms + length (nt_coinbase_tx_outputs (rt_new_template template)) \<le> 65535"
    and "jid = next_job_id (w_state w)"
  shows "broadcast L template ids w =
      (Inr (), w\<lparr>w_state := (w_state w)\<lparr>next_job_id := jid + 1,
          channels := (\<lambda>cid. map_option (assign_job L jid template) (channels (w_state w) cid))\<rparr>,
        w_log := w_log w @ concat (map (\<lambda>cid. job_pair L jid template (the (channels (w_state w) cid))) ids)\<rparr>) \<and>
    (\<forall>ch \<in> ran (channels (w_state w)). \<exists>p n j. build_job_messages L ch jid template = Inr (p, n, j) \<and>
      assign_job L jid template ch = ch\<lparr>ch_current_job := Some j\<rparr> \<and> ji_job_id j = jid \<and>
      job_pair L jid template ch = [Wrote True (New_Job n), Wrote True (New_Prev_Hash p)])"
proof -
  have job: "\<exists>p n j. build_job_messages L ch jid template = Inr (p, n, j)"
    if "ch \<in> ran (channels (w_state w))" for ch
    using assms(7) that build_job_messages_total [OF assms(2,1)] by blast
  let ?w1 = "w\<lparr>w_state := (w_state w)\<lparr>next_job_id := jid + 1\<rparr>\<rparr>"
  have alloc: "alloc_job_id (w_state w) = Inr (jid, (w_state w)\<lparr>next_job_id := jid + 1\<rparr>)"
    using assms(4,8) by (simp add: outcome_simps)
  have "\<forall>cid \<in> set ids. \<exists>ch pnj. channels (w_state ?w1) cid = Some ch \<and> build_job_messages L ch jid template = Inr pnj"
    using assms(6) job by (fastforce intro: ranI)
  moreover have "(\<lambda>cid. if cid \<in> set ids then map_option (assign_job L jid template) (channels (w_state ?w1) cid)
      else channels (w_state ?w1) cid) = (\<lambda>cid. map_option (assign_job L jid template) (channels (w_state w) cid))"
    using assms(6) by (auto simp: fun_eq_iff)
  ultimately have "send_jobs_to_all_channels L template jid ids ?w1 = (Inr (), ?w1\<lparr>
      w_state := (w_state ?w1)\<lparr>channels := (\<lambda>cid. map_option (assign_job L jid template) (channels (w_state w) cid))\<rparr>,
      w_log := w_log w @ concat (map (\<lambda>cid. job_pair L jid template (the (channels (w_state w) cid))) ids)\<rparr>)"
    using send_jobs_result [OF assms(5), of ?w1 L jid template] assms(3) by simp
  with job show ?thesis
    by (fastforce simp: broadcast_def alloc assign_job_def job_pair_def dest: build_job_messages_ids)
qed

end
