(* ===== verification/Sample_Run.thy ===== *)
theory Sample_Run
  imports Connection Delivery
begin

text \<open>
  A concrete run of a connection: a setup message, an opened channel and a share that is a block.
  The properties of the server are applied to it. The crates are those of \<open>sample_crates\<close>, whose
  block hash is the nonce; the parsers return the same message for every payload.
\<close>

definition sample_output :: txout where
  "sample_output = \<lparr>txo_value = 0, txo_script = [0x6a]\<rparr>"

definition sample_template :: raw_template where
  "sample_template =
     \<lparr>rt_new_template =
        \<lparr>nt_template_id = 0, nt_future_template = True, nt_version = 0x20000000,
         nt_coinbase_tx_version = 2, nt_coinbase_prefix = [1, 2],
         nt_coinbase_tx_input_sequence = 0xffffffff, nt_coinbase_tx_value_remaining = 5000000000,
         nt_coinbase_tx_outputs_count = 1, nt_coinbase_tx_outputs = enc_txout sample_output,
         nt_coinbase_tx_locktime = 0, nt_merkle_path = [replicate 32 5]\<rparr>,
      rt_set_new_prev_hash =
        \<lparr>sp_template_id = 0, sp_prev_hash = replicate 32 9, sp_header_timestamp = 1700000000,
         sp_n_bits = 0x207fffff, sp_target = replicate 32 255\<rparr>\<rparr>"

definition sample_setup :: setup_connection where
  "sample_setup = \<lparr>sc_protocol = Mining_Protocol, sc_min_version = 2, sc_max_version = 2\<rparr>"

definition sample_open :: open_extended_mining_channel where
  "sample_open = \<lparr>oc_request_id = 1, oc_user_identity = ''bc1q.worker'', oc_nominal_hash_rate = Fin 1000\<rparr>"

definition sample_share :: submit_shares_extended where
  "sample_share = \<lparr>sh_channel_id = 0, sh_sequence_number = 3, sh_job_id = 1, sh_nonce = 4,
     sh_ntime = 1700000001, sh_version = 0x20000000, sh_extranonce = [1, 2, 3, 4]\<rparr>"

definition sample_codec :: codec where
  "sample_codec =
     \<lparr>parse_setup_connection = (\<lambda>_. Some sample_setup),
      parse_open_extended_mining_channel = (\<lambda>_. Some sample_open),
      parse_submit_shares_extended = (\<lambda>_. Some sample_share),
      MESSAGE_TYPE_SETUP_CONNECTION = 0x00, MESSAGE_TYPE_OPEN_EXTENDED_MINING_CHANNEL = 0x13,
      MESSAGE_TYPE_SUBMIT_SHARES_EXTENDED = 0x1b\<rparr>"

definition sample_events :: "conn_event list" where
  "sample_events = [Read_Frame (Sv2 (Some 0x00) []) 0, Read_Frame (Sv2 (Some 0x13) []) 10,
     Read_Frame (Sv2 (Some 0x1b) []) 20]"

section \<open>The parts of the run\<close>

lemma sample_crates_all_ok: "crates_ok sample_crates"
  using sample_crates_ok by (simp add: crates_ok_def)

lemma sample_outputs: "template_outputs sample_template [sample_output]"
  by (simp add: template_outputs_def sample_template_def sample_output_def)

lemma sample_template_wf: "wf_template sample_template"
  using sample_outputs
  by (auto simp: wf_template_def sample_template_def enc_txout_def enc_blob_def sample_output_def
      compact_size_def)

lemma sample_templates_ok: "templates_ok {sample_template}"
  using sample_template_wf by (simp add: templates_ok_def)

lemma sample_parsers [simp]:
  "parse_setup_connection sample_codec pl = Some sample_setup"
  "parse_open_extended_mining_channel sample_codec pl = Some sample_open"
  "parse_submit_shares_extended sample_codec pl = Some sample_share"
  "MESSAGE_TYPE_SETUP_CONNECTION sample_codec = 0x00"
  "MESSAGE_TYPE_OPEN_EXTENDED_MINING_CHANNEL sample_codec = 0x13"
  "MESSAGE_TYPE_SUBMIT_SHARES_EXTENDED sample_codec = 0x1b"
  by (simp_all add: sample_codec_def)

lemma sample_address:
  "parse_miner_address sample_crates ''bc1q.worker'' pool = ''bc1q''"
  "address_script sample_crates ''bc1q'' = Some [98, 99, 49, 113]"
  by (simp_all add: parse_miner_address_def script_from_address_def sample_crates_def)

lemma sample_events_legal: "legal_run (conn_legal {sample_template}) (connection_step L C db) sample_events c"
  by (simp add: sample_events_def conn_legal_def)

lemma sample_job:
  obtains p n j where "build_job_messages sample_crates
    \<lparr>ch_channel_id = 0, ch_extranonce_prefix = le32 0 @ replicate 28 0, ch_miner_address = ''bc1q'',
     ch_current_job = None, ch_channel_target_be = target\<rparr> 1 sample_template = Inr (p, n, j)"
  using build_job_messages_total [OF sample_template_wf sample_crates_ok(1),
      of "\<lparr>ch_channel_id = 0, ch_extranonce_prefix = le32 0 @ replicate 28 0, ch_miner_address = ''bc1q'',
        ch_current_job = None, ch_channel_target_be = target\<rparr>" "[98, 99, 49, 113]" 1]
  by (auto simp: sample_address sample_template_def enc_txout_def enc_blob_def sample_output_def
      compact_size_def)

lemma sample_hash_value: "hash_value sample_crates h = unat (hd_nonce h)"
proof -
  have "le_nat (bs @ replicate k 0) = le_nat bs" for bs k
    by (induction bs) (simp_all add: byte_simps)
  then have "le_nat (pad32 (le32 w)) = le_nat (le32 w)" for w by (simp add: pad32_def)
  also have "le_nat (le32 w) = unat w" for w :: u32
    unfolding le32_def le_nat_le_bytes using unat_width(2) by (rule mod_less)
  finally show ?thesis by (simp add: hash_value_def sample_crates_def)
qed

lemma sample_network_target: "4 < be_nat (compact_to_target_be 0x207fffff)"
proof -
  have "(0x207fffff :: u32) AND 0x007fffff = 0x7fffff" by simp
  then show ?thesis unfolding compact_target_nat Let_def by simp
qed

section \<open>The run\<close>

text \<open>The world when the setup message has been answered, and when the channel is open.\<close>

definition sample_world1 :: "connection_state world" where
  "sample_world1 =
     \<lparr>w_state = connection_state_new ''bc1pool'',
      w_log = [Wrote False (Setup_Success \<lparr>ok_used_version = 2, ok_flags = 2\<rparr>)], w_faults = []\<rparr>"

definition sample_world2 ::
    "bytes \<Rightarrow> new_extended_mining_job \<Rightarrow> mining_set_new_prev_hash \<Rightarrow> job_info \<Rightarrow> connection_state world" where
  "sample_world2 target n p j =
     sample_world1\<lparr>w_state := (connection_state_new ''bc1pool'')\<lparr>next_channel_id := 1, next_job_id := 2,
         channels := [0 \<mapsto> opened_channel 0 ''bc1q'' target j]\<rparr>,
       w_log := w_log sample_world1 @ open_effects True 10 sample_open 0 ''bc1q'' target n p\<rparr>"

lemma sample_world1_ok: "world_ok sample_crates {sample_template} True sample_world1"
  by (simp add: world_ok_def sample_world1_def state_ok_def connection_state_new_def log_ok_def)

lemma sample_open_world:
  obtains t p n j where "length t = 32"
    "build_job_messages sample_crates
      \<lparr>ch_channel_id = 0, ch_extranonce_prefix = le32 0 @ replicate 28 0, ch_miner_address = ''bc1q'',
       ch_current_job = None, ch_channel_target_be = channel_target t sample_template\<rparr> 1 sample_template
      = Inr (p, n, j)"
    "dispatch_message sample_crates sample_codec True 10 (Sv2 (Some 0x13) []) sample_template sample_world1 =
      (Inr (), sample_world2 (channel_target t sample_template) n p j)"
    "state_ok sample_crates {sample_template} (w_state (sample_world2 (channel_target t sample_template) n p j))"
proof -
  obtain t where t: "hashrate_to_target_be (Fin 1000) = Inr t" "length t = 32"
    using hashrate_to_target_finite [of "Fin 1000"] by (auto simp: finite_f32_def)
  obtain p n j where job: "build_job_messages sample_crates
      \<lparr>ch_channel_id = 0, ch_extranonce_prefix = le32 0 @ replicate 28 0, ch_miner_address = ''bc1q'',
       ch_current_job = None, ch_channel_target_be = channel_target t sample_template\<rparr> 1 sample_template
      = Inr (p, n, j)"
    by (rule sample_job)
  have *: "handle_open_extended_mining_channel sample_crates sample_codec True 10 [] sample_template sample_world1 =
      (Inr (), sample_world2 (channel_target t sample_template) n p j)"
    using open_result [of sample_codec "[]" sample_open sample_world1 t sample_crates sample_template p n j True 10]
      t job
    by (simp add: sample_open_def sample_world1_def sample_world2_def connection_state_new_def sample_address)
  moreover have "state_ok sample_crates {sample_template} (w_state (sample_world2 (channel_target t sample_template) n p j))"
    using open_keeps [OF sample_world1_ok singletonI, of sample_codec 10 "[]"]
    by (simp add: * world_ok_def)
  ultimately show thesis using t job by (intro that [of t p n j]) (simp_all add: dispatch_message_def)
qed

lemma sample_verdict:
  assumes "length t = 32"
    and "build_job_messages sample_crates
      \<lparr>ch_channel_id = 0, ch_extranonce_prefix = le32 0 @ replicate 28 0, ch_miner_address = ''bc1q'',
       ch_current_job = None, ch_channel_target_be = channel_target t sample_template\<rparr> 1 sample_template
      = Inr (p, n, j)"
  shows "\<exists>h. judge sample_crates (w_state (sample_world2 (channel_target t sample_template) n p j)) sample_share =
    Accepted (opened_channel 0 ''bc1q'' (channel_target t sample_template) j) j h True"
proof -
  let ?ch = "opened_channel 0 ''bc1q'' (channel_target t sample_template) j"
  have j: "job_of sample_crates sample_template ''bc1q'' j" "ji_job_id j = 1"
    using build_job_messages_job_of [OF assms(2)] build_job_messages_ids [OF assms(2)] by simp_all
  have bits: "ji_nbits j = 0x207fffff"
    using job_of_fields [OF j(1)] by (simp add: sample_template_def)
  have low: "hash_value sample_crates (share_header sample_crates j sample_share tx) = 4" for tx
    by (simp add: sample_hash_value share_header_def sample_share_def)
  have "4 < be_nat (channel_target t sample_template)"
    using sample_network_target
    by (simp add: channel_target_max [OF assms(1)] sample_template_def less_max_iff_disj)
  with sample_network_target bits low
    judge_pool_job [OF sample_crates_ok(1,2) sample_template_wf sample_outputs, of ?ch j sample_share] j
  have "\<exists>h. judge_job sample_crates ?ch j sample_share = Accepted ?ch j h True"
    by (auto simp: opened_channel_def Let_def)
  with j(2) show ?thesis
    by (simp add: judge_def sample_world2_def sample_share_def opened_channel_def)
qed

lemma sample_run_log:
  obtains target n p j h where
    "w_log (cn_world (connection_run sample_crates sample_codec True ''bc1pool'' sample_template False []
       sample_events)) =
     [Wrote False (Setup_Success \<lparr>ok_used_version = 2, ok_flags = 2\<rparr>)] @
     open_effects True 10 sample_open 0 ''bc1q'' target n p @
     verdict_effects sample_crates True sample_share
       (Accepted (opened_channel 0 ''bc1q'' target j) j h True)"
    and "channels (w_state (cn_world (connection_run sample_crates sample_codec True ''bc1pool''
       sample_template False [] sample_events))) = [0 \<mapsto> opened_channel 0 ''bc1q'' target j]"
    and "cn_phase (connection_run sample_crates sample_codec True ''bc1pool'' sample_template False [] sample_events) = Serving"
    and "w_faults (cn_world (connection_run sample_crates sample_codec True ''bc1pool'' sample_template False []
       sample_events)) = []"
    and "next_job_id (w_state (cn_world (connection_run sample_crates sample_codec True ''bc1pool'' sample_template
       False [] sample_events))) = 2"
proof -
  obtain t p n j where t: "length t = 32"
    and job: "build_job_messages sample_crates
      \<lparr>ch_channel_id = 0, ch_extranonce_prefix = le32 0 @ replicate 28 0, ch_miner_address = ''bc1q'',
       ch_current_job = None, ch_channel_target_be = channel_target t sample_template\<rparr> 1 sample_template
      = Inr (p, n, j)"
    and opened: "dispatch_message sample_crates sample_codec True 10 (Sv2 (Some 0x13) []) sample_template sample_world1 =
      (Inr (), sample_world2 (channel_target t sample_template) n p j)"
    by (rule sample_open_world)
  let ?target = "channel_target t sample_template"
  let ?w2 = "sample_world2 ?target n p j"
  obtain h where v: "judge sample_crates (w_state ?w2) sample_share =
      Accepted (opened_channel 0 ''bc1q'' ?target j) j h True"
    using sample_verdict [OF t job] by blast
  have "\<forall>ch \<in> ran (channels (w_state ?w2)). length (ch_channel_target_be ch) = 32"
    using t by (simp add: sample_world2_def opened_channel_def)
  from submit_refines [OF sample_crates_ok(4) this, of sample_codec "[]" sample_share True]
  have submit: "dispatch_message sample_crates sample_codec True 20 (Sv2 (Some 0x1b) []) sample_template ?w2 =
      (Inr (), ?w2\<lparr>w_log := w_log ?w2 @ verdict_effects sample_crates True sample_share
        (Accepted (opened_channel 0 ''bc1q'' ?target j) j h True), w_faults := []\<rparr>)"
    unfolding v Let_def by (simp add: dispatch_message_def sample_world2_def sample_world1_def)
  have greet: "handle_setup_connection sample_codec (Sv2 (Some 0) [])
      \<lparr>w_state = connection_state_new ''bc1pool'', w_log = [], w_faults = []\<rparr> = (Inr (), sample_world1)"
    by (simp add: handle_setup_connection_def write_succeeds sample_world1_def sample_setup_def)
  show thesis
    by (rule that;
        simp add: connection_run_def sample_events_def connection_start_def connection_step_def
          greet opened submit after_handler_def; simp add: sample_world2_def sample_world1_def)
qed

lemma sample_run_solution:
  obtains sol where "Solution sol \<in> set (w_log (cn_world (connection_run sample_crates sample_codec True
    ''bc1pool'' sample_template False [] sample_events)))"
  by (rule sample_run_log) (simp add: verdict_effects_def, blast)

text \<open>The same run, followed by a new template and its broadcast.\<close>

lemma sample_broadcast_legal:
  "legal_run (conn_legal {sample_template}) (connection_step sample_crates sample_codec True)
    (sample_events @ [Publish sample_template, Template_Changed [0]])
    (connection_start ''bc1pool'' sample_template False [])"
proof -
  obtain ch where "channels (w_state (cn_world (connection_run sample_crates sample_codec True ''bc1pool''
       sample_template False [] sample_events))) = [0 \<mapsto> ch]"
    using sample_run_log by blast
  then show ?thesis
    using sample_events_legal sample_template_wf
    by (simp add: legal_run_append conn_legal_def connection_run_def connection_step_def)
qed

end
