(* ===== verification/Mining_Server.thy ===== *)
theory Mining_Server
  imports Sample_Run
begin

text \<open>
  The properties of the mining server (\<open>pool/src/stratum_sv2.rs\<close>): first of every run of a
  connection, whatever the peer sends, whatever templates arrive and whichever writes fail; then
  of each handler.
\<close>

section \<open>Every run\<close>

text \<open>
  Every solution that a connection hands to the node client is a valid block of its template.
  Its coinbase is the consensus encoding of a transaction that pays the whole value of a
  well-formed template of \<open>T\<close>, the set of the templates that reach the connection, to the script of a
  valid address, its template id is that template's, and
  the header made of its version, time and nonce, the template's previous hash and the merkle
  root over that coinbase has a hash within the network target.
\<close>

theorem solutions_valid:
  assumes "crates_ok L" and "templates_ok T" and "t \<in> T"
    and "legal_run (conn_legal T) (connection_step L C db) es (connection_start addr t changed faults)"
    and "Solution sol \<in> set (w_log (cn_world (connection_run L C db addr t changed faults es)))"
  shows "solution_ok L T sol"
  using run_world_ok [OF assms(1-4)] assms(5) by (simp add: world_ok_def log_ok_def)

theorem solutions_valid_witness:
  "\<exists>sol. Solution sol \<in> set (w_log (cn_world (connection_run sample_crates sample_codec True
      ''bc1pool'' sample_template False [] sample_events))) \<and>
    solution_ok sample_crates {sample_template} sol"
proof -
  obtain sol where sol: "Solution sol \<in> set (w_log (cn_world (connection_run sample_crates sample_codec True
      ''bc1pool'' sample_template False [] sample_events)))"
    by (rule sample_run_solution)
  with solutions_valid [OF sample_crates_all_ok sample_templates_ok singletonI sample_events_legal sol]
  show ?thesis by blast
qed

text \<open>
  C6: The job ids that a connection sends on one channel are strictly increasing, in every run: no
  id is ever reused on a channel, so a share names exactly one job.
\<close>

theorem job_ids_increase:
  assumes "crates_ok L" and "templates_ok T" and "t \<in> T"
    and "legal_run (conn_legal T) (connection_step L C db) es (connection_start addr t changed faults)"
  shows "sorted_wrt (<) (map unat
    (job_ids cid (w_log (cn_world (connection_run L C db addr t changed faults es)))))"
  using run_world_ok [OF assms] by (simp add: world_ok_def log_ok_def)

theorem job_ids_increase_witness:
  "sorted_wrt (<) (map unat (job_ids 0 (w_log (cn_world (connection_run sample_crates sample_codec True
     ''bc1pool'' sample_template False [] (sample_events @ [Publish sample_template, Template_Changed [0]]))))))"
  by (rule job_ids_increase [OF sample_crates_all_ok sample_templates_ok singletonI sample_broadcast_legal])

text \<open>
  With a database attached, every acknowledged share is reported to it exactly once, and
  without one nothing is reported: in every run the reports are as many as the acknowledgements,
  even when writes fail in between.
\<close>

theorem acks_are_reported:
  assumes "crates_ok L" and "templates_ok T" and "t \<in> T"
    and "legal_run (conn_legal T) (connection_step L C db) es (connection_start addr t changed faults)"
  defines "out \<equiv> w_log (cn_world (connection_run L C db addr t changed faults es))"
  shows "length (filter is_report out) = (if db then length (filter is_ack out) else 0)"
  using run_world_ok [OF assms(1-4)] by (simp add: world_ok_def log_ok_def out_def)

theorem acks_are_reported_witness:
  "length (filter is_report (w_log (cn_world (connection_run sample_crates sample_codec True ''bc1pool''
     sample_template False [] sample_events)))) =
   length (filter is_ack (w_log (cn_world (connection_run sample_crates sample_codec True ''bc1pool''
     sample_template False [] sample_events))))"
  using acks_are_reported [OF sample_crates_all_ok sample_templates_ok singletonI sample_events_legal,
      where db = True and addr = "''bc1pool''" and faults = "[]" and changed = False and C = sample_codec]
  by simp

text \<open>
  C21: The open channels of a connection have pairwise different extranonce prefixes, so no two
  channels search the same coinbase.
\<close>

theorem prefixes_distinct:
  assumes "crates_ok L" and "templates_ok T" and "t \<in> T"
    and "legal_run (conn_legal T) (connection_step L C db) es (connection_start addr t changed faults)"
  defines "chans \<equiv> channels (w_state (cn_world (connection_run L C db addr t changed faults es)))"
  shows "inj_on (\<lambda>cid. ch_extranonce_prefix (the (chans cid))) (dom chans)"
proof (rule inj_onI)
  fix a b
  assume "a \<in> dom chans" "b \<in> dom chans"
    "ch_extranonce_prefix (the (chans a)) = ch_extranonce_prefix (the (chans b))"
  moreover have "channel_ok L T (w_state (cn_world (connection_run L C db addr t changed faults es))) c (the (chans c))"
    if "c \<in> dom chans" for c
    using run_world_ok [OF assms(1-4)] that by (auto simp: chans_def world_ok_def state_ok_def)
  ultimately show "a = b" by (auto simp: channel_ok_def)
qed

theorem prefixes_distinct_witness:
  "inj_on (\<lambda>cid. ch_extranonce_prefix (the (channels (w_state (cn_world (connection_run sample_crates
     sample_codec True ''bc1pool'' sample_template False [] sample_events))) cid)))
   (dom (channels (w_state (cn_world (connection_run sample_crates
     sample_codec True ''bc1pool'' sample_template False [] sample_events)))))"
  by (rule prefixes_distinct [OF sample_crates_all_ok sample_templates_ok singletonI sample_events_legal])

section \<open>Submitted shares\<close>

text \<open>
  C4: The share handler refines its specification \<open>judge\<close>, on every branch and whether or not the
  write of the reply fails: no share changes the connection's state; an unknown channel, or a
  coinbase that does not decode, gets no answer; a missing or different current job is answered
  \<open>stale-share-before-activation\<close>; a hash above the channel target, compared as a number, is
  answered \<open>difficulty-too-low\<close>; every other share is acknowledged, its solution handed on before
  the reply when the hash is within the network target, and its report made after the reply.
\<close>

theorem share_handler_refines:
  assumes "hex_ok L" and "\<forall>ch \<in> ran (channels (w_state w)). length (ch_channel_target_be ch) = 32"
    and "parse_submit_shares_extended C pl = Some share"
  shows "handle_submit_shares_extended L C db pl w =
    (let v = judge L (w_state w) share in
     case verdict_reply share v of
       None \<Rightarrow> (Inr (), w)
     | Some reply \<Rightarrow>
       if next_fails w then
         (Inl (Bail ''write failed''),
          w\<lparr>w_log := w_log w @ verdict_before share v, w_faults := tl (w_faults w)\<rparr>)
       else (Inr (), w\<lparr>w_log := w_log w @ verdict_effects L db share v, w_faults := tl (w_faults w)\<rparr>))"
  by (rule submit_refines [OF assms])

theorem share_handler_refines_witness:
  "\<exists>target n p j h. w_log (snd (handle_submit_shares_extended sample_crates sample_codec True []
      (sample_world2 target n p j))) =
    w_log (sample_world2 target n p j) @
      verdict_effects sample_crates True sample_share (Accepted (opened_channel 0 ''bc1q'' target j) j h True)"
proof -
  obtain t p n j where t: "length t = 32"
    and job: "build_job_messages sample_crates
      \<lparr>ch_channel_id = 0, ch_extranonce_prefix = le32 0 @ replicate 28 0, ch_miner_address = ''bc1q'',
       ch_current_job = None, ch_channel_target_be = channel_target t sample_template\<rparr> 1 sample_template
      = Inr (p, n, j)"
    by (rule sample_open_world)
  let ?w = "sample_world2 (channel_target t sample_template) n p j"
  obtain h where v: "judge sample_crates (w_state ?w) sample_share =
      Accepted (opened_channel 0 ''bc1q'' (channel_target t sample_template) j) j h True"
    using sample_verdict [OF t job] by blast
  have targets: "\<forall>ch \<in> ran (channels (w_state ?w)). length (ch_channel_target_be ch) = 32"
    using t by (simp add: sample_world2_def opened_channel_def)
  have "\<not> next_fails ?w" by (simp add: sample_world2_def sample_world1_def)
  with share_handler_refines [OF sample_crates_ok(4) targets, of sample_codec "[]" sample_share True, unfolded v]
  have "w_log (snd (handle_submit_shares_extended sample_crates sample_codec True [] ?w)) =
    w_log ?w @ verdict_effects sample_crates True sample_share
      (Accepted (opened_channel 0 ''bc1q'' (channel_target t sample_template) j) j h True)"
    by simp
  then show ?thesis by blast
qed

text \<open>
  C5: A share for the current job of a channel is accepted exactly when the hash of the header over
  the pool's own coinbase is at most the channel target, as numbers: that coinbase is always the
  one that pays the channel's address the value of the job's template, with the channel's prefix
  and the share's extranonce in it; such a share is never dropped, and a solution goes out exactly
  when the hash is also within the network target.
\<close>

theorem share_accepted_iff:
  assumes "crates_ok L" and "templates_ok T" and "state_ok L T (w_state w)" and "\<not> next_fails w"
    and "parse_submit_shares_extended C pl = Some share"
    and "channels (w_state w) (sh_channel_id share) = Some ch" and "ch_current_job ch = Some job"
    and "ji_job_id job = sh_job_id share"
  shows "\<exists>raw \<in> T. \<exists>outs ms. template_outputs raw outs \<and>
    address_script L (ch_miner_address ch) = Some ms \<and> ji_template_id job = nt_template_id (rt_new_template raw) \<and>
    (let cb = miner_coinbase raw ms outs
          (build_full_extranonce (ch_extranonce_prefix ch) (sh_extranonce share));
        h = share_header L job share cb
     in share_coinbase ch job share = enc_tx cb \<and>
       w_log (snd (handle_submit_shares_extended L C db pl w)) = w_log w @
         (if hash_value L h > be_nat (ch_channel_target_be ch)
          then [share_rejection share ''difficulty-too-low'']
          else (if hash_value L h \<le> be_nat (compact_to_target_be (ji_nbits job))
              then [Solution (solution_for ch job share)] else []) @
            [share_ack share] @
            (if db then [Db_Sent (Share (share_report L ch share h))] else [])))"
proof -
  have ch: "channel_ok L T (w_state w) (sh_channel_id share) ch" using assms(3,6) by (simp add: state_ok_def)
  then obtain raw where T: "raw \<in> T" and job: "job_of L raw (ch_miner_address ch) job"
    using assms(7) by (auto simp: channel_ok_def)
  then have raw: "wf_template raw" "job_of L raw (ch_miner_address ch) job"
    using assms(2) by (simp_all add: templates_ok_def)
  obtain outs where outs: "template_outputs raw outs" using raw(1) by (auto simp: wf_template_def)
  have L: "serialize_ok L" "deserialize_ok L" "hex_ok L" using assms(1) by (simp_all add: crates_ok_def)
  have "length (ch_extranonce_prefix ch) = 32" "length (ch_channel_target_be ch) = 32"
    using ch by (simp_all add: channel_ok_def)
  note pool = judge_pool_job [OF L(1,2) raw(1) outs raw(2) this(1), of share]
    and submit = submit_judged_job [OF L(3) this(2) assms(6-8,5)]
  obtain ms where ms: "address_script L (ch_miner_address ch) = Some ms"
    and j: "let cb = miner_coinbase raw ms outs
        (build_full_extranonce (ch_extranonce_prefix ch) (sh_extranonce share));
      h = share_header L job share cb
     in share_coinbase ch job share = enc_tx cb \<and>
       judge_job L ch job share =
         (if hash_value L h > be_nat (ch_channel_target_be ch) then Low_Difficulty
          else Accepted ch job h (hash_value L h \<le> be_nat (compact_to_target_be (ji_nbits job))))"
    using pool by blast
  with T outs job_of_fields [OF raw(2)] assms(4) submit [of db]
  show ?thesis
    by (intro bexI [of _ raw] exI [of _ outs] exI [of _ ms]) (auto simp: Let_def verdict_effects_def)
qed

theorem share_accepted_iff_witness:
  "\<exists>target n p j h. \<not> hash_value sample_crates h > be_nat target \<and>
    share_ack sample_share \<in> set (w_log (snd (handle_submit_shares_extended sample_crates sample_codec True []
      (sample_world2 target n p j))))"
proof -
  obtain t p n j where t: "length t = 32"
    and job: "build_job_messages sample_crates
      \<lparr>ch_channel_id = 0, ch_extranonce_prefix = le32 0 @ replicate 28 0, ch_miner_address = ''bc1q'',
       ch_current_job = None, ch_channel_target_be = channel_target t sample_template\<rparr> 1 sample_template
      = Inr (p, n, j)"
    and ok: "state_ok sample_crates {sample_template} (w_state (sample_world2 (channel_target t sample_template) n p j))"
    by (rule sample_open_world)
  let ?target = "channel_target t sample_template"
  let ?w = "sample_world2 ?target n p j"
  let ?ch = "opened_channel 0 ''bc1q'' ?target j"
  have w: "\<not> next_fails ?w" "channels (w_state ?w) (sh_channel_id sample_share) = Some ?ch"
    "ch_current_job ?ch = Some j" "ji_job_id j = sh_job_id sample_share"
    using build_job_messages_ids [OF job]
    by (simp_all add: sample_world2_def sample_world1_def sample_share_def opened_channel_def)
  have low: "hash_value sample_crates (share_header sample_crates j sample_share tx) = 4" for tx
    by (simp add: sample_hash_value share_header_def sample_share_def)
  have "4 < be_nat ?target"
    using sample_network_target
    by (simp add: channel_target_max [OF t] sample_template_def less_max_iff_disj)
  with low share_accepted_iff [OF sample_crates_all_ok sample_templates_ok ok w(1) sample_parsers(3) w(2-4), where db = True and pl = "[]"]
  have "\<exists>h. \<not> hash_value sample_crates h > be_nat ?target \<and>
    share_ack sample_share \<in> set (w_log (snd (handle_submit_shares_extended sample_crates sample_codec True [] ?w)))"
    by (auto simp: Let_def opened_channel_def intro!: exI [of _ "share_header sample_crates j sample_share tx" for tx])
  then show ?thesis by blast
qed

text \<open>
  C38: There is no record of submitted shares. An accepted share leaves the connection's state as it was,
  so, as long as the writes succeed, the same message sent \<open>n\<close> times is acknowledged \<open>n\<close> times, reported
  \<open>n\<close> times to the database and, when it is a block, handed to the node \<open>n\<close> times.
\<close>

theorem replayed_share_credited:
  assumes "hex_ok L" and "\<forall>ch \<in> ran (channels (w_state w)). length (ch_channel_target_be ch) = 32"
    and "parse_submit_shares_extended C pl = Some share" and "w_faults w = []"
    and "judge L (w_state w) share = Accepted ch job h blk"
  shows "((\<lambda>w. snd (handle_submit_shares_extended L C db pl w)) ^^ n) w =
    w\<lparr>w_log := w_log w @ concat (replicate n (verdict_effects L db share (Accepted ch job h blk)))\<rparr>"
proof (induction n)
  case (Suc n)
  let ?e = "verdict_effects L db share (Accepted ch job h blk)"
  have "snd (handle_submit_shares_extended L C db pl v) = v\<lparr>w_log := w_log v @ ?e\<rparr>"
    if "w_state v = w_state w" "w_faults v = []" for v
    using submit_refines [OF assms(1) _ assms(3), of v db] assms(2,5) that by (simp add: next_fails_def)
  moreover have "replicate n ?e @ [?e] = ?e # replicate n ?e" by (rule replicate_append_same)
  then have "concat (replicate n ?e) @ ?e = ?e @ concat (replicate n ?e)"
    by (metis concat.simps append_Nil2 concat_append)
  ultimately show ?case by (simp add: Suc.IH assms(4))
qed simp

theorem replayed_share_credited_witness:
  "\<exists>target n p j. length (filter is_ack (w_log (((\<lambda>w. snd (handle_submit_shares_extended sample_crates sample_codec
      True [] w)) ^^ 3) (sample_world2 target n p j)))) =
    length (filter is_ack (w_log (sample_world2 target n p j))) + 3"
proof -
  obtain t p n j where t: "length t = 32"
    and job: "build_job_messages sample_crates
      \<lparr>ch_channel_id = 0, ch_extranonce_prefix = le32 0 @ replicate 28 0, ch_miner_address = ''bc1q'',
       ch_current_job = None, ch_channel_target_be = channel_target t sample_template\<rparr> 1 sample_template
      = Inr (p, n, j)"
    by (rule sample_open_world)
  let ?w = "sample_world2 (channel_target t sample_template) n p j"
  obtain h where v: "judge sample_crates (w_state ?w) sample_share =
      Accepted (opened_channel 0 ''bc1q'' (channel_target t sample_template) j) j h True"
    using sample_verdict [OF t job] by blast
  have w: "\<forall>ch \<in> ran (channels (w_state ?w)). length (ch_channel_target_be ch) = 32" "w_faults ?w = []"
    using t by (simp_all add: sample_world2_def sample_world1_def opened_channel_def)
  from replayed_share_credited [OF sample_crates_ok(4) w(1) _ w(2) v, of sample_codec "[]" 3 True]
  have "length (filter is_ack (w_log (((\<lambda>w. snd (handle_submit_shares_extended sample_crates sample_codec
      True [] w)) ^^ 3) ?w))) = length (filter is_ack (w_log ?w)) + 3"
    by (simp add: sample_codec_def numeral_3_eq_3 verdict_effects_def share_ack_def)
  then show ?thesis by blast
qed

text \<open>The first channel of a connection, opened on \<open>t1\<close>, after the broadcast of \<open>t2\<close>.\<close>

lemma open_then_broadcast:
  fixes db :: bool and now :: int
  assumes "serialize_ok L" and "wf_template t1" and "wf_template t2"
    and "w_faults w = []" and "channels (w_state w) = Map.empty"
    and "unat (next_channel_id (w_state w)) + 1 < 2 ^ 32" and "unat (next_job_id (w_state w)) + 2 < 2 ^ 32"
    and "parse_open_extended_mining_channel C opl = Some msg" and "finite_f32 (oc_nominal_hash_rate msg)"
    and "addr = parse_miner_address L (oc_user_identity msg) (pool_address (w_state w))"
    and "address_script L addr = Some ms"
    and "68 + length ms + length (nt_coinbase_tx_outputs (rt_new_template t1)) \<le> 65535"
    and "68 + length ms + length (nt_coinbase_tx_outputs (rt_new_template t2)) \<le> 65535"
  defines "cid \<equiv> next_channel_id (w_state w)"
  defines "w1 \<equiv> snd (handle_open_extended_mining_channel L C db now opl t1 w)"
  defines "w2 \<equiv> snd (broadcast L t2 [cid] w1)"
  shows "\<exists>target j1 j2. length target = 32 \<and>
    be_nat target = max (pdiff1 div share_difficulty (oc_nominal_hash_rate msg))
      (be_nat (compact_to_target_be (sp_n_bits (rt_set_new_prev_hash t1)))) \<and>
    channels (w_state w1) = [cid \<mapsto> opened_channel cid addr target j1] \<and>
    channels (w_state w2) = [cid \<mapsto> opened_channel cid addr target j2] \<and> w_faults w2 = [] \<and>
    ji_job_id j2 = next_job_id (w_state w) + 1 \<and> job_of L t2 addr j2"
proof -
  let ?jid = "next_job_id (w_state w)"
  have "unat ?jid + 1 < 2 ^ 32" using assms(7) by linarith
  from open_served [OF assms(1) assms(2,8,9,6) this assms(10,11,12,4) refl refl, of db now]
  obtain target p n j1 where t: "length target = 32"
    "be_nat target = max (pdiff1 div share_difficulty (oc_nominal_hash_rate msg))
      (be_nat (compact_to_target_be (sp_n_bits (rt_set_new_prev_hash t1))))"
    and w1: "w1 = w\<lparr>w_state := (w_state w)\<lparr>next_channel_id := cid + 1, next_job_id := ?jid + 1,
          channels := (channels (w_state w))(cid \<mapsto> opened_channel cid addr target j1)\<rparr>,
        w_log := w_log w @ open_effects db now msg cid addr target n p\<rparr>"
    unfolding w1_def cid_def by auto
  let ?ch1 = "opened_channel cid addr target j1"
  have chans: "channels (w_state w1) = [cid \<mapsto> ?ch1]" by (simp add: w1 assms(5))
  have job: "unat (?jid + 1) = unat ?jid + 1" using assms(7) by (intro unat_incr) linarith
  have pre: "w_faults w1 = []" "next_job_id (w_state w1) = ?jid + 1" "distinct [cid]"
    "\<forall>i. i \<in> set [cid] \<longleftrightarrow> channels (w_state w1) i \<noteq> None"
    unfolding chans by (simp_all add: w1 assms(4))
  have next_id: "unat (next_job_id (w_state w1)) + 1 < 2 ^ 32" unfolding pre(2) job using assms(7) by simp
  have fits: "\<forall>ch \<in> ran (channels (w_state w1)). \<exists>ms. address_script L (ch_miner_address ch) = Some ms \<and>
      68 + length ms + length (nt_coinbase_tx_outputs (rt_new_template t2)) \<le> 65535"
    unfolding chans using assms(11,13) by (simp add: opened_channel_def)
  note sent = broadcast_result [OF assms(1) assms(3) pre(1) next_id pre(3,4) fits pre(2) [symmetric]]
  have chans2: "channels (w_state w2) = [cid \<mapsto> assign_job L (?jid + 1) t2 ?ch1]" and w2: "w_faults w2 = []"
    unfolding w2_def sent [THEN conjunct1] chans by (simp_all add: pre(1) fun_eq_iff)
  have assigned: "\<exists>p n j. build_job_messages L ?ch1 (?jid + 1) t2 = Inr (p, n, j) \<and>
      assign_job L (?jid + 1) t2 ?ch1 = ?ch1\<lparr>ch_current_job := Some j\<rparr> \<and> ji_job_id j = ?jid + 1"
    using sent [THEN conjunct2] unfolding chans by auto
  from assigned obtain p2 n2 j2 where b: "build_job_messages L ?ch1 (?jid + 1) t2 = Inr (p2, n2, j2)"
    and a: "assign_job L (?jid + 1) t2 ?ch1 = opened_channel cid addr target j2" "ji_job_id j2 = ?jid + 1"
    by (auto simp: opened_channel_def)
  have j2: "job_of L t2 addr j2" using build_job_messages_job_of [OF b] by (simp add: opened_channel_def)
  with t chans chans2 w2 a show ?thesis by metis
qed

text \<open>
  C39: A valid block can be rejected. The target of a channel is computed once, when the channel is opened
  on the template \<open>t1\<close>, as the larger of the miner's own target and the network target of \<open>t1\<close>; the
  broadcast of a later template \<open>t2\<close> replaces the channel's job and leaves its target as it was. So when
  the network target of \<open>t2\<close> is easier, a share for the new job with a hash above the channel target and
  within the network target of \<open>t2\<close>, which is a block, is answered \<open>difficulty-too-low\<close>: no solution is
  handed on, no share is reported. Assumed: a fresh connection with the channel as its only one, a finite
  declared hashrate, writes that succeed, counters that are not exhausted, outputs that fit their fields.
\<close>

theorem block_winning_share_rejected:
  fixes db :: bool and now :: int
  assumes "crates_ok L" and "wf_template t1" and "wf_template t2" and "template_outputs t2 outs"
    and "w_faults w = []" and "channels (w_state w) = Map.empty"
    and "unat (next_channel_id (w_state w)) + 1 < 2 ^ 32" and "unat (next_job_id (w_state w)) + 2 < 2 ^ 32"
    and "parse_open_extended_mining_channel C opl = Some msg" and "finite_f32 (oc_nominal_hash_rate msg)"
    and "addr = parse_miner_address L (oc_user_identity msg) (pool_address (w_state w))"
    and "address_script L addr = Some ms"
    and "68 + length ms + length (nt_coinbase_tx_outputs (rt_new_template t1)) \<le> 65535"
    and "68 + length ms + length (nt_coinbase_tx_outputs (rt_new_template t2)) \<le> 65535"
    and "parse_submit_shares_extended C spl = Some share"
    and "sh_channel_id share = next_channel_id (w_state w)" and "sh_job_id share = next_job_id (w_state w) + 1"
  defines "cid \<equiv> next_channel_id (w_state w)"
  defines "w1 \<equiv> snd (handle_open_extended_mining_channel L C db now opl t1 w)"
    and "cb \<equiv> miner_coinbase t2 ms outs
      (build_full_extranonce (le32 cid @ replicate 28 0) (sh_extranonce share))"
  defines "w2 \<equiv> snd (broadcast L t2 [cid] w1)"
    and "block \<equiv> \<lparr>hd_version = sh_version share, hd_prev_blockhash = sp_prev_hash (rt_set_new_prev_hash t2),
      hd_merkle_root = apply_branch L (compute_txid L cb) (nt_merkle_path (rt_new_template t2)),
      hd_time = sh_ntime share, hd_bits = sp_n_bits (rt_set_new_prev_hash t2), hd_nonce = sh_nonce share\<rparr>"
  assumes above: "max (pdiff1 div share_difficulty (oc_nominal_hash_rate msg))
      (be_nat (compact_to_target_be (sp_n_bits (rt_set_new_prev_hash t1)))) < hash_value L block"
    and within: "hash_value L block \<le> be_nat (compact_to_target_be (sp_n_bits (rt_set_new_prev_hash t2)))"
  shows "handle_submit_shares_extended L C db spl w2 =
      (Inr (), w2\<lparr>w_log := w_log w2 @ [share_rejection share ''difficulty-too-low'']\<rparr>) \<and>
    (\<exists>target j1 j2. channels (w_state w1) = [cid \<mapsto> opened_channel cid addr target j1] \<and>
      channels (w_state w2) = [cid \<mapsto> opened_channel cid addr target j2] \<and>
      be_nat target = max (pdiff1 div share_difficulty (oc_nominal_hash_rate msg))
        (be_nat (compact_to_target_be (sp_n_bits (rt_set_new_prev_hash t1)))) \<and>
      ji_job_id j2 = sh_job_id share \<and> ji_template_id j2 = nt_template_id (rt_new_template t2) \<and>
      share_coinbase (opened_channel cid addr target j2) j2 share = enc_tx cb \<and>
      share_header L j2 share cb = block \<and>
      be_nat target < hash_value L block \<and> hash_value L block \<le> be_nat (compact_to_target_be (ji_nbits j2)))"
proof -
  have L: "serialize_ok L" "deserialize_ok L" "hex_ok L" using assms(1) by (simp_all add: crates_ok_def)
  from open_then_broadcast [OF L(1) assms(2,3,5-14), of db now]
  obtain target j1 j2 where t: "length target = 32"
    "be_nat target = max (pdiff1 div share_difficulty (oc_nominal_hash_rate msg))
      (be_nat (compact_to_target_be (sp_n_bits (rt_set_new_prev_hash t1))))"
    and chans: "channels (w_state w1) = [cid \<mapsto> opened_channel cid addr target j1]"
    and chans2: "channels (w_state w2) = [cid \<mapsto> opened_channel cid addr target j2]" and w2: "w_faults w2 = []"
    and a: "ji_job_id j2 = next_job_id (w_state w) + 1" and j2: "job_of L t2 addr j2"
    unfolding cid_def w1_def w2_def by blast
  let ?ch2 = "opened_channel cid addr target j2"
  have "length (build_full_extranonce (le32 cid @ replicate 28 0) (sh_extranonce share)) = SV2_EXTRANONCE_TOTAL"
    by simp
  from job_coinbase_deserializes [OF L(1,2) assms(3,4) j2 this] assms(12)
  have cb: "share_coinbase ?ch2 j2 share = enc_tx cb"
    "deserialize_tx L (share_coinbase ?ch2 j2 share) = Some cb"
    by (auto simp: share_coinbase_def opened_channel_def cb_def)
  have hdr: "share_header L j2 share cb = block"
    using job_of_fields [OF j2] by (simp add: share_header_def block_def)
  have low: "be_nat target < hash_value L block" using above by (simp add: t(2))
  have ch2: "ch_channel_target_be ?ch2 = target" "ch_current_job ?ch2 = Some j2"
    by (simp_all add: opened_channel_def)
  have "judge_job L ?ch2 j2 share = Low_Difficulty" using low by (simp add: judge_job_def cb(2) hdr ch2)
  with submit_judged_job [OF L(3), of ?ch2 w2 share j2 C spl db] t(1) chans2 a w2 ch2 assms(15,16,17)
  have "handle_submit_shares_extended L C db spl w2 =
      (Inr (), w2\<lparr>w_log := w_log w2 @ [share_rejection share ''difficulty-too-low'']\<rparr>)"
    by (simp add: cid_def verdict_effects_def next_fails_def)
  with t(2) chans chans2 a cb(1) hdr low assms(17) within job_of_fields [OF j2] show ?thesis
    by (intro conjI exI [of _ target] exI [of _ j1] exI [of _ j2]) simp_all
qed

text \<open>
  A chain at the easiest mainnet target, then a template with the far easier target of the sample, and a
  block whose hash is \<open>256 ^ 29\<close>.
\<close>

definition large_hash_crates :: crates where
  "large_hash_crates = sample_crates
     \<lparr>block_hash := (\<lambda>_. replicate 29 0 @ [1, 0, 0]),
      block_hash_text := (\<lambda>_. hex_text (rev (replicate 29 0 @ [1, 0, 0])))\<rparr>"

definition harder_template :: raw_template where
  "harder_template = sample_template
     \<lparr>rt_set_new_prev_hash := (rt_set_new_prev_hash sample_template)\<lparr>sp_n_bits := 0x1d00ffff\<rparr>\<rparr>"

definition next_job_codec :: codec where
  "next_job_codec = sample_codec
     \<lparr>parse_submit_shares_extended := (\<lambda>_. Some (sample_share\<lparr>sh_job_id := 2\<rparr>))\<rparr>"

theorem block_winning_share_rejected_witness:
  "\<exists>w2. w2 = snd (broadcast large_hash_crates sample_template [0]
      (snd (handle_open_extended_mining_channel large_hash_crates next_job_codec True 10 [] harder_template
        sample_world1))) \<and>
    handle_submit_shares_extended large_hash_crates next_job_codec True [] w2 =
      (Inr (), w2\<lparr>w_log := w_log w2 @ [share_rejection (sample_share\<lparr>sh_job_id := 2\<rparr>) ''difficulty-too-low'']\<rparr>)"
proof -
  have crates: "crates_ok large_hash_crates"
    using sample_crates_ok
    by (simp add: crates_ok_def large_hash_crates_def serialize_ok_def deserialize_ok_def script_ok_def
        hex_ok_def digest_ok_def)
  have hash: "hash_value large_hash_crates h = 256 ^ 29" for h
    by (simp add: hash_value_def large_hash_crates_def be_nat_append be_nat_replicate_0 byte_simps flip: be_nat_rev)
  have "pdiff1 div d \<le> pdiff1" for d by (rule div_le_dividend)
  moreover have "pdiff1 < 256 ^ 29" by (simp add: pdiff1_def)
  moreover have "be_nat (compact_to_target_be 0x1d00ffff) < 256 ^ 29"
    unfolding compact_target_nat Let_def by simp
  ultimately have low: "max (pdiff1 div d) (be_nat (compact_to_target_be 0x1d00ffff)) < 256 ^ 29" for d
    by (meson le_less_trans max_less_iff_conj)
  have bits: "(0x207fffff :: u32) AND 0x007fffff = 0x7fffff" by simp
  have net: "256 ^ 29 \<le> be_nat (compact_to_target_be 0x207fffff)"
    unfolding compact_target_nat Let_def bits by simp
  have harder: "wf_template harder_template"
    using sample_template_wf by (simp add: wf_template_def harder_template_def template_outputs_def)
  have addr: "parse_miner_address large_hash_crates ''bc1q.worker'' pool = ''bc1q''"
    "address_script large_hash_crates ''bc1q'' = Some [98, 99, 49, 113]" for pool
    using sample_address by (simp_all add: parse_miner_address_def script_from_address_def large_hash_crates_def)
  have small: "length (nt_coinbase_tx_outputs (rt_new_template sample_template)) \<le> 1000"
    by (simp add: sample_template_def enc_txout_def enc_blob_def sample_output_def compact_size_def)
  show ?thesis
    using block_winning_share_rejected [OF crates harder sample_template_wf sample_outputs,
        of sample_world1 next_job_codec "[]" sample_open "''bc1q''" "[98, 99, 49, 113]" "[]"
          "sample_share\<lparr>sh_job_id := 2\<rparr>" True 10]
      low net small
    by (simp add: hash addr sample_world1_def connection_state_new_def next_job_codec_def sample_open_def
        finite_f32_def harder_template_def sample_template_def sample_share_def)
qed

section \<open>Opening a channel\<close>

text \<open>
  C19: Under the conditions listed below, opening a channel is served completely, and in order: the success
  message carries the new channel id, the prefix and, in little-endian order, the target that is stored; the
  channel is registered with its first job; the job goes out before the previous hash that activates it, both
  with the channel's id and a new job id; and the miner is reported. The stored target is the larger of the
  miner's own target and the network's. The conditions: the template is well formed; the message decodes
  and declares a finite hashrate (\<open>hashrate_target_panics_iff\<close> shows which others panic); neither the
  channel nor the job counter is exhausted; the address that the handler chooses has a script, and the
  script and the template's outputs fit in the 65535 bytes of the job's coinbase suffix; no write fails.
\<close>

theorem open_channel_served:
  assumes "serialize_ok L" and "wf_template template"
    and "parse_open_extended_mining_channel C pl = Some msg" and "finite_f32 (oc_nominal_hash_rate msg)"
    and "unat (next_channel_id (w_state w)) + 1 < 2 ^ 32" and "unat (next_job_id (w_state w)) + 1 < 2 ^ 32"
    and "addr = parse_miner_address L (oc_user_identity msg) (pool_address (w_state w))"
    and "address_script L addr = Some ms"
    and "68 + length ms + length (nt_coinbase_tx_outputs (rt_new_template template)) \<le> 65535"
    and "w_faults w = []"
    and "cid = next_channel_id (w_state w)" and "jid = next_job_id (w_state w)"
  shows "\<exists>target p n j. length target = 32 \<and>
    be_nat target = max (pdiff1 div share_difficulty (oc_nominal_hash_rate msg))
      (be_nat (compact_to_target_be (sp_n_bits (rt_set_new_prev_hash template)))) \<and>
    build_job_messages L ((opened_channel cid addr target j)\<lparr>ch_current_job := None\<rparr>) jid template = Inr (p, n, j) \<and>
    handle_open_extended_mining_channel L C db now pl template w =
      (Inr (), w\<lparr>w_state := (w_state w)\<lparr>next_channel_id := cid + 1, next_job_id := jid + 1,
          channels := (channels (w_state w))(cid \<mapsto> opened_channel cid addr target j)\<rparr>,
        w_log := w_log w @ open_effects db now msg cid addr target n p\<rparr>)"
  by (rule open_served [OF assms])

theorem open_channel_served_witness:
  "\<exists>target p n j. be_nat target = max (pdiff1 div share_difficulty (Fin 1000))
      (be_nat (compact_to_target_be 0x207fffff)) \<and>
    w_log (snd (handle_open_extended_mining_channel sample_crates sample_codec True 10 [] sample_template sample_world1)) =
      w_log sample_world1 @ open_effects True 10 sample_open 0 ''bc1q'' target n p"
proof -
  have len: "68 + length [98, 99, 49, 113 :: u8] +
      length (nt_coinbase_tx_outputs (rt_new_template sample_template)) \<le> 65535"
    by (simp add: sample_template_def enc_txout_def enc_blob_def sample_output_def compact_size_def)
  from open_channel_served [OF sample_crates_ok(1) sample_template_wf sample_parsers(2) _ _ _ refl _ len _ refl refl,
      of sample_world1 True 10 "[]"]
  show ?thesis
    by (fastforce simp: sample_world1_def connection_state_new_def sample_open_def sample_address
        finite_f32_def sample_template_def)
qed

section \<open>New templates\<close>

text \<open>
  C20: When a new template arrives and nothing fails, every open channel gets it: each channel's
  current job becomes the job of the new template under one fresh job id, each channel is sent
  exactly its two messages, the job before the previous hash, in the order of the keys, and
  nothing else of the state changes but the job counter. That nothing fails means: the writes succeed, the
  job counter is not exhausted, and each channel's script and the template's outputs fit in the 65535 bytes
  of the job's coinbase suffix.
\<close>

theorem broadcast_reaches_every_channel:
  assumes "serialize_ok L" and "wf_template template" and "w_faults w = []"
    and "unat (next_job_id (w_state w)) + 1 < 2 ^ 32"
    and "distinct ids" and "\<forall>i. i \<in> set ids \<longleftrightarrow> channels (w_state w) i \<noteq> None"
    and "\<forall>ch \<in> ran (channels (w_state w)). \<exists>ms. address_script L (ch_miner_address ch) = Some ms \<and>
      68 + length ms + length (nt_coinbase_tx_outputs (rt_new_template template)) \<le> 65535"
    and "jid = next_job_id (w_state w)"
  shows "broadcast L template ids w =
      (Inr (), w\<lparr>w_state := (w_state w)\<lparr>next_job_id := jid + 1,
          channels := (\<lambda>cid. map_option (assign_job L jid template) (channels (w_state w) cid))\<rparr>,
        w_log := w_log w @ concat (map (\<lambda>cid. job_pair L jid template (the (channels (w_state w) cid))) ids)\<rparr>) \<and>
    (\<forall>ch \<in> ran (channels (w_state w)). \<exists>p n j. build_job_messages L ch jid template = Inr (p, n, j) \<and>
      assign_job L jid template ch = ch\<lparr>ch_current_job := Some j\<rparr> \<and> ji_job_id j = jid \<and>
      job_pair L jid template ch = [Wrote True (New_Job n), Wrote True (New_Prev_Hash p)])"
  by (rule broadcast_result [OF assms])

theorem broadcast_reaches_every_channel_witness:
  "\<exists>target n p j. w_log (snd (broadcast sample_crates sample_template [0] (sample_world2 target n p j))) =
    w_log (sample_world2 target n p j) @
      job_pair sample_crates 2 sample_template (opened_channel 0 ''bc1q'' target j)"
proof -
  fix target n p j
  let ?w = "sample_world2 target n p j"
  have small: "length (nt_coinbase_tx_outputs (rt_new_template sample_template)) \<le> 1000"
    by (simp add: sample_template_def enc_txout_def enc_blob_def sample_output_def compact_size_def)
  have "w_log (snd (broadcast sample_crates sample_template [0] ?w)) = w_log ?w @
      concat (map (\<lambda>cid. job_pair sample_crates 2 sample_template (the (channels (w_state ?w) cid))) [0])"
    by (subst broadcast_reaches_every_channel
        [OF sample_crates_ok(1) sample_template_wf, where w = ?w and ids = "[0]" and jid = 2, THEN conjunct1])
      (use small in \<open>auto simp: sample_world2_def sample_world1_def opened_channel_def sample_address\<close>)
  then show ?thesis
    by (intro exI [of _ target] exI [of _ n] exI [of _ p] exI [of _ j]) (simp add: sample_world2_def)
qed

section \<open>Setting up a connection\<close>

text \<open>
  C34: The setup of a connection succeeds exactly when the first frame is a well-formed
  \<open>SetupConnection\<close> for the mining protocol whose version range contains 2, and the reply can be
  written. A setup message is answered with exactly one message, the one that \<open>setup_reply\<close> names for
  it (the success, or the error code of the first failed check), an unreadable one with none, and
  the handler leaves the state alone.
\<close>

theorem setup_handled:
  "(fst (handle_setup_connection C frame w) = Inr () \<longleftrightarrow>
    \<not> next_fails w \<and> (\<exists>pl msg. frame = Sv2 (Some (MESSAGE_TYPE_SETUP_CONNECTION C)) pl \<and>
      parse_setup_connection C pl = Some msg \<and> sc_protocol msg = Mining_Protocol \<and>
      sc_min_version msg \<le> 2 \<and> 2 \<le> sc_max_version msg)) \<and>
  snd (handle_setup_connection C frame w) =
    (case setup_reply C frame of
       None \<Rightarrow> w
     | Some m \<Rightarrow>
         if next_fails w then w\<lparr>w_faults := tl (w_faults w)\<rparr>
         else w\<lparr>w_log := w_log w @ [Wrote False m], w_faults := tl (w_faults w)\<rparr>)"
proof
  show "fst (handle_setup_connection C frame w) = Inr () \<longleftrightarrow>
    \<not> next_fails w \<and> (\<exists>pl msg. frame = Sv2 (Some (MESSAGE_TYPE_SETUP_CONNECTION C)) pl \<and>
      parse_setup_connection C pl = Some msg \<and> sc_protocol msg = Mining_Protocol \<and>
      sc_min_version msg \<le> 2 \<and> 2 \<le> sc_max_version msg)"
    by (simp add: setup_ok_iff setup_acceptable_def)
qed (subst setup_result, simp split: option.split)

end
