(* ===== verification/Node_Ipc.thy ===== *)
theory Node_Ipc
  imports Templates Float64
begin

text \<open>
  The client of the Bitcoin node, from \<open>pool/src/node_ipc.rs\<close>: the template of a block client, and
  the loop of \<open>ipc_main\<close> that follows the node's templates, publishes them and passes solutions on.
  The remote calls are the fields of \<open>node\<close> and the results in the events; capnp threads and the
  socket are left out. The invariant numbers the published templates from 0 and ties the block
  client to the last of them.
\<close>

section \<open>Calls to the node\<close>

text \<open>
  What a block client \<open>'b\<close> of the node answers, and the crate's reader of block headers. An
  \<open>Inl\<close> is a failed call.
\<close>

record 'b node =
  get_block_header :: "'b \<Rightarrow> bytes outcome"
  get_coinbase_tx :: "'b \<Rightarrow> bytes outcome"
  get_coinbase_merkle_path :: "'b \<Rightarrow> bytes list outcome"
  deserialize_header :: "bytes \<Rightarrow> header option"

definition WEIGHT_FACTOR :: u32 where "WEIGHT_FACTOR = 4"
definition MIN_BLOCK_RESERVED_WEIGHT :: u64 where "MIN_BLOCK_RESERVED_WEIGHT = 2000"

text \<open>The weight that \<open>new_block_client\<close> reserves: the product is computed in 32 bits.\<close>

definition reserved_weight :: "u32 \<Rightarrow> u64 outcome" where
  "reserved_weight coinbase_output_max_size =
     (if unat coinbase_output_max_size * unat WEIGHT_FACTOR < 2 ^ 32
      then Inr (max (ucast (coinbase_output_max_size * WEIGHT_FACTOR)) MIN_BLOCK_RESERVED_WEIGHT)
      else Inl (Panic ''attempt to multiply with overflow''))"

definition fetch_template :: "crates \<Rightarrow> 'b node \<Rightarrow> 'b \<Rightarrow> u64 \<Rightarrow> raw_template outcome" where
  "fetch_template L N block template_id =
     and_then (get_block_header N block) (\<lambda>header_bytes.
     and_then (ok_or (Bail ''deserialize block header'') (deserialize_header N header_bytes)) (\<lambda>hdr.
     and_then (get_coinbase_tx N block) (\<lambda>cb_bytes.
     and_then (ok_or (Bail ''deserialize coinbase tx'') (deserialize_tx L cb_bytes)) (\<lambda>cb.
     and_then (get_coinbase_merkle_path N block) (\<lambda>path.
     build_raw_template L template_id hdr cb path)))))"

section \<open>The loop\<close>

datatype 'b ipc_effect =
    Published raw_template
  | Submitted 'b submit_solution_data
  | Destroyed 'b

text \<open>
  A logged \<open>Submitted b sol\<close> is a request to the block client \<open>b\<close> with the version, time, nonce and
  coinbase of \<open>sol\<close>; its template id is not part of the request. \<open>Destroyed b\<close> is a call of
  \<open>destroy_block_client\<close>, which ignores its own failures.
\<close>

text \<open>
  \<open>wait_next\<close>: what the node answers depends on the options of the request, the rise of the fees in
  satoshi (an \<open>i64\<close>) and the milliseconds after which it gives up. The request fails, or the node
  returns a block client, the null capability (its timeout), or another error.
\<close>

record wait_options =
  wo_fee_threshold :: "64 word"
  wo_timeout :: f64

definition FEE_THRESHOLD_SATS :: "64 word" where "FEE_THRESHOLD_SATS = 1000"
definition WAIT_NEXT_TIMEOUT_MS :: f64 where "WAIT_NEXT_TIMEOUT_MS = Fin 10000"

datatype 'b wait_reply = Wait_Failed error | Wait_Client 'b | Wait_Null | Wait_Bad string

definition wait_next :: "(wait_options \<Rightarrow> 'b wait_reply) \<Rightarrow> 'b option outcome" where
  "wait_next node_waits =
     (case node_waits \<lparr>wo_fee_threshold = FEE_THRESHOLD_SATS, wo_timeout = WAIT_NEXT_TIMEOUT_MS\<rparr> of
        Wait_Failed e \<Rightarrow> Inl e
      | Wait_Client client \<Rightarrow> Inr (Some client)
      | Wait_Null \<Rightarrow> Inr None
      | Wait_Bad e \<Rightarrow> Inl (Bail (''waitNext: '' @ e)))"

lemma wait_next_const [simp]:
  "wait_next (\<lambda>_. Wait_Failed e) = Inl e" "wait_next (\<lambda>_. Wait_Client c) = Inr (Some c)"
  "wait_next (\<lambda>_. Wait_Null) = Inr None" "wait_next (\<lambda>_. Wait_Bad w) = Inl (Bail (''waitNext: '' @ w))"
  by (simp_all add: wait_next_def)

text \<open>\<open>submit_solution\<close>: the request may fail before it is sent, or in the call, or be answered.\<close>

datatype submit_reply = Submit_Unsent error | Submit_Failed error | Submit_Answer bool

fun submit_solution :: "'b \<Rightarrow> submit_solution_data \<Rightarrow> submit_reply \<Rightarrow> unit outcome \<times> 'b ipc_effect list" where
  "submit_solution block sol (Submit_Unsent e) = (Inl e, [])"
| "submit_solution block sol (Submit_Failed e) = (Inl e, [Submitted block sol])"
| "submit_solution block sol (Submit_Answer accepted) =
     (if accepted then Inr () else Inl (Bail ''Bitcoin Core rejected solution''), [Submitted block sol])"

lemma submit_solution_effects:
  "snd (submit_solution b sol reply) = [] \<or> snd (submit_solution b sol reply) = [Submitted b sol]"
  by (cases reply) simp_all

lemma submit_solution_sends:
  "(\<And>e. reply \<noteq> Submit_Unsent e) \<Longrightarrow> snd (submit_solution b sol reply) = [Submitted b sol]"
  by (cases reply) auto

text \<open>\<open>Finished\<close> carries the error with which \<open>ipc_main\<close> returns, if it returns one.\<close>

datatype ipc_phase = Running | Finished "error option"

record 'b ipc_state =
  ip_block :: 'b
  ip_template_id :: u64
  ip_log :: "'b ipc_effect list"
  ip_phase :: ipc_phase

text \<open>
  One event per iteration: a new thread could not be made, \<open>wait_next\<close> was answered (with whether
  the watch channel still has receivers), or a solution was received (with the node's reply to it;
  an error of \<open>submit_solution\<close> is only logged).
\<close>

datatype 'b ipc_event =
    Thread_Failed error
  | Wait_Next "wait_options \<Rightarrow> 'b wait_reply" bool
  | Solution_Received submit_solution_data submit_reply

definition destroy_block_client :: "'b ipc_state \<Rightarrow> 'b ipc_state" where
  "destroy_block_client s = s\<lparr>ip_log := ip_log s @ [Destroyed (ip_block s)]\<rparr>"

definition increment_template_id :: "'b ipc_state \<Rightarrow> 'b ipc_state outcome" where
  "increment_template_id s =
     (if unat (ip_template_id s) + 1 < 2 ^ 64 then Inr (s\<lparr>ip_template_id := ip_template_id s + 1\<rparr>)
      else Inl (Panic ''attempt to add with overflow''))"

definition ipc_start :: "crates \<Rightarrow> 'b node \<Rightarrow> 'b \<Rightarrow> 'b ipc_state outcome" where
  "ipc_start L N block =
     and_then (fetch_template L N block 0) (\<lambda>first.
     and_then (increment_template_id
       \<lparr>ip_block = block, ip_template_id = 0, ip_log = [], ip_phase = Running\<rparr>) (\<lambda>s.
     Inr (s\<lparr>ip_log := [Published first]\<rparr>)))"

definition new_block :: "crates \<Rightarrow> 'b node \<Rightarrow> 'b \<Rightarrow> bool \<Rightarrow> 'b ipc_state \<Rightarrow> 'b ipc_state" where
  "new_block L N block receivers s =
     (let s = destroy_block_client s; s = s\<lparr>ip_block := block\<rparr> in
      case and_then (fetch_template L N block (ip_template_id s)) (\<lambda>raw.
             map_sum id (Pair raw) (increment_template_id s)) of
        Inl e \<Rightarrow> s\<lparr>ip_phase := Finished (Some e)\<rparr>
      | Inr (raw, s) \<Rightarrow>
          if receivers then s\<lparr>ip_log := ip_log s @ [Published raw]\<rparr>
          else (destroy_block_client s)\<lparr>ip_phase := Finished None\<rparr>)"

definition ipc_step :: "crates \<Rightarrow> 'b node \<Rightarrow> 'b ipc_event \<Rightarrow> 'b ipc_state \<Rightarrow> 'b ipc_state" where
  "ipc_step L N ev s =
     (if ip_phase s \<noteq> Running then s
      else
        case ev of
          Thread_Failed e \<Rightarrow> s\<lparr>ip_phase := Finished (Some e)\<rparr>
        | Wait_Next node_waits receivers \<Rightarrow>
            (case wait_next node_waits of
               Inl e \<Rightarrow> s\<lparr>ip_phase := Finished (Some e)\<rparr>
             | Inr None \<Rightarrow> s
             | Inr (Some block) \<Rightarrow> new_block L N block receivers s)
        | Solution_Received sol reply \<Rightarrow>
            s\<lparr>ip_log := ip_log s @ snd (submit_solution (ip_block s) sol reply)\<rparr>)"

section \<open>The invariant\<close>

fun published :: "'b ipc_effect \<Rightarrow> raw_template option" where
  "published (Published raw) = Some raw"
| "published _ = None"

definition published_templates :: "'b ipc_effect list \<Rightarrow> raw_template list" where
  "published_templates out = List.map_filter published out"

lemma published_templates_simps [simp]:
  "published_templates [] = []"
  "published_templates (xs @ ys) = published_templates xs @ published_templates ys"
  "published_templates (e # es) =
    (case published e of None \<Rightarrow> published_templates es | Some raw \<Rightarrow> raw # published_templates es)"
  by (auto simp: published_templates_def List.map_filter_def split: option.split)

text \<open>A fetched template has the id it was asked for and is well formed.\<close>

definition header_ok :: "'b node \<Rightarrow> bool" where
  "header_ok N \<longleftrightarrow> (\<forall>bs h. deserialize_header N bs = Some h \<longrightarrow> length (hd_prev_blockhash h) = 32)"

lemma fetch_template_id:
  "fetch_template L N b i = Inr raw \<Longrightarrow>
    nt_template_id (rt_new_template raw) = i \<and> sp_template_id (rt_set_new_prev_hash raw) = i"
  by (auto simp: fetch_template_def dest: build_raw_template_Inr)

lemma fetch_template_wf:
  "serialize_ok L \<Longrightarrow> header_ok N \<Longrightarrow> fetch_template L N b i = Inr raw \<Longrightarrow> wf_template raw"
  by (auto simp: fetch_template_def header_ok_def dest: build_raw_template_wf)

definition ipc_inv :: "crates \<Rightarrow> 'b node \<Rightarrow> 'b ipc_state \<Rightarrow> bool" where
  "ipc_inv L N s \<longleftrightarrow>
     map (\<lambda>raw. unat (nt_template_id (rt_new_template raw))) (published_templates (ip_log s)) =
       [0..<length (published_templates (ip_log s))] \<and>
     (\<forall>raw \<in> set (published_templates (ip_log s)). \<exists>b i. fetch_template L N b i = Inr raw) \<and>
     (ip_phase s = Running \<longrightarrow>
       published_templates (ip_log s) \<noteq> [] \<and>
       length (published_templates (ip_log s)) = unat (ip_template_id s) \<and>
       fetch_template L N (ip_block s) (nt_template_id (rt_new_template (last (published_templates (ip_log s))))) =
         Inr (last (published_templates (ip_log s))))"

lemma increment_template_id_Inr:
  "increment_template_id s = Inr s' \<longleftrightarrow>
    unat (ip_template_id s) + 1 < 2 ^ 64 \<and> s' = s\<lparr>ip_template_id := ip_template_id s + 1\<rparr>"
  by (auto simp: increment_template_id_def)

lemma unat_u64_incr: "unat (i :: u64) + 1 < 2 ^ 64 \<Longrightarrow> unat (i + 1) = unat i + 1"
  by (simp add: unat_word_ariths)

lemma map_sum_Pair_Inr: "map_sum id (Pair r) x = Inr y \<longleftrightarrow> (\<exists>s. x = Inr s \<and> y = (r, s))"
  by (cases x) auto

lemma new_block_inv:
  assumes "ipc_inv L N s" and "ip_phase s = Running"
  shows "ipc_inv L N (new_block L N block receivers s)"
proof -
  let ?s = "(destroy_block_client s)\<lparr>ip_block := block\<rparr>"
  have log: "published_templates (ip_log ?s) = published_templates (ip_log s)"
    by (simp add: destroy_block_client_def)
  show ?thesis
  proof (cases "and_then (fetch_template L N block (ip_template_id ?s)) (\<lambda>raw.
      map_sum id (Pair raw) (increment_template_id ?s))")
    case (Inl e)
    with assms log show ?thesis by (simp add: new_block_def Let_def ipc_inv_def)
  next
    case (Inr x)
    then obtain raw where raw: "fetch_template L N block (ip_template_id s) = Inr raw"
      and fits: "unat (ip_template_id s) + 1 < 2 ^ 64"
      and x: "x = (raw, ?s\<lparr>ip_template_id := ip_template_id s + 1\<rparr>)"
      by (auto simp: map_sum_Pair_Inr increment_template_id_Inr destroy_block_client_def)
    note id = fetch_template_id [OF raw] unat_u64_incr [OF fits]
    with assms raw Inr x log show ?thesis
      by (auto simp: new_block_def Let_def ipc_inv_def destroy_block_client_def)
  qed
qed

lemma ipc_step_inv:
  assumes "ipc_inv L N s"
  shows "ipc_inv L N (ipc_step L N ev s)"
proof (cases "ip_phase s = Running")
  case True
  note new = new_block_inv [OF assms True]
  show ?thesis
  proof (cases ev)
    case (Wait_Next r receivers)
    consider (error) e where "wait_next r = Inl e" | (timeout) "wait_next r = Inr None"
      | (block) b where "wait_next r = Inr (Some b)"
      by (metis option.exhaust sum.exhaust)
    then show ?thesis
    proof cases
      case error
      with Wait_Next True assms show ?thesis by (simp add: ipc_step_def ipc_inv_def)
    qed (use Wait_Next True assms new in \<open>simp_all add: ipc_step_def\<close>)
  next
    case (Solution_Received sol reply)
    have "published_templates (snd (submit_solution (ip_block s) sol reply)) = []"
      using submit_solution_effects [of "ip_block s" sol reply] by auto
    with Solution_Received True assms show ?thesis by (simp add: ipc_step_def ipc_inv_def)
  qed (use True assms in \<open>auto simp: ipc_step_def ipc_inv_def\<close>)
qed (use assms in \<open>simp add: ipc_step_def\<close>)

lemma ipc_start_inv: "ipc_start L N block = Inr s \<Longrightarrow> ipc_inv L N s"
  using fetch_template_id [of L N block 0]
  by (fastforce simp: ipc_start_def increment_template_id_Inr ipc_inv_def)

interpretation ipc_loop: event_loop "ipc_inv L N" "\<lambda>_ _. True" "ipc_step L N" for L N
  by unfold_locales (rule ipc_step_inv)

lemma any_run_legal [simp]: "legal_run (\<lambda>_ _. True) step es s"
  by (induction es arbitrary: s) auto

definition ipc_run :: "crates \<Rightarrow> 'b node \<Rightarrow> 'b ipc_event list \<Rightarrow> 'b ipc_state \<Rightarrow> 'b ipc_state" where
  "ipc_run L N es s = fold (ipc_step L N) es s"

lemma ipc_run_inv: "ipc_start L N block = Inr s \<Longrightarrow> ipc_inv L N (ipc_run L N es s)"
  unfolding ipc_run_def by (rule ipc_loop.run_inv [OF ipc_start_inv]) simp_all

section \<open>A sample node\<close>

definition sample_node_coinbase :: transaction where
  "sample_node_coinbase =
     \<lparr>tx_version = 2, tx_lock_time = 0,
      tx_inputs = [\<lparr>txi_prev_txid = replicate 32 0, txi_prev_vout = 0xffffffff, txi_script_sig = [1, 2],
        txi_sequence = 0xffffffff, txi_witness = []\<rparr>],
      tx_outputs = [\<lparr>txo_value = 5000000000, txo_script = [0x51]\<rparr>, \<lparr>txo_value = 0, txo_script = [0x6a]\<rparr>]\<rparr>"

definition sample_header :: header where
  "sample_header = \<lparr>hd_version = 0x20000000, hd_prev_blockhash = replicate 32 9,
     hd_merkle_root = replicate 32 0, hd_time = 1700000000, hd_bits = 0x207fffff, hd_nonce = 0\<rparr>"

definition sample_node :: "nat node" where
  "sample_node =
     \<lparr>get_block_header = (\<lambda>_. Inr []), get_coinbase_tx = (\<lambda>_. Inr (enc_tx sample_node_coinbase)),
      get_coinbase_merkle_path = (\<lambda>_. Inr [replicate 32 5]), deserialize_header = (\<lambda>_. Some sample_header)\<rparr>"

lemma sample_node_header_ok: "header_ok sample_node"
  by (simp add: header_ok_def sample_node_def sample_header_def)

lemma sample_build:
  "\<exists>raw. build_raw_template sample_crates i sample_header sample_node_coinbase [replicate 32 5] = Inr raw"
proof -
  have "checked_sum [5000000000, 0] = Some 5000000000" by (simp add: checked_sum_Some)
  then show ?thesis
    by (simp add: build_raw_template_def Let_def sample_node_coinbase_def sample_crates_def enc_txout_def
        enc_blob_def compact_size_def)
qed

lemma sample_fetch: "\<exists>raw. fetch_template sample_crates sample_node b i = Inr raw"
proof -
  have "wf_tx sample_node_coinbase"
    by (simp add: sample_node_coinbase_def wf_tx_def wf_txin_def wf_txout_def)
  moreover have "length (enc_tx sample_node_coinbase) \<le> 1000000"
    by (simp add: sample_node_coinbase_def enc_tx_def enc_list_def enc_txin_def enc_txout_def enc_blob_def
        compact_size_def has_witness_def)
  ultimately have "deserialize_tx sample_crates (enc_tx sample_node_coinbase) = Some sample_node_coinbase"
    using sample_crates_ok(2) by (simp add: deserialize_ok_def)
  with sample_build [of i] show ?thesis by (simp add: fetch_template_def sample_node_def)
qed

lemma sample_ipc_start: "\<exists>s. ipc_start sample_crates sample_node 0 = Inr s \<and> ip_phase s = Running"
  using sample_fetch [of 0 0] by (auto simp: ipc_start_def increment_template_id_def)

section \<open>Properties\<close>

text \<open>
  The conditions under which a template can be built: the sum of the values, the input that carries
  the height, and the sizes of the three fields that are bounded on the wire.
\<close>

definition zero_outputs :: "crates \<Rightarrow> transaction \<Rightarrow> bytes" where
  "zero_outputs L cb = concat (map (serialize_txout L) (filter (\<lambda>o'. txo_value o' = 0) (tx_outputs cb)))"

definition template_buildable :: "crates \<Rightarrow> transaction \<Rightarrow> bytes list \<Rightarrow> bool" where
  "template_buildable L cb path \<longleftrightarrow>
     sum_list (map (unat \<circ> txo_value) (tx_outputs cb)) < 2 ^ 64 \<and> tx_inputs cb \<noteq> [] \<and>
     length (txi_script_sig (hd (tx_inputs cb))) \<le> 255 \<and> length (zero_outputs L cb) \<le> 65535 \<and>
     list_all (\<lambda>h. length h = 32) path \<and> length path \<le> 255"

lemma build_raw_template_ok:
  assumes "build_raw_template L i hdr cb path = Inr raw"
  shows "template_buildable L cb path"
  using build_raw_template_Inr [OF assms]
  by (auto simp: template_buildable_def zero_outputs_def checked_sum_Some comp_def)

text \<open>
  C24: \<open>build_raw_template\<close> succeeds exactly when the coinbase values sum below \<open>2 ^ 64\<close>, the coinbase
  has an input whose script fits in 255 bytes, the zero-value outputs fit in 65535 bytes and the
  merkle path has at most 255 hashes, all of 32 bytes. The template then carries the id it was given,
  the input's script as its prefix, the whole sum as its remaining value, exactly the zero-value
  outputs with their number, the merkle path, and the header's previous hash, time and bits.
\<close>

theorem raw_template_value:
  "(\<exists>raw. build_raw_template L i hdr cb path = Inr raw) = template_buildable L cb path \<and>
   (\<forall>raw. build_raw_template L i hdr cb path = Inr raw \<longrightarrow>
     unat (nt_coinbase_tx_value_remaining (rt_new_template raw)) = sum_list (map (unat \<circ> txo_value) (tx_outputs cb)) \<and>
     nt_template_id (rt_new_template raw) = i \<and> sp_template_id (rt_set_new_prev_hash raw) = i \<and>
     nt_coinbase_prefix (rt_new_template raw) = txi_script_sig (hd (tx_inputs cb)) \<and>
     nt_coinbase_tx_outputs (rt_new_template raw) = zero_outputs L cb \<and>
     nt_coinbase_tx_outputs_count (rt_new_template raw) =
       of_nat (length (filter (\<lambda>o'. txo_value o' = 0) (tx_outputs cb))) \<and>
     nt_merkle_path (rt_new_template raw) = path \<and>
     sp_prev_hash (rt_set_new_prev_hash raw) = hd_prev_blockhash hdr \<and>
     sp_header_timestamp (rt_set_new_prev_hash raw) = hd_time hdr \<and>
     sp_n_bits (rt_set_new_prev_hash raw) = hd_bits hdr)"
proof (intro conjI)
  show "(\<exists>raw. build_raw_template L i hdr cb path = Inr raw) = template_buildable L cb path"
  proof
    assume ok: "template_buildable L cb path"
    let ?v = "of_nat (sum_list (map (unat \<circ> txo_value) (tx_outputs cb))) :: u64"
    have "checked_sum (map txo_value (tx_outputs cb)) = Some ?v"
      using ok by (simp add: template_buildable_def checked_sum_Some unat_of_nat comp_def)
    moreover have "mapM (u256 ''merkle hash'') path = Inr path"
      using ok by (simp add: template_buildable_def mapM_u256)
    ultimately show "\<exists>raw. build_raw_template L i hdr cb path = Inr raw"
      using ok by (cases "tx_inputs cb") (auto simp: template_buildable_def zero_outputs_def build_raw_template_def
          Let_def b0255_def b064k_def seq0255_def)
  qed (auto dest: build_raw_template_ok)
qed (auto dest!: build_raw_template_Inr simp: checked_sum_Some comp_def zero_outputs_def)

theorem raw_template_value_witness:
  "(\<exists>raw. build_raw_template sample_crates 3 sample_header sample_node_coinbase [replicate 32 5] = Inr raw) \<and>
    \<not> (\<exists>raw. build_raw_template sample_crates 3 sample_header sample_node_coinbase [replicate 31 5] = Inr raw)"
proof -
  have "template_buildable sample_crates sample_node_coinbase [replicate 32 5]"
    using sample_build [of 3] build_raw_template_ok by blast
  moreover have "\<not> template_buildable sample_crates sample_node_coinbase [replicate 31 5]"
    by (simp add: template_buildable_def)
  ultimately show ?thesis by (simp add: raw_template_value [THEN conjunct1])
qed

text \<open>
  C25: Over any sequence of events the published templates are numbered 0, 1, 2, and so on without a
  gap, and each is well formed: what the mining server assumes of the templates it receives.
\<close>

theorem published_templates_ok:
  fixes N :: "'b node" and es :: "'b ipc_event list"
  assumes "serialize_ok L" and "header_ok N" and "ipc_start L N block = Inr s"
  defines "templates \<equiv> published_templates (ip_log (ipc_run L N es s))"
  shows "map (\<lambda>raw. unat (nt_template_id (rt_new_template raw))) templates = [0..<length templates] \<and>
    list_all wf_template templates"
  using ipc_run_inv [OF assms(3), of es] fetch_template_wf [OF assms(1,2)]
  by (fastforce simp: ipc_inv_def templates_def list_all_iff)

theorem published_templates_ok_witness:
  "\<exists>s. let templates = published_templates (ip_log (ipc_run sample_crates sample_node
      [Wait_Next (\<lambda>_. Wait_Client 1) True, Wait_Next (\<lambda>_. Wait_Null) True] s)) in
    map (\<lambda>raw. unat (nt_template_id (rt_new_template raw))) templates = [0..<length templates] \<and>
    list_all wf_template templates"
  using published_templates_ok [OF sample_crates_ok(1) sample_node_header_ok] sample_ipc_start
  unfolding Let_def by blast

text \<open>
  C26: A solution that is sent always goes to the block client that serves the last published template,
  whichever template it is for: its template id is not consulted. A solution for a template published
  before is submitted there all the same, and the template id of that block client is a later one.
\<close>

theorem stale_solution_misdirected:
  assumes "ipc_start L N block = Inr s0" and "s = ipc_run L N es s0" and "ip_phase s = Running"
    and "\<And>e. reply \<noteq> Submit_Unsent e"
  defines "templates \<equiv> published_templates (ip_log s)"
  shows "ip_log (ipc_step L N (Solution_Received sol reply) s) = ip_log s @ [Submitted (ip_block s) sol] \<and>
    fetch_template L N (ip_block s) (nt_template_id (rt_new_template (last templates))) = Inr (last templates) \<and>
    (\<forall>raw \<in> set (butlast templates). ss_template_id sol = nt_template_id (rt_new_template raw) \<longrightarrow>
      unat (ss_template_id sol) < unat (nt_template_id (rt_new_template (last templates))))"
proof -
  let ?id = "\<lambda>raw. unat (nt_template_id (rt_new_template raw))"
  have inv: "ipc_inv L N s" using ipc_run_inv [OF assms(1)] assms(2) by simp
  then have ids: "map ?id templates = [0..<length templates]" and some: "templates \<noteq> []"
    using assms(3) by (simp_all add: ipc_inv_def templates_def)
  have "?id raw < ?id (last templates)" if raw: "raw \<in> set (butlast templates)" for raw
  proof -
    obtain k where k: "k < length templates - 1" "raw = templates ! k"
      using raw by (metis in_set_conv_nth length_butlast nth_butlast)
    have "?id (templates ! n) = n" if n: "n < length templates" for n
      using n ids [THEN arg_cong, of "\<lambda>xs. xs ! n"] by simp
    with k some show ?thesis by (simp add: last_conv_nth)
  qed
  then show ?thesis
    using inv assms(3) submit_solution_sends [OF assms(4)]
    by (auto simp: ipc_inv_def ipc_step_def templates_def)
qed

text \<open>A second template is published, and a solution for the first one arrives.\<close>

theorem stale_solution_misdirected_witness:
  "\<exists>s sol. map (\<lambda>raw. nt_template_id (rt_new_template raw)) (published_templates (ip_log s)) = [0, 1] \<and>
    ss_template_id sol = 0 \<and>
    ip_log (ipc_step sample_crates sample_node (Solution_Received sol (Submit_Answer True)) s) =
      ip_log s @ [Submitted 7 sol] \<and>
    fetch_template sample_crates sample_node 7 1 = Inr (last (published_templates (ip_log s))) \<and>
    unat (ss_template_id sol) < 1"
proof -
  obtain raw0 raw1 where fetch: "fetch_template sample_crates sample_node 0 0 = Inr raw0"
    "fetch_template sample_crates sample_node (7 :: nat) 1 = Inr raw1"
    using sample_fetch [of 0 0] sample_fetch [of 7 1] by blast
  let ?es = "[Wait_Next (\<lambda>_. Wait_Client (7 :: nat)) True]"
  let ?init = "\<lparr>ip_block = 0 :: nat, ip_template_id = 1, ip_log = [Published raw0], ip_phase = Running\<rparr>"
  let ?s = "\<lparr>ip_block = 7 :: nat, ip_template_id = 2, ip_log = [Published raw0, Destroyed 0, Published raw1],
    ip_phase = Running\<rparr>"
  let ?sol = "\<lparr>ss_template_id = 0, ss_version = 0, ss_header_timestamp = 0, ss_header_nonce = 0, ss_coinbase_tx = []\<rparr>"
  have start: "ipc_start sample_crates sample_node 0 = Inr ?init"
    using fetch(1) by (simp add: ipc_start_def increment_template_id_def)
  have run: "?s = ipc_run sample_crates sample_node ?es ?init"
    using fetch(2) by (simp add: ipc_run_def ipc_step_def new_block_def Let_def destroy_block_client_def
        increment_template_id_def)
  have ids: "nt_template_id (rt_new_template raw0) = 0" "nt_template_id (rt_new_template raw1) = 1"
    using fetch [THEN fetch_template_id] by simp_all
  from stale_solution_misdirected [OF start run, of "Submit_Answer True" ?sol] ids show ?thesis
    by (intro exI [of _ ?s] exI [of _ ?sol]) simp
qed

text \<open>
  The reserved weight is four times the configured size, at least 2000; sizes of \<open>2 ^ 30\<close> and
  more overflow the 32-bit product and end the client.
\<close>

lemma reserved_weight_value:
  "case reserved_weight n of
     Inr r \<Rightarrow> unat n < 2 ^ 30 \<and> unat r = max (4 * unat n) 2000
   | Inl e \<Rightarrow> 2 ^ 30 \<le> unat n \<and> e = Panic ''attempt to multiply with overflow''"
proof (cases "unat n < 2 ^ 30")
  case True
  then have p: "unat (n * 4) = 4 * unat n" by (simp add: unat_word_ariths)
  have "unat (ucast (n * 4) :: u64) = 4 * unat n"
    using unat_width(2) [of "n * 4"] unfolding unsigned_ucast_eq p [symmetric] by (simp add: take_bit_nat_eq_self)
  then have "unat (max (ucast (n * 4)) (2000 :: u64)) = max (4 * unat n) 2000"
    by (simp add: max_def word_le_nat_alt)
  with True show ?thesis
    by (simp add: reserved_weight_def WEIGHT_FACTOR_def MIN_BLOCK_RESERVED_WEIGHT_def)
qed (simp add: reserved_weight_def WEIGHT_FACTOR_def)

end
