(* ===== verification/Db_Worker.thy ===== *)
theory Db_Worker
  imports Database
begin

text \<open>
  The worker thread that owns the database, from \<open>pool/src/db.rs\<close>:
  batching of events, the flush every sixty seconds or thousand shares, and the end of the loop.
  The invariant of the loop: the rows of the database and the batch are
  together the shares received so far, in order, and the statistics agree with the rows.
\<close>

section \<open>The worker\<close>

definition FLUSH_INTERVAL :: int where "FLUSH_INTERVAL = 60"

text \<open>
  Time is in seconds: \<open>wk_last_flush\<close> on the monotonic clock. \<open>push_event\<close> and \<open>flush\<close> act on the
  batches and the database, which are the fields of the worker.
\<close>

record worker =
  wk_db :: database
  wk_shares :: "share_event list"
  wk_miners :: "(string \<times> int) list"
  wk_windows :: "string \<rightharpoonup> f64"
  wk_last_flush :: int
  wk_running :: bool

definition push_event :: "db_event \<Rightarrow> worker \<Rightarrow> worker" where
  "push_event ev w =
     (case ev of
        Share s \<Rightarrow>
          w\<lparr>wk_windows := (wk_windows w)(se_miner_address s \<mapsto>
              f64_add (case wk_windows w (se_miner_address s) of None \<Rightarrow> Fin 0 | Some d \<Rightarrow> d) (se_difficulty s)),
            wk_shares := wk_shares w @ [s]\<rparr>
      | Miner_Connected address timestamp \<Rightarrow> w\<lparr>wk_miners := wk_miners w @ [(address, timestamp)]\<rparr>)"

text \<open>Rust's integer division truncates towards zero.\<close>

definition floor_minute :: "int \<Rightarrow> int" where
  "floor_minute ts_secs = sgn ts_secs * (\<bar>ts_secs\<bar> div 60) * 60"

text \<open>
  What the environment contributes to one iteration: the result of the blocking receive, the events
  drained after it and whether the drain ended with a disconnection, the monotonic time and
  the system clock, the iteration order of the hash map, the failing statements.
\<close>

datatype recv_result = Received db_event | Disconnected | Timeout

record iteration =
  it_first :: recv_result
  it_drained :: "db_event list"
  it_drain_disconnected :: bool
  it_now :: int
  it_unix :: "nat option"
  it_order :: "(string \<rightharpoonup> f64) \<Rightarrow> string list"
  it_faults :: "bool list"

definition flush :: "iteration \<Rightarrow> worker \<Rightarrow> worker" where
  "flush i w =
     (if wk_shares w = [] \<and> wk_miners w = [] \<and> wk_windows w = Map.empty then w
      else
        case flush_inner (it_faults i) (wk_shares w) (wk_miners w) (wk_windows w)
               (it_order i (wk_windows w)) (floor_minute (now_secs (it_unix i))) (wk_db w) of
          Inr db \<Rightarrow> w\<lparr>wk_db := db, wk_shares := [], wk_miners := [], wk_windows := Map.empty\<rparr>
        | Inl _ \<Rightarrow> w)"

definition worker_iteration :: "iteration \<Rightarrow> worker \<Rightarrow> worker" where
  "worker_iteration i w =
     (if \<not> wk_running w then w
      else
        case it_first i of
          Disconnected \<Rightarrow> (flush i w)\<lparr>wk_running := False\<rparr>
        | r \<Rightarrow>
            let w = (case r of Received ev \<Rightarrow> push_event ev w | _ \<Rightarrow> w);
                w = fold push_event (it_drained i) w
            in
            if it_drain_disconnected i then (flush i w)\<lparr>wk_running := False\<rparr>
            else if it_now i - wk_last_flush w \<ge> FLUSH_INTERVAL \<or> length (wk_shares w) \<ge> 1000 then
              (flush i w)\<lparr>wk_last_flush := it_now i\<rparr>
            else w)"

definition worker_start :: "int \<Rightarrow> database \<Rightarrow> worker" where
  "worker_start now db =
     \<lparr>wk_db = db, wk_shares = [], wk_miners = [], wk_windows = Map.empty, wk_last_flush = now,
      wk_running = True\<rparr>"

text \<open>The events that an iteration takes from the channel.\<close>

definition taken :: "iteration \<Rightarrow> db_event list" where
  "taken i =
     (case it_first i of
        Disconnected \<Rightarrow> []
      | Received ev \<Rightarrow> ev # it_drained i
      | Timeout \<Rightarrow> it_drained i)"

fun share_of :: "db_event \<Rightarrow> share_event option" where
  "share_of (Share s) = Some s"
| "share_of (Miner_Connected a t) = None"

fun connected_of :: "db_event \<Rightarrow> (string \<times> int) option" where
  "connected_of (Share s) = None"
| "connected_of (Miner_Connected a t) = Some (a, t)"

section \<open>The invariant\<close>

text \<open>
  A run is followed together with the events received so far. The hash map gives its keys once
  each, and block hashes have 32 bytes.
\<close>

definition iteration_legal :: "iteration \<Rightarrow> worker \<times> db_event list \<Rightarrow> bool" where
  "iteration_legal i ws \<longleftrightarrow>
     (\<forall>m. finite (dom m) \<longrightarrow> distinct (it_order i m) \<and> set (it_order i m) = dom m) \<and>
     (\<forall>ev \<in> set (taken i). \<forall>s. share_of ev = Some s \<longrightarrow> length (se_block_hash_be s) = 32)"

definition worker_step :: "iteration \<Rightarrow> worker \<times> db_event list \<Rightarrow> worker \<times> db_event list" where
  "worker_step i ws =
     (worker_iteration i (fst ws), if wk_running (fst ws) then snd ws @ taken i else snd ws)"

text \<open>
  What is in the batches, and the whole: \<open>old\<close> is the database at the start. The connected miners
  are first the flushed ones, then the batch; a miner keeps the first time it was seen.
\<close>

definition batch_ok :: "worker \<Rightarrow> bool" where
  "batch_ok w \<longleftrightarrow> dom (wk_windows w) = se_miner_address ` set (wk_shares w) \<and>
     (\<forall>s \<in> set (wk_shares w). length (se_block_hash_be s) = 32)"

definition worker_inv :: "database \<Rightarrow> worker \<times> db_event list \<Rightarrow> bool" where
  "worker_inv old ws \<longleftrightarrow>
     (let w = fst ws; history = snd ws in
      db_ok (wk_db w) \<and> batch_ok w \<and>
      shares (wk_db w) @ wk_shares w = shares old @ List.map_filter share_of history \<and>
      (\<exists>seen. seen @ wk_miners w = List.map_filter connected_of history \<and>
         miners (wk_db w) = map_of seen ++ miners old))"

lemma push_event_keeps:
  assumes "batch_ok w" and "\<forall>s. share_of ev = Some s \<longrightarrow> length (se_block_hash_be s) = 32"
  shows "batch_ok (push_event ev w)" and "wk_db (push_event ev w) = wk_db w"
    and "wk_shares (push_event ev w) = wk_shares w @ List.map_filter share_of [ev]"
    and "wk_miners (push_event ev w) = wk_miners w @ List.map_filter connected_of [ev]"
  using assms
  by (cases ev; auto simp: push_event_def batch_ok_def List.map_filter_simps)+

lemma push_events_keep:
  assumes "batch_ok w" and "\<forall>ev \<in> set evs. \<forall>s. share_of ev = Some s \<longrightarrow> length (se_block_hash_be s) = 32"
  shows "batch_ok (fold push_event evs w) \<and> wk_db (fold push_event evs w) = wk_db w \<and>
    wk_shares (fold push_event evs w) = wk_shares w @ List.map_filter share_of evs \<and>
    wk_miners (fold push_event evs w) = wk_miners w @ List.map_filter connected_of evs"
  using assms
proof (induction evs arbitrary: w)
  case (Cons ev evs)
  have ev: "\<forall>s. share_of ev = Some s \<longrightarrow> length (se_block_hash_be s) = 32" using Cons.prems(2) by simp
  note p = push_event_keeps [OF Cons.prems(1) ev]
  from Cons.IH [OF p(1)] Cons.prems(2) p show ?case
    by (simp add: List.map_filter_simps split: option.split)
qed (simp add: List.map_filter_simps)

lemma flush_keeps:
  assumes "worker_inv old (w, h)" and "iteration_legal i ws"
  shows "worker_inv old (flush i w, h)"
proof (cases "flush_inner (it_faults i) (wk_shares w) (wk_miners w) (wk_windows w)
    (it_order i (wk_windows w)) (floor_minute (now_secs (it_unix i))) (wk_db w)")
  case (Inl e)
  with assms(1) show ?thesis by (simp add: flush_def)
next
  case (Inr db)
  note db = flush_inner_Inr [OF Inr]
  have w: "db_ok (wk_db w)" "dom (wk_windows w) = se_miner_address ` set (wk_shares w)"
    "\<forall>s \<in> set (wk_shares w). length (se_block_hash_be s) = 32"
    using assms(1) by (simp_all add: worker_inv_def batch_ok_def Let_def)
  have "finite (dom (wk_windows w))" using w(2) by simp
  then have "set (it_order i (wk_windows w)) = dom (wk_windows w)"
    using assms(2) by (simp add: iteration_legal_def)
  then have "db_ok db" unfolding db using w by (intro flushed_ok) simp_all
  moreover obtain seen where seen: "seen @ wk_miners w = List.map_filter connected_of h"
    "miners (wk_db w) = map_of seen ++ miners old"
    using assms(1) by (auto simp: worker_inv_def Let_def)
  have "miners db = map_of (seen @ wk_miners w) ++ miners old"
    by (simp add: db flushed_rows seen(2))
  moreover have "shares db = shares old @ List.map_filter share_of h"
    using assms(1) by (simp add: db flushed_rows worker_inv_def Let_def)
  ultimately have "worker_inv old
      (w\<lparr>wk_db := db, wk_shares := [], wk_miners := [], wk_windows := Map.empty\<rparr>, h)"
    using seen(1) by (simp add: worker_inv_def batch_ok_def)
  with assms(1) Inr show ?thesis by (simp add: flush_def)
qed

lemma worker_inv_update [simp]:
  "worker_inv old (w\<lparr>wk_running := b\<rparr>, h) = worker_inv old (w, h)"
  "worker_inv old (w\<lparr>wk_last_flush := n\<rparr>, h) = worker_inv old (w, h)"
  by (simp_all add: worker_inv_def batch_ok_def)

lemma push_inv:
  assumes "worker_inv old (w, h)" and "\<forall>ev \<in> set evs. \<forall>s. share_of ev = Some s \<longrightarrow> length (se_block_hash_be s) = 32"
  shows "worker_inv old (fold push_event evs w, h @ evs)"
proof -
  have "batch_ok w" using assms(1) by (simp add: worker_inv_def Let_def)
  from push_events_keep [OF this assms(2)] assms(1) show ?thesis
    by (auto simp: worker_inv_def Let_def List.map_filter_def)
qed

lemma worker_step_inv:
  assumes "worker_inv old ws" and "iteration_legal i ws"
  shows "worker_inv old (worker_step i ws)"
proof -
  obtain w h where ws: "ws = (w, h)" by (cases ws)
  have inv: "worker_inv old (w, h)" using assms(1) ws by simp
  have evs: "\<forall>ev \<in> set (taken i). \<forall>s. share_of ev = Some s \<longrightarrow> length (se_block_hash_be s) = 32"
    using assms(2) by (simp add: iteration_legal_def)
  note flush = flush_keeps [OF _ assms(2)]
  show ?thesis
  proof (cases "wk_running w \<and> it_first i \<noteq> Disconnected")
    case True
    have "fold push_event (it_drained i) (case it_first i of Received ev \<Rightarrow> push_event ev w | _ \<Rightarrow> w) =
        fold push_event (taken i) w"
      using True by (simp add: taken_def split: recv_result.split)
    with True ws push_inv [OF inv evs] flush show ?thesis
      by (cases "it_first i") (simp_all add: worker_step_def worker_iteration_def Let_def)
  next
    case False
    with ws inv flush [OF inv] show ?thesis
      by (auto simp: worker_step_def worker_iteration_def taken_def)
  qed
qed

interpretation worker_loop: event_loop "worker_inv old" iteration_legal worker_step for old
  by unfold_locales (rule worker_step_inv)

lemma worker_start_inv: "db_ok old \<Longrightarrow> worker_inv old (worker_start now old, [])"
  by (simp add: worker_inv_def worker_start_def batch_ok_def List.map_filter_simps)

definition worker_run :: "int \<Rightarrow> database \<Rightarrow> iteration list \<Rightarrow> worker \<times> db_event list" where
  "worker_run now old is = fold worker_step is (worker_start now old, [])"

lemma worker_run_inv:
  assumes "db_ok old" and "legal_run iteration_legal worker_step is (worker_start now old, [])"
  shows "worker_inv old (worker_run now old is)"
  unfolding worker_run_def by (rule worker_loop.run_inv [OF worker_start_inv [OF assms(1)] assms(2)])

section \<open>The window of the minute\<close>

text \<open>The window holds, for each address of the batch, the sum of its difficulties in their order.\<close>

definition window_of :: "share_event list \<Rightarrow> string \<Rightarrow> f64 option" where
  "window_of batch a =
     (if rows_of a batch = [] then None
      else Some (foldl f64_add (Fin 0) (map se_difficulty (rows_of a batch))))"

definition windows_ok :: "worker \<times> db_event list \<Rightarrow> bool" where
  "windows_ok ws \<longleftrightarrow> wk_windows (fst ws) = window_of (wk_shares (fst ws))"

lemma window_of_snoc:
  "window_of (batch @ [s]) = (window_of batch)(se_miner_address s \<mapsto>
    f64_add (case window_of batch (se_miner_address s) of None \<Rightarrow> Fin 0 | Some d \<Rightarrow> d) (se_difficulty s))"
  by (auto simp: window_of_def fun_eq_iff)

lemma window_of_Nil [simp]: "window_of [] = Map.empty"
  by (simp add: window_of_def fun_eq_iff)

lemma push_windows: "windows_ok (w, h) \<Longrightarrow> windows_ok (push_event ev w, h')"
  by (simp add: windows_ok_def push_event_def window_of_snoc split: db_event.split)

lemma pushes_windows: "windows_ok (w, h) \<Longrightarrow> windows_ok (fold push_event evs w, h')"
  by (induction evs arbitrary: w h) (auto simp: windows_ok_def intro: push_windows [unfolded windows_ok_def, simplified])

lemma flush_windows: "windows_ok (w, h) \<Longrightarrow> windows_ok (flush i w, h')"
  by (simp add: windows_ok_def flush_def split: sum.split)

lemma worker_step_windows: "windows_ok ws \<Longrightarrow> windows_ok (worker_step i ws)"
proof -
  assume ok: "windows_ok ws"
  obtain w h where ws: "ws = (w, h)" by (cases ws)
  note push = push_windows [OF ok [unfolded ws]] pushes_windows [OF ok [unfolded ws]]
  show ?thesis
    using ok push pushes_windows [OF push(1)] flush_windows [OF push(2)] flush_windows [OF pushes_windows [OF push(1)]]
      flush_windows [OF ok [unfolded ws]]
    by (auto simp: ws worker_step_def worker_iteration_def windows_ok_def Let_def split: recv_result.split)
qed

interpretation windows_loop: event_loop windows_ok iteration_legal worker_step
  by unfold_locales (rule worker_step_windows)

lemma flush_running [simp]: "wk_running (flush i w) = wk_running w"
  by (simp add: flush_def split: sum.split)

lemma push_running [simp]: "wk_running (push_event ev w) = wk_running w"
  by (simp add: push_event_def split: db_event.split)

lemma pushes_running [simp]: "wk_running (fold push_event evs w) = wk_running w"
  by (induction evs arbitrary: w) simp_all

section \<open>A sample run\<close>

definition sample_share_event :: "u8 \<Rightarrow> share_event" where
  "sample_share_event b = \<lparr>se_miner_address = ''bc1q'', se_difficulty = Fin 1,
     se_block_hash_be = replicate 31 0 @ [b], se_timestamp = 1700000000\<rparr>"

definition sample_iteration :: "db_event \<Rightarrow> db_event list \<Rightarrow> int \<Rightarrow> iteration" where
  "sample_iteration ev evs now =
     \<lparr>it_first = Received ev, it_drained = evs, it_drain_disconnected = False, it_now = now,
      it_unix = Some (1700000000 + nat now), it_order = (\<lambda>m. sorted_list_of_set (dom m)), it_faults = []\<rparr>"

definition sample_iterations :: "iteration list" where
  "sample_iterations =
     [sample_iteration (Miner_Connected ''bc1q'' 1700000000) [Share (sample_share_event 7)] 1,
      sample_iteration (Share (sample_share_event 5)) [Share (sample_share_event 9)] 60,
      sample_iteration (Share (sample_share_event 8)) [] 70]"

lemma empty_database_ok: "db_ok empty_database"
  by (simp add: db_ok_def empty_database_def stats_ok_def)

lemma sample_iterations_legal: "legal_run iteration_legal worker_step sample_iterations ws"
  by (auto simp: sample_iterations_def iteration_legal_def sample_iteration_def taken_def
      sample_share_event_def)

section \<open>Properties\<close>

text \<open>
  C7: No share is lost, duplicated or reordered: in every run, whichever statements fail, the rows
  of \<open>shares\<close> followed by the batch are the rows at the start followed by the shares received, in
  the order received; and the miners seen are the first times at which they connected, of the
  connections that are not still in the batch.
\<close>

theorem worker_loses_nothing:
  assumes "db_ok old" and "legal_run iteration_legal worker_step is (worker_start now old, [])"
    and "worker_run now old is = (w, received)"
  shows "shares (wk_db w) @ wk_shares w = shares old @ List.map_filter share_of received \<and>
    (\<exists>seen. seen @ wk_miners w = List.map_filter connected_of received \<and>
       miners (wk_db w) = map_of seen ++ miners old)"
  using worker_run_inv [OF assms(1,2)] assms(3) by (simp add: worker_inv_def)

theorem worker_loses_nothing_witness:
  "\<exists>w received. worker_run 0 empty_database sample_iterations = (w, received) \<and>
    shares (wk_db w) @ wk_shares w = List.map_filter share_of received"
proof -
  obtain w received where run: "worker_run 0 empty_database sample_iterations = (w, received)"
    by (cases "worker_run 0 empty_database sample_iterations")
  from worker_loses_nothing [OF empty_database_ok sample_iterations_legal run] run show ?thesis
    by (auto simp: empty_database_def)
qed

text \<open>
  C8: In every run the cumulative statistics of each address are those of its rows: the number of
  its shares, the sum of their difficulties in the order of insertion, and a hash of one of them
  that is smallest as a number; an address without a row has no statistics.
\<close>

theorem statistics_match_rows:
  assumes "db_ok old" and "legal_run iteration_legal worker_step is (worker_start now old, [])"
  shows "let db = wk_db (fst (worker_run now old is)); rows = rows_of a (shares db) in
    case epoch_stats db a of
      None \<Rightarrow> rows = []
    | Some r \<Rightarrow> rows \<noteq> [] \<and> ep_shares_count r = int (length rows) \<and>
        ep_total_difficulty r = difficulty_sum (map se_difficulty rows) \<and>
        (\<exists>best \<in> set rows. ep_best_share_hash r = Some (se_block_hash_be best) \<and>
          list_all (\<lambda>s. be_nat (se_block_hash_be best) \<le> be_nat (se_block_hash_be s)) rows)"
proof -
  have "db_ok (wk_db (fst (worker_run now old is)))"
    using worker_run_inv [OF assms] by (simp add: worker_inv_def Let_def)
  then have "stats_ok (shares (wk_db (fst (worker_run now old is)))) (epoch_stats (wk_db (fst (worker_run now old is)))) a"
    by (simp add: db_ok_def)
  then show ?thesis
    by (auto simp: stats_ok_def Let_def epoch_row_ok_def best_hash_def list_all_iff split: option.splits)
qed

theorem statistics_match_rows_witness:
  "let db = wk_db (fst (worker_run 0 empty_database sample_iterations)); rows = rows_of ''bc1q'' (shares db) in
    case epoch_stats db ''bc1q'' of
      None \<Rightarrow> rows = []
    | Some r \<Rightarrow> rows \<noteq> [] \<and> ep_shares_count r = int (length rows) \<and>
        ep_total_difficulty r = difficulty_sum (map se_difficulty rows) \<and>
        (\<exists>best \<in> set rows. ep_best_share_hash r = Some (se_block_hash_be best) \<and>
          list_all (\<lambda>s. be_nat (se_block_hash_be best) \<le> be_nat (se_block_hash_be s)) rows)"
  by (rule statistics_match_rows [OF empty_database_ok sample_iterations_legal])

text \<open>
  C12: The difficulty of each share is counted in exactly one minute. In every run, whichever flushes
  failed before, a flush that commits adds to the row of its minute, for each address with shares in
  the batch, the sum of the difficulties of these shares; it removes the rows older than a day and
  leaves every other row as it was. The batch is empty afterwards, so no share is added twice. The flush
  that commits is one with a share in the batch whose statements all succeed.
\<close>

theorem minute_rows_match_batch:
  assumes "db_ok old" and "legal_run iteration_legal worker_step is (worker_start now old, [])"
    and "worker_run now old is = (w, received)" and "iteration_legal i (w, received)"
    and "it_faults i = []" and "minute = floor_minute (now_secs (it_unix i))"
    and "wk_shares w \<noteq> []"
  shows "wk_shares (flush i w) = [] \<and>
    (let mine = rows_of a (wk_shares w);
         before = map_of (minute_hashrates (wk_db w)) (a, t);
         batch = foldl f64_add (Fin 0) (map se_difficulty mine)
     in map_of (minute_hashrates (wk_db (flush i w))) (a, t) =
       (if t < minute - MINUTE_RETENTION_SECS then None
        else if t = minute \<and> mine \<noteq> [] then
          Some (case before of None \<Rightarrow> batch | Some old \<Rightarrow> f64_add old batch)
        else before))"
proof -
  let ?keys = "it_order i (wk_windows w)"
  have "windows_ok (worker_start now old, [])" by (simp add: windows_ok_def worker_start_def)
  from windows_loop.run_inv [OF this assms(2)] assms(3)
  have win: "wk_windows w = window_of (wk_shares w)" by (simp add: worker_run_def windows_ok_def)
  have "finite (dom (wk_windows w))"
    using worker_run_inv [OF assms(1,2)] assms(3) by (simp add: worker_inv_def batch_ok_def)
  then have keys: "distinct ?keys" "set ?keys = dom (wk_windows w)" using assms(4) by (simp_all add: iteration_legal_def)
  have "wk_db (flush i w) = flushed (wk_shares w) (wk_miners w) (wk_windows w) ?keys minute (wk_db w)"
    and "wk_shares (flush i w) = []"
    using assms(5-7) by (simp_all add: flush_def flush_inner_total)
  moreover have "a \<in> set ?keys \<longleftrightarrow> rows_of a (wk_shares w) \<noteq> []"
    unfolding keys(2) by (simp add: win window_of_def dom_def)
  moreover have "rows_of a (wk_shares w) \<noteq> [] \<Longrightarrow> the (wk_windows w a) =
      foldl f64_add (Fin 0) (map se_difficulty (rows_of a (wk_shares w)))"
    by (simp add: win window_of_def)
  ultimately show ?thesis using flushed_minute_rows [OF keys(1)]
    by (cases "t = minute \<and> rows_of a (wk_shares w) \<noteq> []") (auto simp: Let_def split: option.split)
qed

theorem minute_rows_match_batch_witness:
  "\<exists>w received. worker_run 0 empty_database (take 1 sample_iterations) = (w, received) \<and>
    map_of (minute_hashrates (wk_db (flush (sample_iteration (Share (sample_share_event 5)) [] 60) w)))
      (''bc1q'', floor_minute (now_secs (Some 1700000060))) = Some (f64_add (Fin 0) (Fin 1))"
proof -
  let ?i = "sample_iteration (Share (sample_share_event 5)) [] 60"
  obtain w received where run: "worker_run 0 empty_database (take 1 sample_iterations) = (w, received)"
    by (cases "worker_run 0 empty_database (take 1 sample_iterations)")
  have legal: "legal_run iteration_legal worker_step (take 1 sample_iterations) (worker_start 0 empty_database, [])"
    "iteration_legal ?i (w, received)"
    by (auto simp: sample_iterations_def iteration_legal_def sample_iteration_def taken_def sample_share_event_def)
  have w: "wk_shares w = [sample_share_event 7]" "minute_hashrates (wk_db w) = []"
    using run by (auto simp: worker_run_def sample_iterations_def sample_iteration_def worker_step_def
        worker_iteration_def worker_start_def push_event_def empty_database_def FLUSH_INTERVAL_def)
  have i: "it_faults ?i = []" "floor_minute (now_secs (Some 1700000060)) = floor_minute (now_secs (it_unix ?i))"
    by (simp_all add: sample_iteration_def)
  from minute_rows_match_batch [OF empty_database_ok legal(1) run legal(2) i, of "''bc1q''"
      "floor_minute (now_secs (Some 1700000060))"] run w
  show ?thesis by (auto simp: sample_share_event_def rows_of_def MINUTE_RETENTION_SECS_def)
qed

text \<open>
  C35: A flush is all or nothing, and succeeds when no statement fails: afterwards either the
  worker is as it was, or the whole batch is in the database and the batch is empty. With no fault
  it is always the second, so after an iteration that does not end the loop fewer than a thousand
  shares are waiting.
\<close>

theorem flush_all_or_nothing:
  "(flush i w = w \<or>
     (let keys = it_order i (wk_windows w); minute = floor_minute (now_secs (it_unix i)) in
      flush i w = w\<lparr>wk_db := flushed (wk_shares w) (wk_miners w) (wk_windows w) keys minute (wk_db w),
        wk_shares := [], wk_miners := [], wk_windows := Map.empty\<rparr>)) \<and>
   (it_faults i = [] \<longrightarrow> wk_shares (flush i w) = [] \<and> wk_miners (flush i w) = [] \<and>
      wk_windows (flush i w) = Map.empty) \<and>
   (it_faults i = [] \<longrightarrow> wk_running (worker_iteration i w) \<longrightarrow>
      length (wk_shares (worker_iteration i w)) < 1000)"
proof -
  have total: "wk_shares (flush i v) = [] \<and> wk_miners (flush i v) = [] \<and> wk_windows (flush i v) = Map.empty"
    if "it_faults i = []" for v
    using that by (simp add: flush_def flush_inner_total)
  have all: "flush i w = w \<or> flush i w = w\<lparr>wk_db := flushed (wk_shares w) (wk_miners w) (wk_windows w)
      (it_order i (wk_windows w)) (floor_minute (now_secs (it_unix i))) (wk_db w), wk_shares := [], wk_miners := [], wk_windows := Map.empty\<rparr>"
    by (auto simp: flush_def dest: flush_inner_Inr split: sum.split)
  have "length (wk_shares (worker_iteration i w)) < 1000"
    if "it_faults i = []" "wk_running (worker_iteration i w)"
    using that total by (auto simp: worker_iteration_def Let_def split: recv_result.splits if_splits)
  with total all show ?thesis by (simp add: Let_def)
qed

definition sample_worker :: worker where
  "sample_worker = push_event (Share (sample_share_event 7)) (worker_start 0 empty_database)"

theorem flush_all_or_nothing_witness:
  "wk_shares (flush (sample_iteration (Share (sample_share_event 5)) [] 60) sample_worker) = [] \<and>
   length (wk_shares (worker_iteration (sample_iteration (Share (sample_share_event 5)) [] 60) sample_worker)) < 1000"
proof -
  let ?i = "sample_iteration (Share (sample_share_event 5)) [] 60"
  have "it_faults ?i = []" by (simp add: sample_iteration_def)
  moreover have "wk_running (worker_iteration ?i sample_worker)"
    by (simp add: worker_iteration_def sample_iteration_def sample_worker_def worker_start_def Let_def)
  ultimately show ?thesis using flush_all_or_nothing [of ?i sample_worker] by blast
qed

text \<open>The batch of a flush: its hash map has the addresses of its shares as keys, iterated over once each.\<close>

definition batch_keys :: "share_event list \<Rightarrow> (string \<rightharpoonup> f64) \<Rightarrow> string list \<Rightarrow> bool" where
  "batch_keys ss windows keys \<longleftrightarrow>
     distinct keys \<and> set keys = dom windows \<and> dom windows = se_miner_address ` set ss"

text \<open>
  C36: A committed flush adds one to the \<open>active_minutes\<close> of every address with a share in the batch,
  whatever the minute: after two committed flushes within one minute, as a thousand shares cause, an
  address with shares in both is counted twice, while each address of either batch has exactly one row
  of \<open>minute_hashrates\<close> for that minute (where the table had one row for a key before). No row older than a
  day is left.
\<close>

theorem active_minutes_count_flushes:
  assumes "flush_inner faults1 ss1 ms1 windows1 keys1 minute_ts db = Inr db1"
    and "flush_inner faults2 ss2 ms2 windows2 keys2 minute_ts db1 = Inr db2"
    and "batch_keys ss1 windows1 keys1" and "batch_keys ss2 windows2 keys2"
    and "distinct (map fst (minute_hashrates db))"
  shows "active_minutes db2 a = active_minutes db a +
      (if a \<in> se_miner_address ` set ss1 then 1 else 0) + (if a \<in> se_miner_address ` set ss2 then 1 else 0) \<and>
    (a \<in> se_miner_address ` set (ss1 @ ss2) \<longrightarrow>
      length (filter (\<lambda>row. fst row = (a, minute_ts)) (minute_hashrates db2)) = 1) \<and>
    list_all (\<lambda>((addr, t), d). minute_ts - MINUTE_RETENTION_SECS \<le> t) (minute_hashrates db2)"
proof -
  note db1 = flush_inner_Inr [OF assms(1)] and db2 = flush_inner_Inr [OF assms(2)]
  have keys: "distinct keys1" "set keys1 = se_miner_address ` set ss1"
    "distinct keys2" "set keys2 = se_miner_address ` set ss2"
    using assms(3,4) by (simp_all add: batch_keys_def)
  have active: "active_minutes db2 a = active_minutes db a + (if a \<in> set keys1 then 1 else 0) + (if a \<in> set keys2 then 1 else 0)"
    unfolding db2 flushed_active [OF keys(3)] unfolding db1 flushed_active [OF keys(1)] by (rule refl)
  have "distinct (map fst (minute_hashrates db2))" unfolding db2 db1 by (intro flushed_distinct assms(5))
  moreover have "\<exists>d. map_of (minute_hashrates db2) (a, minute_ts) = Some d" if "a \<in> set keys1 \<union> set keys2"
    using that unfolding db2 db1 flushed_minute_rows [OF keys(3)] flushed_minute_rows [OF keys(1)]
    by (auto simp: MINUTE_RETENTION_SECS_def)
  ultimately have "a \<in> set keys1 \<union> set keys2 \<Longrightarrow>
      length (filter (\<lambda>row. fst row = (a, minute_ts)) (minute_hashrates db2)) = 1"
    using one_row by metis
  moreover have "list_all (\<lambda>((addr, t), d). minute_ts - MINUTE_RETENTION_SECS \<le> t) (minute_hashrates db2)"
    unfolding db2 using prune_window by (simp add: list_all_iff)
  ultimately show ?thesis using active keys(2,4) by (simp add: image_Un)
qed

theorem active_minutes_count_flushes_witness:
  "\<exists>db1 db2. flush_inner [] [sample_share_event 7] [] [''bc1q'' \<mapsto> Fin 1] [''bc1q''] 60 empty_database = Inr db1 \<and>
    flush_inner [] [sample_share_event 9] [] [''bc1q'' \<mapsto> Fin 1] [''bc1q''] 60 db1 = Inr db2 \<and>
    active_minutes db2 ''bc1q'' = 2 \<and> length (filter (\<lambda>row. fst row = (''bc1q'', 60)) (minute_hashrates db2)) = 1"
proof -
  let ?m = "[''bc1q'' \<mapsto> Fin 1]"
  define db1 where "db1 = flushed [sample_share_event 7] [] ?m [''bc1q''] 60 empty_database"
  define db2 where "db2 = flushed [sample_share_event 9] [] ?m [''bc1q''] 60 db1"
  have f: "flush_inner [] [sample_share_event 7] [] ?m [''bc1q''] 60 empty_database = Inr db1"
    "flush_inner [] [sample_share_event 9] [] ?m [''bc1q''] 60 db1 = Inr db2"
    by (simp_all add: db1_def db2_def flush_inner_total)
  have k: "batch_keys [sample_share_event 7] ?m [''bc1q'']" "batch_keys [sample_share_event 9] ?m [''bc1q'']"
    by (simp_all add: batch_keys_def sample_share_event_def)
  have "active_minutes empty_database ''bc1q'' = 0" by (simp add: empty_database_def)
  moreover have "distinct (map fst (minute_hashrates empty_database))" by (simp add: empty_database_def)
  from active_minutes_count_flushes [OF f k this, of "''bc1q''"]
  have "active_minutes db2 ''bc1q'' = active_minutes empty_database ''bc1q'' + 2"
    "length (filter (\<lambda>row. fst row = (''bc1q'', 60)) (minute_hashrates db2)) = 1"
    by (simp_all add: sample_share_event_def)
  ultimately show ?thesis using f by (intro exI [of _ db1] exI [of _ db2]) simp
qed

text \<open>
  \<open>floor_minute\<close> is the last full minute of a time at or after the epoch: a multiple of sixty,
  not after it, less than sixty seconds before; before the epoch it rounds up instead.
\<close>

lemma floor_minute_bounds:
  "60 dvd floor_minute t \<and>
   (if 0 \<le> t then floor_minute t \<le> t \<and> t < floor_minute t + 60
    else t \<le> floor_minute t \<and> floor_minute t < t + 60)"
proof (cases "0 \<le> t")
  case True
  have "floor_minute t = t div 60 * 60" using True by (simp add: floor_minute_def sgn_if)
  with True show ?thesis by (simp add: minus_mod_eq_div_mult [symmetric])
next
  case False
  define q r where "q = - t div 60" and "r = - t mod 60"
  have "q * 60 + r = - t" unfolding q_def r_def by (rule div_mult_mod_eq)
  moreover have "0 \<le> r" "r < 60" by (simp_all add: r_def)
  moreover have "floor_minute t = - (q * 60)" using False by (simp add: floor_minute_def q_def)
  ultimately show ?thesis using False by simp
qed

end
