(* ===== verification/Pool.thy ===== *)
theory Pool
  imports Mining_Server Node_Ipc Db_Worker "HOL-Library.Multiset" "HOL-Library.Sublist"
begin

text \<open>
  The running pool: the node client, the connections and the database worker together, as
  \<open>pool/src/main.rs\<close> wires them. The watch channel carries templates from the node client to every
  connection, one queue carries solutions back, another carries the reports to the worker. The
  steps of the parts interleave freely (\<open>pool_step\<close>); the invariant ties the parts to each other.
\<close>

section \<open>Handlers only append to their log\<close>

named_theorems appends_intros

definition appends :: "('s, 'a) handler \<Rightarrow> bool" where
  "appends m \<longleftrightarrow> (\<forall>w. prefix (w_log w) (w_log (snd (m w))))"

lemma appends_primitives [appends_intros]:
  "appends (done_with x)" "appends (fail_with e)" "appends (check r)" "appends get_state"
  "appends (put_state s)" "appends (emit ev)" "appends (write_sv2_message msg b)"
  by (auto simp: appends_def get_state_def write_sv2_message_def split: list.split bool.split)

lemma appends_then [appends_intros]:
  assumes "appends m" and "\<And>x. appends (f x)"
  shows "appends (then_do m f)"
  unfolding appends_def
proof
  fix w
  obtain r w' where m: "m w = (r, w')" by fastforce
  have "prefix (w_log w) (w_log w')" using assms(1) m unfolding appends_def by (metis snd_conv)
  moreover have "prefix (w_log w') (w_log (snd (f x w')))" for x using assms(2) by (simp add: appends_def)
  ultimately show "prefix (w_log w) (w_log (snd (then_do m f w)))"
    using m by (cases r) (auto simp: then_do_def intro: prefix_order.trans)
qed

lemma appends_cases [appends_intros]:
  "(b \<Longrightarrow> appends m) \<Longrightarrow> (\<not> b \<Longrightarrow> appends n) \<Longrightarrow> appends (if b then m else n)"
  "appends m \<Longrightarrow> (\<And>x. appends (f x)) \<Longrightarrow> appends (case o' of None \<Rightarrow> m | Some x \<Rightarrow> f x)"
  "(\<And>x y. appends (g x y)) \<Longrightarrow> appends (case p of (x, y) \<Rightarrow> g x y)"
  "(\<And>bs. appends (h bs)) \<Longrightarrow> (\<And>hdr pl. appends (k hdr pl)) \<Longrightarrow>
    appends (case fr of Hand_Shake bs \<Rightarrow> h bs | Sv2 hdr pl \<Rightarrow> k hdr pl)"
  by (simp_all split: option.split prod.split either_frame.split)

lemma send_jobs_appends [appends_intros]: "appends (send_jobs_to_all_channels L template job_id ids)"
  by (induction ids; unfold send_jobs_to_all_channels.simps; intro appends_intros; assumption)

lemma handlers_append [appends_intros]:
  "appends (handle_setup_connection C frame)" "appends (dispatch_message L C db now frame template)"
  "appends (broadcast L template ids)"
  unfolding handle_setup_connection_def dispatch_message_def broadcast_def Let_def
    handle_open_extended_mining_channel_def handle_submit_shares_extended_def send_shares_error_def
  by (intro appends_intros)+

lemma connection_log_grows:
  "prefix (w_log (cn_world c)) (w_log (cn_world (connection_step L C db ev c)))"
  using handlers_append
  by (cases ev) (auto simp: connection_step_def appends_def split: phase.split)


section \<open>The system\<close>

text \<open>
  The worker is followed together with the events it has received, as in \<open>Db_Worker\<close>. The channels
  are unbounded here: the bound of eight on the queue of solutions only delays a connection.
\<close>

record 'b pool =
  pl_node :: "'b ipc_state"
  pl_conns :: "connection list"
  pl_solutions :: "submit_solution_data list"
  pl_reports :: "db_event list"
  pl_worker :: "worker \<times> db_event list"

fun solution_of :: "effect \<Rightarrow> submit_solution_data option" where
  "solution_of (Solution sol) = Some sol"
| "solution_of _ = None"

fun report_of :: "effect \<Rightarrow> db_event option" where
  "report_of (Db_Sent ev) = Some ev"
| "report_of _ = None"

abbreviation conn_log :: "connection \<Rightarrow> effect list" where
  "conn_log c \<equiv> w_log (cn_world c)"

definition new_effects :: "connection \<Rightarrow> connection \<Rightarrow> effect list" where
  "new_effects c c' = drop (length (conn_log c)) (conn_log c')"

definition pool_templates :: "'b ipc_state \<Rightarrow> raw_template set" where
  "pool_templates n = set (published_templates (ip_log n))"

text \<open>Every receiver of the watch channel sees the templates that a step of the node client publishes.\<close>

definition publish_new :: "crates \<Rightarrow> codec \<Rightarrow> 'b ipc_state \<Rightarrow> 'b ipc_state \<Rightarrow> connection \<Rightarrow> connection" where
  "publish_new L C n n' c =
     fold (\<lambda>t. connection_step L C True (Publish t))
       (drop (length (published_templates (ip_log n))) (published_templates (ip_log n'))) c"

text \<open>
  The server hands each connection a clone of its own receiver, which has never looked at the
  channel: the template is unseen as soon as a second one has been published.
\<close>

definition accept_connection :: "string \<Rightarrow> 'b ipc_state \<Rightarrow> bool list \<Rightarrow> connection" where
  "accept_connection addr n faults =
     connection_start addr (last (published_templates (ip_log n)))
       (1 < length (published_templates (ip_log n))) faults"

text \<open>The keys of a hash map come once each, in any order.\<close>

definition map_order :: "iteration \<Rightarrow> bool" where
  "map_order i \<longleftrightarrow> (\<forall>m. finite (dom m) \<longrightarrow> distinct (it_order i m) \<and> set (it_order i m) = dom m)"

inductive pool_step :: "crates \<Rightarrow> 'b node \<Rightarrow> codec \<Rightarrow> string \<Rightarrow> 'b pool \<Rightarrow> 'b pool \<Rightarrow> bool"
  for L :: crates and N :: "'b node" and C :: codec and addr :: string where
  node: "(\<And>sol answer. ev \<noteq> Solution_Received sol answer) \<Longrightarrow> n' = ipc_step L N ev (pl_node p) \<Longrightarrow>
    pool_step L N C addr p
      (p\<lparr>pl_node := n', pl_conns := map (publish_new L C (pl_node p) n') (pl_conns p)\<rparr>)"
| deliver: "pl_solutions p = sol # sols \<Longrightarrow>
    pool_step L N C addr p
      (p\<lparr>pl_node := ipc_step L N (Solution_Received sol answer) (pl_node p), pl_solutions := sols\<rparr>)"
| accept: "pool_step L N C addr p
      (p\<lparr>pl_conns := pl_conns p @ [accept_connection addr (pl_node p) faults]\<rparr>)"
| peer: "i < length (pl_conns p) \<Longrightarrow> c = pl_conns p ! i \<Longrightarrow> (\<And>t. ev \<noteq> Publish t) \<Longrightarrow> conn_legal {} ev c \<Longrightarrow>
    c' = connection_step L C True ev c \<Longrightarrow>
    pool_step L N C addr p
      (p\<lparr>pl_conns := (pl_conns p)[i := c'],
         pl_solutions := pl_solutions p @ List.map_filter solution_of (new_effects c c'),
         pl_reports := pl_reports p @ List.map_filter report_of (new_effects c c')\<rparr>)"
| store: "wk_running (fst (pl_worker p)) \<Longrightarrow> map_order i \<Longrightarrow> pl_reports p = taken i @ reports \<Longrightarrow>
    pool_step L N C addr p (p\<lparr>pl_worker := worker_step i (pl_worker p), pl_reports := reports\<rparr>)"

inductive_cases pool_stepE: "pool_step L N C addr p p'"

definition pool_start :: "'b ipc_state \<Rightarrow> worker \<Rightarrow> 'b pool" where
  "pool_start n w =
     \<lparr>pl_node = n, pl_conns = [], pl_solutions = [], pl_reports = [], pl_worker = (w, [])\<rparr>"

section \<open>The invariant\<close>

definition conn_reports :: "connection \<Rightarrow> db_event list" where
  "conn_reports c = List.map_filter report_of (conn_log c)"

fun submitted :: "'b ipc_effect \<Rightarrow> submit_solution_data option" where
  "submitted (Submitted b sol) = Some sol"
| "submitted _ = None"

definition pool_inv :: "crates \<Rightarrow> 'b node \<Rightarrow> database \<Rightarrow> 'b pool \<Rightarrow> bool" where
  "pool_inv L N old p \<longleftrightarrow>
     ipc_inv L N (pl_node p) \<and> published_templates (ip_log (pl_node p)) \<noteq> [] \<and>
     (\<forall>c \<in> set (pl_conns p). conn_inv L (pool_templates (pl_node p)) True c) \<and>
     (\<forall>sol \<in> set (pl_solutions p) \<union> set (List.map_filter submitted (ip_log (pl_node p))).
       solution_ok L (pool_templates (pl_node p)) sol) \<and>
     worker_inv old (pl_worker p) \<and>
     mset (concat (map conn_reports (pl_conns p))) = mset (snd (pl_worker p) @ pl_reports p)"

lemma map_filter_append: "List.map_filter f (xs @ ys) = List.map_filter f xs @ List.map_filter f ys"
  by (simp add: List.map_filter_def)

lemma set_map_filter: "y \<in> set (List.map_filter f xs) \<longleftrightarrow> (\<exists>x \<in> set xs. f x = Some y)"
  by (auto simp: List.map_filter_def image_iff)

text \<open>The node client only appends to its log, so no template disappears.\<close>

lemma new_block_grows:
  "\<exists>out. ip_log (new_block L N b r n) = ip_log n @ out \<and> List.map_filter submitted out = []"
  by (auto simp: new_block_def Let_def destroy_block_client_def increment_template_id_def
      List.map_filter_simps split: sum.split)

lemma ipc_event_grows:
  assumes "\<And>sol answer. ev \<noteq> Solution_Received sol answer"
  obtains out where "ip_log (ipc_step L N ev n) = ip_log n @ out" "List.map_filter submitted out = []"
proof -
  have "\<exists>out. ip_log n = ip_log n @ out \<and> List.map_filter submitted out = []"
    by (simp add: List.map_filter_simps)
  then have "\<exists>out. ip_log (ipc_step L N ev n) = ip_log n @ out \<and> List.map_filter submitted out = []"
    using assms
    by (cases ev) (auto simp: ipc_step_def new_block_grows split: sum.split option.split)
  then show thesis using that by blast
qed

lemma ipc_solution_grows:
  "ip_log (ipc_step L N (Solution_Received sol answer) n) =
    ip_log n @ (if ip_phase n = Running then snd (submit_solution (ip_block n) sol answer) else [])"
  by (simp add: ipc_step_def)

lemma submit_solution_log [simp]:
  "published_templates (snd (submit_solution b sol answer)) = []"
  "set (List.map_filter submitted (snd (submit_solution b sol answer))) \<subseteq> {sol}"
  by (cases answer; simp add: List.map_filter_simps)+

text \<open>What a connection satisfies for some templates it satisfies for more.\<close>

lemma solution_ok_mono: "solution_ok L T sol \<Longrightarrow> T \<subseteq> T' \<Longrightarrow> solution_ok L T' sol"
  unfolding solution_ok_def by blast

lemma conn_inv_mono:
  assumes "conn_inv L T db c" and "T \<subseteq> T'"
  shows "conn_inv L T' db c"
proof -
  have "channel_ok L T st cid ch \<Longrightarrow> channel_ok L T' st cid ch" for st cid ch
    using assms(2) unfolding channel_ok_def by blast
  with assms show ?thesis
    by (auto intro: solution_ok_mono simp: conn_inv_def world_ok_def state_ok_def log_ok_def)
qed

lemma publish_fold_inv:
  assumes "crates_ok L" and "templates_ok T" and "set ts \<subseteq> T" and "conn_inv L T True c"
  shows "conn_inv L T True (fold (\<lambda>t. connection_step L C True (Publish t)) ts c)"
  using assms(3,4)
proof (induction ts arbitrary: c)
  case (Cons t ts)
  have "conn_inv L T True (connection_step L C True (Publish t) c)"
    using assms(1,2) Cons.prems
    by (intro connection_step_keeps) (simp_all add: crates_ok_def conn_legal_def)
  with Cons show ?case by simp
qed simp

lemma publish_fold_log [simp]:
  "conn_log (fold (\<lambda>t. connection_step L C True (Publish t)) ts c) = conn_log c"
  by (induction ts arbitrary: c) (simp_all add: connection_step_def)

section \<open>What the connections rely on\<close>

text \<open>
  The contract between a source of templates and the connections that follow it: the source keeps an
  invariant, under which everything it has offered is well formed, and it only adds offers. Then a
  connection that sees the offers as they come keeps its own invariant, for all offers so far.
\<close>

locale template_source = event_loop inv "\<lambda>_ _. True" step
  for inv :: "'n \<Rightarrow> bool" and step :: "'e \<Rightarrow> 'n \<Rightarrow> 'n" +
  fixes offered :: "'n \<Rightarrow> raw_template list"
  assumes offered_ok: "inv n \<Longrightarrow> templates_ok (set (offered n))"
    and offered_grows: "prefix (offered n) (offered (step e n))"
begin

lemma offers_persist: "prefix (offered n) (offered (fold step es n))"
  by (induction es arbitrary: n) (auto intro: prefix_order.trans offered_grows)

lemma offers_ok_after: "inv n \<Longrightarrow> templates_ok (set (offered (fold step es n)))"
  by (intro offered_ok run_inv) simp_all

lemma follower_keeps:
  assumes "crates_ok L" and "inv n" and "conn_inv L (set (offered n)) True c"
  shows "conn_inv L (set (offered (step e n))) True
    (fold (\<lambda>t. connection_step L C True (Publish t)) (drop (length (offered n)) (offered (step e n))) c)"
proof (rule publish_fold_inv [OF assms(1)])
  show "templates_ok (set (offered (step e n)))" using assms(2) step_inv [of n e] by (intro offered_ok) simp
  show "conn_inv L (set (offered (step e n))) True c"
    by (rule conn_inv_mono [OF assms(3)]) (rule set_mono_prefix [OF offered_grows])
qed (rule set_drop_subset)

end

lemma ipc_step_log: "prefix (ip_log n) (ip_log (ipc_step L N ev n))"
proof (cases "\<exists>sol answer. ev = Solution_Received sol answer")
  case True
  then show ?thesis by (auto simp: ipc_solution_grows)
next
  case False
  then obtain out where "ip_log (ipc_step L N ev n) = ip_log n @ out" using ipc_event_grows by metis
  then show ?thesis by simp
qed

lemma published_mono: "prefix xs ys \<Longrightarrow> prefix (published_templates xs) (published_templates ys)"
  by (auto elim: prefixE)

interpretation node_templates: template_source
  "\<lambda>n. serialize_ok L \<and> header_ok N \<and> ipc_inv L N n" "ipc_step L N" "\<lambda>n. published_templates (ip_log n)" for L N
proof
  show "serialize_ok L \<and> header_ok N \<and> ipc_inv L N n \<Longrightarrow> templates_ok (set (published_templates (ip_log n)))" for n
    using fetch_template_wf [of L N] by (fastforce simp: templates_ok_def ipc_inv_def)
qed (auto intro: ipc_step_inv published_mono ipc_step_log)

text \<open>The reports of the connections after one of them has moved.\<close>

lemma concat_update:
  assumes "i < length xs" and "f x = f (xs ! i) @ out"
  shows "mset (concat (map f (xs[i := x]))) = mset (concat (map f xs)) + mset out"
  using assms
proof (induction xs arbitrary: i)
  case (Cons y ys)
  then show ?case by (cases i) auto
qed simp

lemma new_effects_log:
  "conn_log (connection_step L C db ev c) = conn_log c @ new_effects c (connection_step L C db ev c)"
  using connection_log_grows [of c L C db ev] by (auto simp: new_effects_def elim: prefixE)

section \<open>Every step keeps it\<close>

lemma node_keeps:
  assumes "crates_ok L" and "header_ok N" and "pool_inv L N old p"
    and "\<And>sol answer. ev \<noteq> Solution_Received sol answer" and "n' = ipc_step L N ev (pl_node p)"
  shows "pool_inv L N old
    (p\<lparr>pl_node := n', pl_conns := map (publish_new L C (pl_node p) n') (pl_conns p)\<rparr>)"
proof -
  obtain out where out: "ip_log n' = ip_log (pl_node p) @ out" "List.map_filter submitted out = []"
    using ipc_event_grows [OF assms(4)] assms(5) by metis
  have source: "serialize_ok L \<and> header_ok N \<and> ipc_inv L N (pl_node p)"
    using assms(1-3) by (simp add: crates_ok_def pool_inv_def)
  then have inv: "ipc_inv L N n'" unfolding assms(5) by (intro ipc_step_inv) simp
  have "conn_inv L (pool_templates n') True (publish_new L C (pl_node p) n' c)" if "c \<in> set (pl_conns p)" for c
    using node_templates.follower_keeps [OF assms(1) source] assms(3) that
    unfolding publish_new_def pool_templates_def assms(5) by (simp add: pool_inv_def pool_templates_def)
  moreover have "solution_ok L (pool_templates n') sol" if "solution_ok L (pool_templates (pl_node p)) sol" for sol
    using that by (rule solution_ok_mono) (simp add: pool_templates_def out)
  moreover have "conn_reports (publish_new L C (pl_node p) n' c) = conn_reports c" for c
    by (simp add: conn_reports_def publish_new_def)
  ultimately show ?thesis
    using assms(3) inv out by (auto simp: pool_inv_def map_filter_append comp_def)
qed

lemma deliver_keeps:
  assumes "pool_inv L N old p" and "pl_solutions p = sol # sols"
  shows "pool_inv L N old
    (p\<lparr>pl_node := ipc_step L N (Solution_Received sol answer) (pl_node p), pl_solutions := sols\<rparr>)"
proof -
  have "published_templates (ip_log (ipc_step L N (Solution_Received sol answer) (pl_node p))) =
      published_templates (ip_log (pl_node p))"
    by (simp add: ipc_solution_grows)
  with assms show ?thesis
    using ipc_step_inv [of L N "pl_node p" "Solution_Received sol answer"]
    by (auto simp: pool_inv_def pool_templates_def ipc_solution_grows map_filter_append List.map_filter_simps
        dest: subsetD [OF submit_solution_log(2)])
qed

lemma accept_keeps:
  assumes "pool_inv L N old p"
  shows "pool_inv L N old (p\<lparr>pl_conns := pl_conns p @ [accept_connection addr (pl_node p) faults]\<rparr>)"
proof -
  have "last (published_templates (ip_log (pl_node p))) \<in> pool_templates (pl_node p)"
    using assms by (simp add: pool_inv_def pool_templates_def)
  then have "conn_inv L (pool_templates (pl_node p)) True (accept_connection addr (pl_node p) faults)"
    unfolding accept_connection_def by (rule connection_start_inv)
  moreover have "conn_reports (accept_connection addr (pl_node p) faults) = []"
    by (simp add: conn_reports_def accept_connection_def connection_start_def List.map_filter_simps)
  ultimately show ?thesis using assms by (auto simp: pool_inv_def)
qed

lemma peer_keeps:
  assumes "crates_ok L" and "header_ok N" and "pool_inv L N old p"
    and "i < length (pl_conns p)" and "c = pl_conns p ! i" and "\<And>t. ev \<noteq> Publish t" and "conn_legal {} ev c"
    and "c' = connection_step L C True ev c"
  shows "pool_inv L N old (p\<lparr>pl_conns := (pl_conns p)[i := c'],
    pl_solutions := pl_solutions p @ List.map_filter solution_of (new_effects c c'),
    pl_reports := pl_reports p @ List.map_filter report_of (new_effects c c')\<rparr>)"
proof -
  let ?T = "pool_templates (pl_node p)"
  have "templates_ok ?T"
    using assms(1-3) node_templates.offered_ok [of L N "pl_node p"]
    by (simp add: crates_ok_def pool_inv_def pool_templates_def)
  moreover have "conn_legal ?T ev c" using assms(6,7) by (cases ev) (auto simp: conn_legal_def)
  moreover have "conn_inv L ?T True c" using assms(3-5) by (simp add: pool_inv_def)
  ultimately have c': "conn_inv L ?T True c'"
    using assms(1) unfolding assms(8) by (intro connection_step_keeps) (simp_all add: crates_ok_def)
  have log: "conn_log c' = conn_log c @ new_effects c c'"
    unfolding assms(8) by (rule new_effects_log)
  have "solution_ok L ?T sol" if "sol \<in> set (List.map_filter solution_of (new_effects c c'))" for sol
  proof -
    from that have "Solution sol \<in> set (conn_log c')"
      unfolding log set_map_filter by (auto elim!: solution_of.elims)
    with c' show ?thesis by (simp add: conn_inv_def world_ok_def log_ok_def)
  qed
  moreover have "mset (concat (map conn_reports ((pl_conns p)[i := c']))) =
      mset (concat (map conn_reports (pl_conns p))) + mset (List.map_filter report_of (new_effects c c'))"
    using assms(4,5) by (intro concat_update) (simp_all add: conn_reports_def log map_filter_append)
  moreover have "set ((pl_conns p)[i := c']) \<subseteq> insert c' (set (pl_conns p))" by (rule set_update_subset_insert)
  ultimately show ?thesis using assms(3) c' by (auto simp: pool_inv_def)
qed

lemma pool_reports_legal:
  assumes "pool_inv L N old p" and "Share s \<in> set (pl_reports p)"
  shows "length (se_block_hash_be s) = 32"
proof -
  have "set (concat (map conn_reports (pl_conns p))) = set (snd (pl_worker p) @ pl_reports p)"
    using assms(1) unfolding pool_inv_def by (metis set_mset_mset)
  then obtain c where "c \<in> set (pl_conns p)" "Share s \<in> set (conn_reports c)" using assms(2) by auto
  then have "conn_inv L (pool_templates (pl_node p)) True c" "Db_Sent (Share s) \<in> set (conn_log c)"
    using assms(1) by (auto simp: pool_inv_def conn_reports_def set_map_filter elim!: report_of.elims)
  then show ?thesis by (simp add: conn_inv_def world_ok_def log_ok_def)
qed

lemma share_of_Some: "share_of ev = Some s \<longleftrightarrow> ev = Share s"
  by (cases ev) auto

lemma store_keeps:
  assumes "pool_inv L N old p" and "wk_running (fst (pl_worker p))" and "map_order i"
    and "pl_reports p = taken i @ reports"
  shows "pool_inv L N old (p\<lparr>pl_worker := worker_step i (pl_worker p), pl_reports := reports\<rparr>)"
proof -
  have "iteration_legal i (pl_worker p)"
    using assms(3,4) pool_reports_legal [OF assms(1)]
    by (auto simp: iteration_legal_def map_order_def share_of_Some)
  then have "worker_inv old (worker_step i (pl_worker p))"
    using assms(1) by (intro worker_step_inv) (simp_all add: pool_inv_def)
  moreover have "snd (worker_step i (pl_worker p)) = snd (pl_worker p) @ taken i"
    using assms(2) by (simp add: worker_step_def)
  ultimately show ?thesis using assms(1,4) by (simp add: pool_inv_def)
qed

lemma pool_step_keeps:
  assumes "crates_ok L" and "header_ok N" and "pool_step L N C addr p p'" and "pool_inv L N old p"
  shows "pool_inv L N old p'"
  using assms(3)
proof cases
  case (node ev n')
  show ?thesis unfolding node(1) by (rule node_keeps [OF assms(1,2,4) node(2,3)])
next
  case (deliver sol sols answer)
  show ?thesis unfolding deliver(1) by (rule deliver_keeps [OF assms(4) deliver(2)])
next
  case (accept faults)
  show ?thesis unfolding accept by (rule accept_keeps [OF assms(4)])
next
  case (peer i c ev c')
  show ?thesis unfolding peer(1) by (rule peer_keeps [OF assms(1,2,4) peer(2-6)])
next
  case (store i reports)
  show ?thesis unfolding store(1) by (rule store_keeps [OF assms(4) store(2-4)])
qed

lemma pool_start_inv:
  assumes "ipc_start L N block = Inr n" and "db_ok old"
  shows "pool_inv L N old (pool_start n (worker_start now old))"
proof -
  have inv: "ipc_inv L N n" by (rule ipc_start_inv [OF assms(1)])
  moreover have "published_templates (ip_log n) \<noteq> [] \<and> List.map_filter submitted (ip_log n) = []"
    using assms(1) by (auto simp: ipc_start_def List.map_filter_simps)
  ultimately show ?thesis using worker_start_inv [OF assms(2)] by (simp add: pool_inv_def pool_start_def)
qed

text \<open>The states that the pool reaches from a start.\<close>

definition pool_reaches ::
    "crates \<Rightarrow> 'b node \<Rightarrow> codec \<Rightarrow> string \<Rightarrow> 'b \<Rightarrow> int \<Rightarrow> database \<Rightarrow> 'b pool \<Rightarrow> bool" where
  "pool_reaches L N C addr block now old p \<longleftrightarrow>
     (\<exists>n. ipc_start L N block = Inr n \<and>
       (pool_step L N C addr)\<^sup>*\<^sup>* (pool_start n (worker_start now old)) p)"

lemma pool_reaches_inv:
  assumes "crates_ok L" and "header_ok N" and "db_ok old" and "pool_reaches L N C addr block now old p"
  shows "pool_inv L N old p"
proof -
  obtain n where start: "ipc_start L N block = Inr n"
    and "(pool_step L N C addr)\<^sup>*\<^sup>* (pool_start n (worker_start now old)) p"
    using assms(4) by (auto simp: pool_reaches_def)
  from this(2) show ?thesis
    by (induction rule: rtranclp_induct)
      (use pool_start_inv [OF start assms(3)] pool_step_keeps [OF assms(1,2)] in blast)+
qed


lemma ended_node_client:
  assumes "(pool_step L N C addr)\<^sup>*\<^sup>* p p'" and "ip_phase (pl_node p) \<noteq> Running"
  shows "pl_node p' = pl_node p"
  using assms(1)
proof (induction rule: rtranclp_induct)
  case (step q r)
  then have "ip_phase (pl_node q) \<noteq> Running" using assms(2) by simp
  with step.hyps(2) have "pl_node r = pl_node q"
    by cases (simp_all add: ipc_step_def)
  with step.IH show ?case by simp
qed simp

section \<open>Every connection has the last template\<close>

lemma publish_fold_template:
  "cn_template (fold (\<lambda>t. connection_step L C True (Publish t)) ts c) = (if ts = [] then cn_template c else last ts)"
  by (induction ts arbitrary: c) (simp_all add: connection_step_def)

lemma connection_keeps_template:
  "(\<And>t. ev \<noteq> Publish t) \<Longrightarrow> cn_template (connection_step L C db ev c) = cn_template c"
  by (cases ev) (auto simp: connection_step_def after_handler_def after_broadcast_def
      split: phase.split prod.split sum.split error.split)

definition templates_current :: "'b pool \<Rightarrow> bool" where
  "templates_current p \<longleftrightarrow>
     (\<forall>c \<in> set (pl_conns p). cn_template c = last (published_templates (ip_log (pl_node p))))"

lemma publish_new_template:
  assumes "prefix (ip_log n) (ip_log n')" and "cn_template c = last (published_templates (ip_log n))"
  shows "cn_template (publish_new L C n n' c) = last (published_templates (ip_log n'))"
proof -
  obtain new where "published_templates (ip_log n') = published_templates (ip_log n) @ new"
    using published_mono [OF assms(1)] by (rule prefixE)
  with assms(2) show ?thesis by (simp add: publish_new_def publish_fold_template)
qed

lemma pool_step_current:
  assumes "pool_step L N C addr p p'" and "templates_current p"
  shows "templates_current p'"
  using assms(1)
proof cases
  case (node ev n')
  with assms(2) show ?thesis
    using publish_new_template [of "pl_node p" n'] ipc_step_log [of "pl_node p" L N ev]
    by (auto simp: templates_current_def)
next
  case (deliver sol sols answer)
  with assms(2) show ?thesis by (simp add: templates_current_def ipc_solution_grows)
next
  case (peer i c ev c')
  with assms(2) show ?thesis
    using connection_keeps_template [of ev L C True c]
    by (auto simp: templates_current_def dest!: subsetD [OF set_update_subset_insert])
qed (use assms(2) in \<open>auto simp: templates_current_def accept_connection_def connection_start_def\<close>)

lemma pool_reaches_current: "pool_reaches L N C addr block now old p \<Longrightarrow> templates_current p"
proof -
  assume "pool_reaches L N C addr block now old p"
  then obtain n where "(pool_step L N C addr)\<^sup>*\<^sup>* (pool_start n (worker_start now old)) p"
    by (auto simp: pool_reaches_def)
  then show ?thesis
    by (induction rule: rtranclp_induct)
      (simp add: templates_current_def pool_start_def, blast intro: pool_step_current)
qed

lemma new_effects_split:
  "new_effects c (fold (connection_step L C db) (ev # es) c) =
    new_effects c (connection_step L C db ev c) @
    new_effects (connection_step L C db ev c) (fold (connection_step L C db) es (connection_step L C db ev c))"
proof -
  have grows: "prefix (conn_log c) (conn_log (fold (connection_step L C db) es c))" for c
    by (induction es arbitrary: c) (auto intro: connection_log_grows prefix_order.trans)
  let ?c = "connection_step L C db ev c"
  obtain a b where "conn_log ?c = conn_log c @ a" "conn_log (fold (connection_step L C db) es ?c) = conn_log ?c @ b"
    using connection_log_grows [of c L C db ev] grows [of ?c] by (elim prefixE)
  then show ?thesis by (simp add: new_effects_def)
qed

lemma peer_steps:
  assumes "i < length (pl_conns p)" and "c = pl_conns p ! i"
    and "legal_run (conn_legal {}) (connection_step L C True) es c" and "\<forall>ev \<in> set es. \<forall>t. ev \<noteq> Publish t"
  defines "c' \<equiv> fold (connection_step L C True) es c"
  shows "(pool_step L N C addr)\<^sup>*\<^sup>* p (p\<lparr>pl_conns := (pl_conns p)[i := c'],
    pl_solutions := pl_solutions p @ List.map_filter solution_of (new_effects c c'),
    pl_reports := pl_reports p @ List.map_filter report_of (new_effects c c')\<rparr>)"
  using assms(1-4) unfolding c'_def
proof (induction es arbitrary: p c)
  case Nil
  then have "p\<lparr>pl_conns := (pl_conns p)[i := c]\<rparr> = p" by (cases p) simp
  then show ?case by (simp add: new_effects_def List.map_filter_simps)
next
  case (Cons ev es)
  let ?c = "connection_step L C True ev c"
  let ?p = "p\<lparr>pl_conns := (pl_conns p)[i := ?c],
    pl_solutions := pl_solutions p @ List.map_filter solution_of (new_effects c ?c),
    pl_reports := pl_reports p @ List.map_filter report_of (new_effects c ?c)\<rparr>"
  have "pool_step L N C addr p ?p" using Cons.prems by (intro pool_step.peer) auto
  moreover note Cons.IH [of ?p ?c]
  ultimately show ?case
    using Cons.prems new_effects_split [of c L C True ev es]
    by (simp add: map_filter_append converse_rtranclp_into_rtranclp)
qed

section \<open>A miner that connects\<close>

text \<open>The first two messages of a miner: after them its channel is open and it has its first job.\<close>

lemma first_channel_run:
  fixes t0 t :: int and changed :: bool
  assumes "serialize_ok L" and "wf_template raw"
    and "parse_setup_connection C spl = Some greeting" and "setup_acceptable greeting"
    and "parse_open_extended_mining_channel C opl = Some msg" and "finite_f32 (oc_nominal_hash_rate msg)"
    and "a = parse_miner_address L (oc_user_identity msg) addr" and "address_script L a = Some ms"
    and "68 + length ms + length (nt_coinbase_tx_outputs (rt_new_template raw)) \<le> 65535"
  defines "c \<equiv> fold (connection_step L C True)
      [Read_Frame (Sv2 (Some (MESSAGE_TYPE_SETUP_CONNECTION C)) spl) t0,
       Read_Frame (Sv2 (Some (MESSAGE_TYPE_OPEN_EXTENDED_MINING_CHANNEL C)) opl) t]
      (connection_start addr raw changed [])"
  shows "\<exists>target n q j. length target = 32 \<and>
    be_nat target = max (pdiff1 div share_difficulty (oc_nominal_hash_rate msg))
      (be_nat (compact_to_target_be (sp_n_bits (rt_set_new_prev_hash raw)))) \<and>
    build_job_messages L ((opened_channel 0 a target j)\<lparr>ch_current_job := None\<rparr>) 1 raw = Inr (q, n, j) \<and>
    cn_phase c = Serving \<and> channels (w_state (cn_world c)) = [0 \<mapsto> opened_channel 0 a target j] \<and>
    conn_log c = Wrote False (Setup_Success \<lparr>ok_used_version = 2, ok_flags = 2\<rparr>) #
      open_effects True t msg 0 a target n q"
proof -
  let ?c1 = "connection_step L C True (Read_Frame (Sv2 (Some (MESSAGE_TYPE_SETUP_CONNECTION C)) spl) t0)
    (connection_start addr raw changed [])"
  let ?w1 = "\<lparr>w_state = connection_state_new addr,
    w_log = [Wrote False (Setup_Success \<lparr>ok_used_version = 2, ok_flags = 2\<rparr>)], w_faults = []\<rparr>"
  have "handle_setup_connection C (Sv2 (Some (MESSAGE_TYPE_SETUP_CONNECTION C)) spl)
      \<lparr>w_state = connection_state_new addr, w_log = [], w_faults = []\<rparr> = (Inr (), ?w1)"
    using assms(3,4) by (auto simp: handle_setup_connection_def setup_acceptable_def write_succeeds not_less)
  then have c1: "?c1 = \<lparr>cn_world = ?w1, cn_phase = Serving, cn_template = raw, cn_changed = changed\<rparr>"
    by (simp add: connection_start_def connection_step_def after_handler_def)
  have fresh: "unat (next_channel_id (w_state ?w1)) + 1 < 2 ^ 32" "unat (next_job_id (w_state ?w1)) + 1 < 2 ^ 32"
    "a = parse_miner_address L (oc_user_identity msg) (pool_address (w_state ?w1))" "w_faults ?w1 = []"
    "0 = next_channel_id (w_state ?w1)" "1 = next_job_id (w_state ?w1)"
    using assms(7) by (simp_all add: connection_state_new_def)
  from open_served [OF assms(1,2,5,6) fresh(1-3) assms(8,9) fresh(4-6), of True t]
  obtain target q n j where target: "length target = 32"
      "be_nat target = max (pdiff1 div share_difficulty (oc_nominal_hash_rate msg))
        (be_nat (compact_to_target_be (sp_n_bits (rt_set_new_prev_hash raw))))"
    and job: "build_job_messages L ((opened_channel 0 a target j)\<lparr>ch_current_job := None\<rparr>) 1 raw = Inr (q, n, j)"
    and opened: "handle_open_extended_mining_channel L C True t opl raw ?w1 =
      (Inr (), ?w1\<lparr>w_state := (w_state ?w1)\<lparr>next_channel_id := 0 + 1, next_job_id := 1 + 1,
          channels := (channels (w_state ?w1))(0 \<mapsto> opened_channel 0 a target j)\<rparr>,
        w_log := w_log ?w1 @ open_effects True t msg 0 a target n q\<rparr>)"
    by blast
  have "c = ?c1\<lparr>cn_world := snd (handle_open_extended_mining_channel L C True t opl raw ?w1)\<rparr>"
    unfolding c_def fold_simps c1
    by (subst connection_step_def) (simp add: dispatch_message_def opened after_handler_def)
  then have c: "cn_phase c = Serving" "channels (w_state (cn_world c)) = [0 \<mapsto> opened_channel 0 a target j]"
    "conn_log c = Wrote False (Setup_Success \<lparr>ok_used_version = 2, ok_flags = 2\<rparr>) #
      open_effects True t msg 0 a target n q"
    unfolding opened c1 by (simp_all add: connection_state_new_def)
  with target job show ?thesis by blast
qed

section \<open>A sample run of the pool\<close>

text \<open>
  The sample node publishes the template of the sample run of a connection. One peer connects, opens
  a channel and sends a share that is a block; the solution is delivered.
\<close>

definition sample_template_nr :: "u64 \<Rightarrow> raw_template" where
  "sample_template_nr i =
     \<lparr>rt_new_template = (rt_new_template sample_template)\<lparr>nt_template_id := i\<rparr>,
      rt_set_new_prev_hash = (rt_set_new_prev_hash sample_template)\<lparr>sp_template_id := i\<rparr>\<rparr>"

lemma sample_template_nr_0 [simp]: "sample_template_nr 0 = sample_template"
  by (simp add: sample_template_nr_def sample_template_def)

lemma sample_node_templates: "fetch_template sample_crates sample_node b i = Inr (sample_template_nr i)"
proof -
  have "checked_sum [5000000000, 0] = Some 5000000000" by (simp add: checked_sum_Some)
  then have "build_raw_template sample_crates i sample_header sample_node_coinbase [replicate 32 5] =
      Inr (sample_template_nr i)"
    by (simp add: build_raw_template_def Let_def sample_node_coinbase_def sample_crates_def enc_txout_def
        enc_blob_def compact_size_def sample_template_nr_def sample_template_def sample_output_def sample_header_def
        b0255_def b064k_def u256_def seq0255_def)
  moreover have "wf_tx sample_node_coinbase"
    by (simp add: sample_node_coinbase_def wf_tx_def wf_txin_def wf_txout_def)
  moreover have "length (enc_tx sample_node_coinbase) \<le> 1000000"
    by (simp add: sample_node_coinbase_def enc_tx_def enc_list_def enc_txin_def enc_txout_def enc_blob_def
        compact_size_def has_witness_def)
  ultimately show ?thesis
    using sample_crates_ok(2) by (simp add: fetch_template_def sample_node_def deserialize_ok_def)
qed

lemma sample_node_template: "fetch_template sample_crates sample_node b 0 = Inr sample_template"
  using sample_node_templates [of b 0] by simp

definition sample_ipc :: "nat ipc_state" where
  "sample_ipc = \<lparr>ip_block = 0, ip_template_id = 1, ip_log = [Published sample_template], ip_phase = Running\<rparr>"

lemma sample_ipc_started: "ipc_start sample_crates sample_node 0 = Inr sample_ipc"
  by (simp add: ipc_start_def sample_node_template increment_template_id_def sample_ipc_def)

abbreviation sample_connection :: connection where
  "sample_connection \<equiv>
     connection_run sample_crates sample_codec True ''bc1pool'' sample_template False [] sample_events"

lemma sample_pool_steps:
  obtains p sol s where
    "(pool_step sample_crates sample_node sample_codec ''bc1pool'')\<^sup>*\<^sup>* (pool_start sample_ipc worker) p"
    and "pl_worker p = (worker, [])" and "pl_reports p = [Miner_Connected ''bc1q'' 10, Share s]"
    and "Submitted 0 sol \<in> set (ip_log (pl_node p))"
    and "(\<Sum>c\<leftarrow>pl_conns p. length (filter is_ack (conn_log c))) = 1"
    and "pl_conns p = [sample_connection]" and "pl_node p = sample_ipc\<lparr>ip_log := ip_log sample_ipc @ [Submitted 0 sol]\<rparr>"
proof -
  let ?step = "pool_step sample_crates sample_node sample_codec ''bc1pool''"
  let ?c = "connection_start ''bc1pool'' sample_template False []"
  let ?c' = "connection_run sample_crates sample_codec True ''bc1pool'' sample_template False [] sample_events"
  let ?p0 = "pool_start sample_ipc worker"
  let ?p1 = "?p0\<lparr>pl_conns := [?c]\<rparr>"
  obtain target n p j h where log: "conn_log ?c' =
      [Wrote False (Setup_Success \<lparr>ok_used_version = 2, ok_flags = 2\<rparr>)] @
      open_effects True 10 sample_open 0 ''bc1q'' target n p @
      verdict_effects sample_crates True sample_share
        (Accepted (opened_channel 0 ''bc1q'' target j) j h True)"
    using sample_run_log by metis
  have "accept_connection ''bc1pool'' sample_ipc [] = ?c"
    by (simp add: accept_connection_def sample_ipc_def)
  then have accept: "?step ?p0 ?p1"
    using pool_step.accept [of sample_crates sample_node sample_codec "''bc1pool''" ?p0 "[]"]
    by (simp add: pool_start_def)
  define sol where "sol = solution_for (opened_channel 0 ''bc1q'' target j) j sample_share"
  let ?reports = "List.map_filter report_of (conn_log ?c')"
  let ?p2 = "?p0\<lparr>pl_conns := [?c'], pl_solutions := [sol], pl_reports := ?reports\<rparr>"
  have "new_effects ?c ?c' = conn_log ?c'" by (simp add: new_effects_def connection_start_def)
  moreover have "List.map_filter solution_of (conn_log ?c') = [sol]"
    by (simp add: log verdict_effects_def open_effects_def List.map_filter_simps map_filter_append
        share_ack_def sol_def)
  moreover have "legal_run (conn_legal {}) (connection_step sample_crates sample_codec True) sample_events ?c"
    by (simp add: sample_events_def conn_legal_def)
  ultimately have "?step\<^sup>*\<^sup>* ?p1 ?p2"
    using peer_steps [of 0 ?p1 ?c sample_crates sample_codec sample_events sample_node "''bc1pool''"]
    by (simp add: connection_run_def pool_start_def sample_events_def)
  moreover let ?p3 = "?p2\<lparr>pl_node := ipc_step sample_crates sample_node (Solution_Received sol (Submit_Answer True)) sample_ipc,
      pl_solutions := []\<rparr>"
  have "?step ?p2 ?p3"
    using pool_step.deliver [of ?p2 sol "[]" sample_crates sample_node sample_codec "''bc1pool''" "Submit_Answer True"]
    by (simp add: pool_start_def)
  ultimately have "?step\<^sup>*\<^sup>* ?p0 ?p3" using accept by simp
  moreover have "pl_worker ?p3 = (worker, [])" by (simp add: pool_start_def)
  moreover obtain s where "pl_reports ?p3 = [Miner_Connected ''bc1q'' 10, Share s]"
    by (simp add: log verdict_effects_def open_effects_def List.map_filter_simps map_filter_append share_ack_def)
  moreover have "Submitted 0 sol \<in> set (ip_log (pl_node ?p3))"
    by (simp add: ipc_solution_grows) (simp add: sample_ipc_def)
  moreover have "(\<Sum>c\<leftarrow>pl_conns ?p3. length (filter is_ack (conn_log c))) = 1"
    by (simp add: log verdict_effects_def open_effects_def share_ack_def)
  moreover have "pl_node ?p3 = sample_ipc\<lparr>ip_log := ip_log sample_ipc @ [Submitted 0 sol]\<rparr>"
    by (simp add: ipc_step_def sample_ipc_def)
  ultimately show thesis by (intro that [of ?p3 s sol]) simp_all
qed

lemma sample_pool:
  obtains p sol where
    "pool_reaches sample_crates sample_node sample_codec ''bc1pool'' 0 0 empty_database p"
    and "Submitted 0 sol \<in> set (ip_log (pl_node p))"
    and "(\<Sum>c\<leftarrow>pl_conns p. length (filter is_ack (conn_log c))) = 1"
    and "pl_conns p = [sample_connection]" and "pl_node p = sample_ipc\<lparr>ip_log := ip_log sample_ipc @ [Submitted 0 sol]\<rparr>"
  by (rule sample_pool_steps [of "worker_start 0 empty_database"])
    (use sample_ipc_started in \<open>auto simp: pool_reaches_def\<close>)

section \<open>Properties\<close>

text \<open>
  C1: The whole pool, in every interleaving of the node client, any number of connections and the
  worker: whatever solution is submitted to the node, its coinbase pays the whole value of a template
  that the pool has published to the script of a valid address, it names that template, and the header
  it completes over that template has a hash within the network target.
\<close>

theorem submitted_solutions_valid:
  assumes "crates_ok L" and "header_ok N" and "db_ok old"
    and "pool_reaches L N C addr block now old p" and "Submitted b sol \<in> set (ip_log (pl_node p))"
  shows "solution_ok L (set (published_templates (ip_log (pl_node p)))) sol"
proof -
  have "sol \<in> set (List.map_filter submitted (ip_log (pl_node p)))"
    using assms(5) by (force simp: set_map_filter)
  with pool_reaches_inv [OF assms(1-4)] show ?thesis by (simp add: pool_inv_def pool_templates_def)
qed

theorem submitted_solutions_valid_witness:
  "\<exists>p sol. Submitted 0 sol \<in> set (ip_log (pl_node p)) \<and>
    pool_reaches sample_crates sample_node sample_codec ''bc1pool'' 0 0 empty_database p \<and>
    solution_ok sample_crates (set (published_templates (ip_log (pl_node p)))) sol"
proof -
  obtain p sol where run: "pool_reaches sample_crates sample_node sample_codec ''bc1pool'' 0 0 empty_database p"
    and sol: "Submitted 0 sol \<in> set (ip_log (pl_node p))" by (rule sample_pool)
  from submitted_solutions_valid [OF sample_crates_all_ok sample_node_header_ok empty_database_ok run sol] run sol
  show ?thesis by blast
qed

lemma mset_map_filter: "mset xs = mset ys \<Longrightarrow> mset (List.map_filter f xs) = mset (List.map_filter f ys)"
  by (simp add: List.map_filter_def)

lemma acks_of_connection:
  assumes "conn_inv L T True c"
  shows "length (List.map_filter share_of (conn_reports c)) = length (filter is_ack (conn_log c))"
proof -
  have "length (List.map_filter share_of (List.map_filter report_of out)) = length (filter is_report out)" for out
  proof (induction out)
    case (Cons e out)
    then show ?case
      by (cases e rule: is_report.cases) (auto simp: List.map_filter_simps)
  qed (simp add: List.map_filter_simps)
  with assms show ?thesis by (simp add: conn_reports_def conn_inv_def world_ok_def log_ok_def)
qed

text \<open>
  C2: The whole pool keeps its books: in every reachable state, whichever writes and statements have
  failed, the shares in the database, in the worker's batch and in the queue to the worker are, as a
  multiset, the shares of the old database and the ones that the connections have reported, and they
  are as many as the old ones and the acknowledgements that the miners have been sent.
\<close>

theorem every_acknowledged_share_accounted:
  assumes "crates_ok L" and "header_ok N" and "db_ok old" and "pool_reaches L N C addr block now old p"
  defines "w \<equiv> fst (pl_worker p)"
  defines "accounted \<equiv> shares (wk_db w) @ wk_shares w @ List.map_filter share_of (pl_reports p)"
  shows "mset accounted =
      mset (shares old) + mset (List.map_filter share_of (concat (map conn_reports (pl_conns p)))) \<and>
    length accounted =
      length (shares old) + (\<Sum>c\<leftarrow>pl_conns p. length (filter is_ack (conn_log c)))"
proof -
  let ?sent = "List.map_filter share_of (concat (map conn_reports (pl_conns p)))"
  note inv = pool_reaches_inv [OF assms(1-4)]
  have "shares (wk_db w) @ wk_shares w = shares old @ List.map_filter share_of (snd (pl_worker p))"
    using inv by (simp add: pool_inv_def worker_inv_def Let_def w_def)
  then have "accounted = shares old @ List.map_filter share_of (snd (pl_worker p) @ pl_reports p)"
    by (simp add: accounted_def map_filter_append flip: append_assoc)
  moreover have "mset (List.map_filter share_of (snd (pl_worker p) @ pl_reports p)) = mset ?sent"
    by (rule mset_map_filter) (use inv in \<open>simp add: pool_inv_def\<close>)
  ultimately have all: "mset accounted = mset (shares old) + mset ?sent" by simp
  have "length ?sent = (\<Sum>c\<leftarrow>cs. length (filter is_ack (conn_log c)))"
    if "cs = pl_conns p" for cs
  proof -
    have "\<forall>c \<in> set cs. conn_inv L (pool_templates (pl_node p)) True c" using inv that by (simp add: pool_inv_def)
    then have "length (List.map_filter share_of (concat (map conn_reports cs))) =
        (\<Sum>c\<leftarrow>cs. length (filter is_ack (conn_log c)))"
      by (induction cs) (auto simp: map_filter_append acks_of_connection List.map_filter_simps)
    with that show ?thesis by simp
  qed
  moreover have "length accounted = length (shares old) + length ?sent"
    using all by (metis size_mset size_union)
  ultimately show ?thesis using all by simp
qed

theorem every_acknowledged_share_accounted_witness:
  "\<exists>p. pool_reaches sample_crates sample_node sample_codec ''bc1pool'' 0 0 empty_database p \<and>
    length (shares (wk_db (fst (pl_worker p))) @ wk_shares (fst (pl_worker p)) @
      List.map_filter share_of (pl_reports p)) = 1"
proof -
  obtain p where run: "pool_reaches sample_crates sample_node sample_codec ''bc1pool'' 0 0 empty_database p"
    and one: "(\<Sum>c\<leftarrow>pl_conns p. length (filter is_ack (conn_log c))) = 1" by (rule sample_pool)
  from every_acknowledged_share_accounted [OF sample_crates_all_ok sample_node_header_ok empty_database_ok run]
  run one show ?thesis by (auto simp: empty_database_def)
qed

text \<open>
  C3: A new block reaches every miner. In every state that the pool reaches, a connection whose channel of
  templates has changed and whose writes succeed can take the branch of the templates, whatever the other
  parts do; it then has sent each of its channels the two messages of one fresh job, and the current job
  of every channel is for the template that the node client published last, on its previous hash. Two
  limits are assumed: the connection's job counter is not exhausted, and each channel's address has a script
  that fits, with the template's outputs, in the 65535 bytes of the job's coinbase suffix.
\<close>

theorem new_template_reaches_miners:
  fixes p :: "'b pool"
  assumes "crates_ok L" and "header_ok N" and "db_ok old" and "pool_reaches L N C addr block now old p"
    and "i < length (pl_conns p)" and "c = pl_conns p ! i" and "cn_phase c = Serving" and "cn_changed c"
    and "w_faults (cn_world c) = []" and "conn_legal {} (Template_Changed ids) c"
    and "unat (next_job_id (w_state (cn_world c))) + 1 < 2 ^ 32"
    and "raw = last (published_templates (ip_log (pl_node p)))"
    and "\<forall>ch \<in> ran (channels (w_state (cn_world c))). \<exists>ms. address_script L (ch_miner_address ch) = Some ms \<and>
      68 + length ms + length (nt_coinbase_tx_outputs (rt_new_template raw)) \<le> 65535"
  shows "\<exists>c'. pool_step L N C addr p (p\<lparr>pl_conns := (pl_conns p)[i := c']\<rparr>) \<and>
    cn_phase c' = Serving \<and> \<not> cn_changed c' \<and>
    conn_log c' = conn_log c @ concat (map (\<lambda>cid.
      job_pair L (next_job_id (w_state (cn_world c))) raw (the (channels (w_state (cn_world c)) cid))) ids) \<and>
    (\<forall>ch \<in> ran (channels (w_state (cn_world c'))). \<exists>j. ch_current_job ch = Some j \<and>
      ji_job_id j = next_job_id (w_state (cn_world c)) \<and>
      ji_template_id j = nt_template_id (rt_new_template raw) \<and>
      ji_prev_hash j = sp_prev_hash (rt_set_new_prev_hash raw))"
proof -
  let ?w = "cn_world c" and ?jid = "next_job_id (w_state (cn_world c))"
  let ?pairs = "concat (map (\<lambda>cid. job_pair L ?jid raw (the (channels (w_state ?w) cid))) ids)"
  let ?w' = "?w\<lparr>w_state := (w_state ?w)\<lparr>next_job_id := ?jid + 1,
      channels := (\<lambda>cid. map_option (assign_job L ?jid raw) (channels (w_state ?w) cid))\<rparr>,
    w_log := w_log ?w @ ?pairs\<rparr>"
  let ?c' = "c\<lparr>cn_world := ?w', cn_changed := False\<rparr>"
  note inv = pool_reaches_inv [OF assms(1-4)]
  have raw: "wf_template raw" "cn_template c = raw"
  proof -
    have "ipc_inv L N (pl_node p)" "published_templates (ip_log (pl_node p)) \<noteq> []"
      using inv by (simp_all add: pool_inv_def)
    then obtain b k where "fetch_template L N b k = Inr raw" using assms(12) by (fastforce simp: ipc_inv_def)
    then show "wf_template raw" using assms(1,2) by (auto simp: crates_ok_def intro: fetch_template_wf)
    show "cn_template c = raw"
      using pool_reaches_current [OF assms(4)] assms(5,6,12) by (simp add: templates_current_def)
  qed
  have ids: "distinct ids" "\<forall>k. k \<in> set ids \<longleftrightarrow> channels (w_state ?w) k \<noteq> None"
    using assms(10) by (simp_all add: conn_legal_def)
  have L: "serialize_ok L" using assms(1) by (simp add: crates_ok_def)
  note sent = broadcast_result [OF L raw(1) assms(9,11) ids assms(13) refl]
  have step: "connection_step L C True (Template_Changed ids) c = ?c'"
    using sent assms(7,8) by (simp add: connection_step_def raw(2) after_broadcast_def)
  have "List.map_filter solution_of ?pairs = []" "List.map_filter report_of ?pairs = []"
    by (auto simp: List.map_filter_def filter_empty_conv job_pair_def split: sum.splits)
  moreover have "new_effects c ?c' = ?pairs" by (simp add: new_effects_def)
  ultimately have "pool_step L N C addr p (p\<lparr>pl_conns := (pl_conns p)[i := ?c'],
      pl_solutions := pl_solutions p @ [], pl_reports := pl_reports p @ []\<rparr>)"
    using pool_step.peer [OF assms(5,6) _ assms(10) step [symmetric], where N = N and addr = addr] by simp
  then have "pool_step L N C addr p (p\<lparr>pl_conns := (pl_conns p)[i := ?c']\<rparr>)" by (cases p) simp
  moreover have "\<exists>j. ch_current_job ch = Some j \<and> ji_job_id j = ?jid \<and>
      ji_template_id j = nt_template_id (rt_new_template raw) \<and> ji_prev_hash j = sp_prev_hash (rt_set_new_prev_hash raw)"
    if ch: "ch \<in> ran (channels (w_state ?w'))" for ch
  proof -
    obtain ch0 where ch0: "ch0 \<in> ran (channels (w_state ?w))" "ch = assign_job L ?jid raw ch0"
      using ch by (auto simp: ran_def)
    with sent obtain p' n j where "build_job_messages L ch0 ?jid raw = Inr (p', n, j)" "ch = ch0\<lparr>ch_current_job := Some j\<rparr>"
      by metis
    with job_of_fields [OF build_job_messages_job_of] build_job_messages_ids show ?thesis by fastforce
  qed
  ultimately show ?thesis using assms(7) by (intro exI [of _ ?c']) simp
qed

text \<open>The sample run, after which the node has a second template.\<close>

theorem new_template_reaches_miners_witness:
  "\<exists>p :: nat pool. \<exists>c'. pool_reaches sample_crates sample_node sample_codec ''bc1pool'' 0 0 empty_database p \<and>
    pool_step sample_crates sample_node sample_codec ''bc1pool'' p (p\<lparr>pl_conns := [c']\<rparr>) \<and>
    (\<forall>ch \<in> ran (channels (w_state (cn_world c'))). \<exists>j. ch_current_job ch = Some j \<and> ji_job_id j = 2 \<and>
      ji_template_id j = 1)"
proof -
  obtain p sol where p: "pool_reaches sample_crates sample_node sample_codec ''bc1pool'' 0 0 empty_database p"
    "pl_conns p = [sample_connection]"
    "pl_node p = sample_ipc\<lparr>ip_log := ip_log sample_ipc @ [Submitted 0 sol]\<rparr>"
    by (rule sample_pool)
  let ?n = "ipc_step sample_crates sample_node (Wait_Next (\<lambda>_. Wait_Client 7) True) (pl_node p)"
  let ?c = "sample_connection\<lparr>cn_template := sample_template_nr 1, cn_changed := True\<rparr>"
  let ?p = "p\<lparr>pl_node := ?n, pl_conns := [?c]\<rparr>"
  have n: "published_templates (ip_log (pl_node p)) = [sample_template]"
    "published_templates (ip_log ?n) = [sample_template, sample_template_nr 1]"
    by (simp_all add: p(3) sample_ipc_def ipc_step_def new_block_def Let_def destroy_block_client_def
        sample_node_templates increment_template_id_def)
  have "map (publish_new sample_crates sample_codec (pl_node p) ?n) (pl_conns p) = [?c]"
    by (simp add: p(2) publish_new_def n connection_step_def)
  then have "pool_step sample_crates sample_node sample_codec ''bc1pool'' p ?p"
    using pool_step.node [of "Wait_Next (\<lambda>_. Wait_Client 7) True" ?n sample_crates sample_node p sample_codec "''bc1pool''"]
    by simp
  with p(1) have reach: "pool_reaches sample_crates sample_node sample_codec ''bc1pool'' 0 0 empty_database ?p"
    unfolding pool_reaches_def by (meson rtranclp.rtrancl_into_rtrancl)
  obtain target j where c: "channels (w_state (cn_world ?c)) = [0 \<mapsto> opened_channel 0 ''bc1q'' target j]"
    "cn_phase ?c = Serving" "w_faults (cn_world ?c) = []" "next_job_id (w_state (cn_world ?c)) = 2"
    by (rule sample_run_log) simp
  have "conn_legal {} (Template_Changed [0]) ?c" "unat (next_job_id (w_state (cn_world ?c))) + 1 < 2 ^ 32"
    using c by (simp_all add: conn_legal_def)
  moreover have "\<forall>ch \<in> ran (channels (w_state (cn_world ?c))). \<exists>ms. address_script sample_crates (ch_miner_address ch) = Some ms \<and>
      68 + length ms + length (nt_coinbase_tx_outputs (rt_new_template (sample_template_nr 1))) \<le> 65535"
    unfolding c(1) by (simp add: opened_channel_def sample_address sample_template_nr_def sample_template_def
        enc_txout_def enc_blob_def sample_output_def compact_size_def)
  ultimately obtain c' where
    "pool_step sample_crates sample_node sample_codec ''bc1pool'' ?p (?p\<lparr>pl_conns := (pl_conns ?p)[0 := c']\<rparr>)"
    "\<forall>ch \<in> ran (channels (w_state (cn_world c'))). \<exists>j. ch_current_job ch = Some j \<and>
      ji_job_id j = next_job_id (w_state (cn_world ?c)) \<and> ji_template_id j = nt_template_id (rt_new_template (sample_template_nr 1))"
    using new_template_reaches_miners [OF sample_crates_all_ok sample_node_header_ok empty_database_ok reach,
        of 0 ?c "[0]" "sample_template_nr 1"] c(2,3) n(2) by fastforce
  moreover have "(pl_conns ?p)[0 := c'] = [c']" by simp
  moreover have "nt_template_id (rt_new_template (sample_template_nr 1)) = 1" by (simp add: sample_template_nr_def)
  ultimately show ?thesis using reach c(4) by metis
qed

text \<open>
  C28: A pool whose node client has ended goes on serving miners. From any reachable state in which the
  client has ended, whatever the pool does afterwards, the client's log stays as it is: no template is
  published and no solution submitted any more. Still, a miner that connects then, sends an acceptable
  \<open>SetupConnection\<close> and opens a channel is served completely: it gets the setup success, the open success,
  and a job on the last template that was published, with that template's id and previous hash; the worker
  is told of it. The other conditions are those of \<open>open_channel_served\<close>: the declared hashrate is
  finite, the chosen address has a script that fits in the job with the template's outputs, and the writes
  succeed.
\<close>

theorem dead_node_client_silent:
  fixes p p' :: "'b pool"
  assumes "crates_ok L" and "header_ok N" and "db_ok old" and "pool_reaches L N C addr block now old p"
    and "ip_phase (pl_node p) \<noteq> Running" and "(pool_step L N C addr)\<^sup>*\<^sup>* p p'"
    and "raw = last (published_templates (ip_log (pl_node p)))"
    and "parse_setup_connection C spl = Some greeting" and "setup_acceptable greeting"
    and "parse_open_extended_mining_channel C opl = Some msg" and "finite_f32 (oc_nominal_hash_rate msg)"
    and "a = parse_miner_address L (oc_user_identity msg) addr" and "address_script L a = Some ms"
    and "68 + length ms + length (nt_coinbase_tx_outputs (rt_new_template raw)) \<le> 65535"
  shows "ip_log (pl_node p') = ip_log (pl_node p) \<and>
    (\<exists>c target n q j.
      (pool_step L N C addr)\<^sup>*\<^sup>* p' (p'\<lparr>pl_conns := pl_conns p' @ [c],
        pl_reports := pl_reports p' @ [Miner_Connected a t]\<rparr>) \<and>
      conn_log c = Wrote False (Setup_Success \<lparr>ok_used_version = 2, ok_flags = 2\<rparr>) #
        open_effects True t msg 0 a target n q \<and>
      build_job_messages L ((opened_channel 0 a target j)\<lparr>ch_current_job := None\<rparr>) 1 raw = Inr (q, n, j) \<and>
      cn_phase c = Serving \<and> channels (w_state (cn_world c)) = [0 \<mapsto> opened_channel 0 a target j] \<and>
      be_nat target = max (pdiff1 div share_difficulty (oc_nominal_hash_rate msg))
        (be_nat (compact_to_target_be (sp_n_bits (rt_set_new_prev_hash raw)))) \<and>
      ji_template_id j = nt_template_id (rt_new_template raw) \<and>
      ji_prev_hash j = sp_prev_hash (rt_set_new_prev_hash raw))"
proof -
  let ?hello = "Read_Frame (Sv2 (Some (MESSAGE_TYPE_SETUP_CONNECTION C)) spl) t"
  let ?open = "Read_Frame (Sv2 (Some (MESSAGE_TYPE_OPEN_EXTENDED_MINING_CHANNEL C)) opl) t"
  note ended = ended_node_client [OF assms(6,5)]
  have "templates_ok (set (published_templates (ip_log (pl_node p))))" "published_templates (ip_log (pl_node p)) \<noteq> []"
    using pool_reaches_inv [OF assms(1-4)] assms(1,2) node_templates.offered_ok [of L N "pl_node p"]
    by (simp_all add: pool_inv_def crates_ok_def)
  then have raw: "wf_template raw" by (simp add: assms(7) templates_ok_def)
  have L: "serialize_ok L" using assms(1) by (simp add: crates_ok_def)
  define c0 where "c0 = accept_connection addr (pl_node p') []"
  define c where "c = fold (connection_step L C True) [?hello, ?open] c0"
  have c0: "c0 = connection_start addr raw (1 < length (published_templates (ip_log (pl_node p)))) []"
    by (simp add: c0_def accept_connection_def ended assms(7))
  from first_channel_run [OF L raw assms(8-14), where ?t0.0 = t and t = t]
  obtain target n q j where target: "be_nat target = max (pdiff1 div share_difficulty (oc_nominal_hash_rate msg))
      (be_nat (compact_to_target_be (sp_n_bits (rt_set_new_prev_hash raw))))"
    and job: "build_job_messages L ((opened_channel 0 a target j)\<lparr>ch_current_job := None\<rparr>) 1 raw =
      Inr (q, n, j)"
    and served: "cn_phase c = Serving" "channels (w_state (cn_world c)) = [0 \<mapsto> opened_channel 0 a target j]"
    and log: "conn_log c = Wrote False (Setup_Success \<lparr>ok_used_version = 2, ok_flags = 2\<rparr>) #
      open_effects True t msg 0 a target n q"
    unfolding c_def c0 by blast
  let ?q = "p'\<lparr>pl_conns := pl_conns p' @ [c0]\<rparr>"
  have "new_effects c0 c = conn_log c" by (simp add: c0 new_effects_def connection_start_def)
  then have new: "List.map_filter solution_of (new_effects c0 c) = []"
    "List.map_filter report_of (new_effects c0 c) = [Miner_Connected a t]"
    by (simp_all add: log open_effects_def List.map_filter_simps)
  have "(pool_step L N C addr)\<^sup>*\<^sup>* ?q (?q\<lparr>pl_conns := (pl_conns ?q)[length (pl_conns p') := c],
      pl_solutions := pl_solutions ?q @ List.map_filter solution_of (new_effects c0 c),
      pl_reports := pl_reports ?q @ List.map_filter report_of (new_effects c0 c)\<rparr>)"
    unfolding c_def by (rule peer_steps) (simp_all add: conn_legal_def)
  then have "(pool_step L N C addr)\<^sup>*\<^sup>* ?q (p'\<lparr>pl_conns := pl_conns p' @ [c],
      pl_reports := pl_reports p' @ [Miner_Connected a t]\<rparr>)"
    by (simp add: new)
  with pool_step.accept [of L N C addr p' "[]"]
  have "(pool_step L N C addr)\<^sup>*\<^sup>* p' (p'\<lparr>pl_conns := pl_conns p' @ [c],
      pl_reports := pl_reports p' @ [Miner_Connected a t]\<rparr>)"
    unfolding c0_def by (rule converse_rtranclp_into_rtranclp)
  with ended target job served log job_of_fields [OF build_job_messages_job_of [OF job]] show ?thesis
    by (intro conjI exI [of _ c] exI [of _ target] exI [of _ n] exI [of _ q] exI [of _ j]) simp_all
qed

theorem dead_node_client_silent_witness:
  "\<exists>p :: nat pool. \<exists>c target n q j.
    pool_reaches sample_crates sample_node sample_codec ''bc1pool'' 0 0 empty_database p \<and>
    ip_phase (pl_node p) = Finished (Some (Bail ''waitNext: gone'')) \<and>
    (pool_step sample_crates sample_node sample_codec ''bc1pool'')\<^sup>*\<^sup>* p
      (p\<lparr>pl_conns := pl_conns p @ [c], pl_reports := pl_reports p @ [Miner_Connected ''bc1q'' 5]\<rparr>) \<and>
    conn_log c = Wrote False (Setup_Success \<lparr>ok_used_version = 2, ok_flags = 2\<rparr>) #
      open_effects True 5 sample_open 0 ''bc1q'' target n q \<and> ji_template_id j = 0 \<and>
    channels (w_state (cn_world c)) = [0 \<mapsto> opened_channel 0 ''bc1q'' target j]"
proof -
  let ?step = "pool_step sample_crates sample_node sample_codec ''bc1pool''"
  let ?p0 = "pool_start sample_ipc (worker_start 0 empty_database)"
  define n where "n = ipc_step sample_crates sample_node (Wait_Next (\<lambda>_. Wait_Bad ''gone'') True) sample_ipc"
  define p where "p = ?p0\<lparr>pl_node := n\<rparr>"
  have "?step ?p0 p"
    using pool_step.node [of "Wait_Next (\<lambda>_. Wait_Bad ''gone'') True" n sample_crates sample_node ?p0 sample_codec "''bc1pool''"]
    by (simp add: n_def p_def pool_start_def)
  then have reach: "pool_reaches sample_crates sample_node sample_codec ''bc1pool'' 0 0 empty_database p"
    using sample_ipc_started unfolding pool_reaches_def by blast
  have ended: "ip_phase (pl_node p) = Finished (Some (Bail ''waitNext: gone''))"
    by (simp add: p_def n_def ipc_step_def sample_ipc_def)
  have raw: "last (published_templates (ip_log (pl_node p))) = sample_template"
    by (simp add: p_def n_def ipc_step_def sample_ipc_def)
  have msgs: "setup_acceptable sample_setup" "finite_f32 (oc_nominal_hash_rate sample_open)"
    "parse_miner_address sample_crates (oc_user_identity sample_open) ''bc1pool'' = ''bc1q''"
    by (simp_all add: setup_acceptable_def sample_setup_def finite_f32_def sample_open_def sample_address)
  have fits: "68 + length [98, 99, 49, 113 :: u8] + length (nt_coinbase_tx_outputs (rt_new_template sample_template)) \<le> 65535"
    by (simp add: sample_template_def enc_txout_def enc_blob_def sample_output_def compact_size_def)
  have "ip_phase (pl_node p) \<noteq> Running" by (simp add: ended)
  from dead_node_client_silent [OF sample_crates_all_ok sample_node_header_ok empty_database_ok reach this
      rtranclp.rtrancl_refl raw [symmetric] sample_parsers(1) msgs(1) sample_parsers(2) msgs(2)
      msgs(3) [symmetric] sample_address(2) fits, of 5]
  have "\<exists>c target n q j. ?step\<^sup>*\<^sup>* p (p\<lparr>pl_conns := pl_conns p @ [c], pl_reports := pl_reports p @ [Miner_Connected ''bc1q'' 5]\<rparr>) \<and>
      conn_log c = Wrote False (Setup_Success \<lparr>ok_used_version = 2, ok_flags = 2\<rparr>) #
        open_effects True 5 sample_open 0 ''bc1q'' target n q \<and>
      ji_template_id j = nt_template_id (rt_new_template sample_template) \<and>
      channels (w_state (cn_world c)) = [0 \<mapsto> opened_channel 0 ''bc1q'' target j]"
    by blast
  moreover have "nt_template_id (rt_new_template sample_template) = 0" by (simp add: sample_template_def)
  ultimately show ?thesis using reach ended by metis
qed

end
