(* ===== verification/Config.thy ===== *)
theory Config
  imports Crates
begin

text \<open>
  The configuration, from \<open>pool/src/config.rs\<close>: the environment variables, their defaults, and the
  two keys. The environment is a map; a variable that is unset or not Unicode has no value. The
  hexadecimal reader is the one of \<open>Crates\<close>, the parser of socket addresses a parameter.
\<close>

type_synonym environment = "string \<Rightarrow> string option"

record 'addr config =
  cf_rpc_url :: string
  cf_rpc_user :: string
  cf_rpc_pass :: string
  cf_sv2_listen_addr :: 'addr
  cf_pool_address :: string
  cf_pool_authority_public_key :: bytes
  cf_pool_authority_private_key :: bytes
  cf_bitcoin_ipc_socket :: string

definition env_or :: "environment \<Rightarrow> string \<Rightarrow> string \<Rightarrow> string" where
  "env_or env var fallback = (case env var of None \<Rightarrow> fallback | Some v \<Rightarrow> v)"

definition env_required :: "environment \<Rightarrow> string \<Rightarrow> string outcome" where
  "env_required env var = ok_or (Bail (var @ '' not set'')) (env var)"

definition parse_key32 :: "crates \<Rightarrow> environment \<Rightarrow> string \<Rightarrow> bytes outcome" where
  "parse_key32 L env var =
     and_then (ok_or (Bail (var @ '' not set'')) (env var)) (\<lambda>hex.
     and_then (ok_or (Bail (var @ '' is not valid hex'')) (hex_decode L hex)) (\<lambda>bs.
     if length bs = 32 then Inr bs
     else Inl (Bail (var @ '' must be exactly 32 bytes (64 hex chars)''))))"

definition from_env :: "crates \<Rightarrow> (string \<Rightarrow> 'addr option) \<Rightarrow> environment \<Rightarrow> 'addr config outcome" where
  "from_env L parse_addr env =
     (let rpc_url = env_or env ''RPC_URL'' ''http://127.0.0.1:18443'' in
      and_then (env_required env ''RPC_USER'') (\<lambda>rpc_user.
      and_then (env_required env ''RPC_PASS'') (\<lambda>rpc_pass.
      and_then (ok_or (Bail ''SV2_LISTEN_ADDR must be a valid socket address'')
        (parse_addr (env_or env ''SV2_LISTEN_ADDR'' ''0.0.0.0:3333''))) (\<lambda>sv2_listen_addr.
      and_then (env_required env ''POOL_ADDRESS'') (\<lambda>pool_address.
      and_then (parse_key32 L env ''POOL_AUTHORITY_PUBLIC_KEY'') (\<lambda>public_key.
      and_then (parse_key32 L env ''POOL_AUTHORITY_PRIVATE_KEY'') (\<lambda>private_key.
      Inr \<lparr>cf_rpc_url = rpc_url, cf_rpc_user = rpc_user, cf_rpc_pass = rpc_pass,
           cf_sv2_listen_addr = sv2_listen_addr, cf_pool_address = pool_address,
           cf_pool_authority_public_key = public_key, cf_pool_authority_private_key = private_key,
           cf_bitcoin_ipc_socket = env_or env ''BITCOIN_IPC_SOCKET'' ''.bitcoin-data/regtest/node.sock''\<rparr>)))))))"

section \<open>The specification\<close>

text \<open>
  What is wrong with the value of a variable, independently of the others, and the order in which the
  configuration looks at them.
\<close>

definition variable_problem :: "crates \<Rightarrow> (string \<Rightarrow> 'addr option) \<Rightarrow> environment \<Rightarrow> string \<Rightarrow> string option" where
  "variable_problem L parse_addr env var =
     (if var = ''SV2_LISTEN_ADDR'' then
        (case parse_addr (env_or env var ''0.0.0.0:3333'') of
           None \<Rightarrow> Some (var @ '' must be a valid socket address'') | Some _ \<Rightarrow> None)
      else
        (case env var of
           None \<Rightarrow> Some (var @ '' not set'')
         | Some v \<Rightarrow>
             if var \<in> {''POOL_AUTHORITY_PUBLIC_KEY'', ''POOL_AUTHORITY_PRIVATE_KEY''} then
               (case hex_decode L v of
                  None \<Rightarrow> Some (var @ '' is not valid hex'')
                | Some bs \<Rightarrow> if length bs = 32 then None
                    else Some (var @ '' must be exactly 32 bytes (64 hex chars)''))
             else None))"

definition checked_variables :: "string list" where
  "checked_variables = [''RPC_USER'', ''RPC_PASS'', ''SV2_LISTEN_ADDR'', ''POOL_ADDRESS'',
     ''POOL_AUTHORITY_PUBLIC_KEY'', ''POOL_AUTHORITY_PRIVATE_KEY'']"

lemma env_required_problem:
  "var \<notin> {''SV2_LISTEN_ADDR'', ''POOL_AUTHORITY_PUBLIC_KEY'', ''POOL_AUTHORITY_PRIVATE_KEY''} \<Longrightarrow>
    env_required env var =
      (case variable_problem L parse_addr env var of Some e \<Rightarrow> Inl (Bail e) | None \<Rightarrow> Inr (the (env var)))"
  by (simp add: env_required_def variable_problem_def split: option.split)

lemma parse_key32_problem:
  "var \<in> {''POOL_AUTHORITY_PUBLIC_KEY'', ''POOL_AUTHORITY_PRIVATE_KEY''} \<Longrightarrow>
    parse_key32 L env var =
      (case variable_problem L parse_addr env var of
         Some e \<Rightarrow> Inl (Bail e) | None \<Rightarrow> Inr (the (hex_decode L (the (env var)))))"
  by (auto simp: parse_key32_def variable_problem_def split: option.split)

lemma no_problem:
  "var \<notin> {''SV2_LISTEN_ADDR'', ''POOL_AUTHORITY_PUBLIC_KEY'', ''POOL_AUTHORITY_PRIVATE_KEY''} \<Longrightarrow>
    variable_problem L parse_addr env var = None \<longleftrightarrow> (\<exists>v. env var = Some v)"
  "variable_problem L parse_addr env ''SV2_LISTEN_ADDR'' = None \<longleftrightarrow>
    (\<exists>a. parse_addr (env_or env ''SV2_LISTEN_ADDR'' ''0.0.0.0:3333'') = Some a)"
  "var \<in> {''POOL_AUTHORITY_PUBLIC_KEY'', ''POOL_AUTHORITY_PRIVATE_KEY''} \<Longrightarrow>
    variable_problem L parse_addr env var = None \<longleftrightarrow>
      (\<exists>v bs. env var = Some v \<and> hex_decode L v = Some bs \<and> length bs = 32)"
  by (auto simp: variable_problem_def split: option.splits if_splits)

lemma listen_addr_problem:
  "ok_or (Bail ''SV2_LISTEN_ADDR must be a valid socket address'')
      (parse_addr (env_or env ''SV2_LISTEN_ADDR'' ''0.0.0.0:3333'')) =
    (case variable_problem L parse_addr env ''SV2_LISTEN_ADDR'' of
       Some e \<Rightarrow> Inl (Bail e)
     | None \<Rightarrow> Inr (the (parse_addr (env_or env ''SV2_LISTEN_ADDR'' ''0.0.0.0:3333''))))"
  by (simp add: variable_problem_def split: option.split)

text \<open>The steps of \<open>from_env\<close> are the problems of the variables, in order.\<close>

lemma from_env_steps:
  fixes L :: crates and parse_addr :: "string \<Rightarrow> 'addr option" and env :: environment
  defines "P \<equiv> variable_problem L parse_addr env"
  shows "from_env L parse_addr env =
    (case List.map_filter P checked_variables of
       e # _ \<Rightarrow> Inl (Bail e)
     | [] \<Rightarrow> Inr \<lparr>cf_rpc_url = env_or env ''RPC_URL'' ''http://127.0.0.1:18443'',
         cf_rpc_user = the (env ''RPC_USER''), cf_rpc_pass = the (env ''RPC_PASS''),
         cf_sv2_listen_addr = the (parse_addr (env_or env ''SV2_LISTEN_ADDR'' ''0.0.0.0:3333'')),
         cf_pool_address = the (env ''POOL_ADDRESS''),
         cf_pool_authority_public_key = the (hex_decode L (the (env ''POOL_AUTHORITY_PUBLIC_KEY''))),
         cf_pool_authority_private_key = the (hex_decode L (the (env ''POOL_AUTHORITY_PRIVATE_KEY''))),
         cf_bitcoin_ipc_socket = env_or env ''BITCOIN_IPC_SOCKET'' ''.bitcoin-data/regtest/node.sock''\<rparr>)"
  unfolding from_env_def Let_def listen_addr_problem [where L = L] checked_variables_def
  by (simp add: env_required_problem [of _ _ L parse_addr] parse_key32_problem [of _ _ _ parse_addr]
      List.map_filter_simps P_def [symmetric] split: option.split)

text \<open>
  C32: The configuration is read exactly when no variable has a problem, and otherwise the error is the
  problem of the first variable in the order of the fields, whatever the later ones are; the keys it
  returns are the decoded variables and have 32 bytes, and the optional variables have their defaults.
\<close>

theorem from_env_reports_first_problem:
  "case from_env L parse_addr env of
     Inl e \<Rightarrow> \<exists>problem rest. e = Bail problem \<and>
       List.map_filter (variable_problem L parse_addr env) checked_variables = problem # rest
   | Inr cfg \<Rightarrow> List.map_filter (variable_problem L parse_addr env) checked_variables = [] \<and>
       env ''RPC_USER'' = Some (cf_rpc_user cfg) \<and> env ''RPC_PASS'' = Some (cf_rpc_pass cfg) \<and>
       env ''POOL_ADDRESS'' = Some (cf_pool_address cfg) \<and>
       parse_addr (env_or env ''SV2_LISTEN_ADDR'' ''0.0.0.0:3333'') = Some (cf_sv2_listen_addr cfg) \<and>
       hex_decode L (the (env ''POOL_AUTHORITY_PUBLIC_KEY'')) = Some (cf_pool_authority_public_key cfg) \<and>
       hex_decode L (the (env ''POOL_AUTHORITY_PRIVATE_KEY'')) = Some (cf_pool_authority_private_key cfg) \<and>
       length (cf_pool_authority_public_key cfg) = 32 \<and> length (cf_pool_authority_private_key cfg) = 32 \<and>
       cf_rpc_url cfg = env_or env ''RPC_URL'' ''http://127.0.0.1:18443'' \<and>
       cf_bitcoin_ipc_socket cfg = env_or env ''BITCOIN_IPC_SOCKET'' ''.bitcoin-data/regtest/node.sock''"
proof (cases "List.map_filter (variable_problem L parse_addr env) checked_variables")
  case Nil
  then have none: "variable_problem L parse_addr env var = None" if "var \<in> set checked_variables" for var
    using that by (auto simp: List.map_filter_def filter_empty_conv)
  have "\<exists>v. env ''RPC_USER'' = Some v" "\<exists>v. env ''RPC_PASS'' = Some v" "\<exists>v. env ''POOL_ADDRESS'' = Some v"
    "\<exists>a. parse_addr (env_or env ''SV2_LISTEN_ADDR'' ''0.0.0.0:3333'') = Some a"
    "\<exists>v bs. env ''POOL_AUTHORITY_PUBLIC_KEY'' = Some v \<and> hex_decode L v = Some bs \<and> length bs = 32"
    "\<exists>v bs. env ''POOL_AUTHORITY_PRIVATE_KEY'' = Some v \<and> hex_decode L v = Some bs \<and> length bs = 32"
    using none [of "''RPC_USER''"] none [of "''RPC_PASS''"] none [of "''POOL_ADDRESS''"]
      none [of "''SV2_LISTEN_ADDR''"] none [of "''POOL_AUTHORITY_PUBLIC_KEY''"]
      none [of "''POOL_AUTHORITY_PRIVATE_KEY''"]
    by (simp_all add: checked_variables_def no_problem)
  with Nil show ?thesis by (auto simp: from_env_steps)
qed (simp add: from_env_steps)

end
