(* ===== verification/Noise_Transport.thy ===== *)
theory Noise_Transport
  imports Messages
begin

text \<open>
  The encrypted transport under a connection, from \<open>pool/src/noise_connection.rs\<close>: reading frames
  from a socket that delivers bytes in arbitrary pieces, writing them, and the two handshakes. The
  Noise codec is not part of the repository, so its decoder, encoder and key states are the fields
  of the records \<open>noise_decoder\<close> and \<open>noise_codec\<close>. A loop that may run or wait forever returns an
  option; \<open>None\<close> is "does not return".
\<close>

section \<open>The codec\<close>

datatype decoded = Frame_Ready either_frame | Missing_Bytes | Decode_Failed

text \<open>
  \<open>fill_writable d bs\<close> is \<open>writable().copy_from_slice(bs)\<close> for \<open>bs\<close> of the writable length;
  \<open>next_frame\<close> changes the decoder and the key state.
\<close>

record ('d, 'k) noise_decoder =
  writable_len :: "'d \<Rightarrow> nat"
  fill_writable :: "'d \<Rightarrow> bytes \<Rightarrow> 'd"
  next_frame :: "'d \<Rightarrow> 'k \<Rightarrow> decoded \<times> 'd \<times> 'k"

text \<open>
  What the loops rely on: a decoder that asks for bytes says how many (the source describes this
  behaviour where it reads the handshake).
\<close>

definition decoder_ok :: "('d, 'k) noise_decoder \<Rightarrow> bool" where
  "decoder_ok D \<longleftrightarrow> (\<forall>d k d' k'. next_frame D d k = (Missing_Bytes, d', k') \<longrightarrow> 0 < writable_len D d')"

section \<open>The socket\<close>

text \<open>
  What the reads of a socket return: some bytes (none at all when the peer has closed it) or an
  error. The end of the list is a read that has not completed: the task waits, and may be cancelled
  there.
\<close>

datatype arrival = Data bytes | Read_Error

datatype 'a poll = Ready "'a outcome" | Pending

fun arrival_bytes :: "arrival \<Rightarrow> bytes" where
  "arrival_bytes (Data bs) = bs"
| "arrival_bytes Read_Error = []"

definition socket_bytes :: "arrival list \<Rightarrow> bytes" where
  "socket_bytes socket = concat (map arrival_bytes socket)"

lemma socket_bytes_simps [simp]:
  "socket_bytes [] = []" "socket_bytes (a # s) = arrival_bytes a @ socket_bytes s"
  "socket_bytes (s @ t) = socket_bytes s @ socket_bytes t"
  by (simp_all add: socket_bytes_def)

section \<open>Reading frames\<close>

record ('d, 'k) noise_read_half =
  rh_decoder :: 'd
  rh_state :: 'k
  rh_buf :: bytes
  rh_bytes_read :: nat

text \<open>
  One completed read: it takes what fits into the rest of the buffer; the rest of the bytes stays in
  the socket. The inner loop reads until the buffer is full.
\<close>

definition store :: "bytes \<Rightarrow> ('d, 'k) noise_read_half \<Rightarrow> ('d, 'k) noise_read_half" where
  "store bs r =
     r\<lparr>rh_buf := take (rh_bytes_read r) (rh_buf r) @ bs @ drop (rh_bytes_read r + length bs) (rh_buf r),
       rh_bytes_read := rh_bytes_read r + length bs\<rparr>"

definition push_back :: "bytes \<Rightarrow> arrival list \<Rightarrow> arrival list" where
  "push_back bs socket = (if bs = [] then socket else Data bs # socket)"

function fill_buf ::
    "nat \<Rightarrow> ('d, 'k) noise_read_half \<Rightarrow> arrival list \<Rightarrow> unit poll \<times> ('d, 'k) noise_read_half \<times> arrival list" where
  "fill_buf expected r socket =
     (if rh_bytes_read r < expected then
        (case socket of
           [] \<Rightarrow> (Pending, r, [])
         | Read_Error # rest \<Rightarrow> (Ready (Inl (Bail ''read error'')), r, rest)
         | Data bs # rest \<Rightarrow>
             let n = min (length bs) (length (rh_buf r) - rh_bytes_read r) in
             if n = 0 then (Ready (Inl (Bail ''connection closed'')), r, socket)
             else fill_buf expected (store (take n bs) r) (push_back (drop n bs) rest))
      else (Ready (Inr ()), r, socket))"
  by pat_completeness auto
termination
  by (relation "measure (\<lambda>(expected, r, socket). expected - rh_bytes_read r)")
    (auto simp: store_def min_def simp flip: length_greater_0_conv split: if_splits)

declare fill_buf.simps [simp del]

text \<open>
  \<open>read_frame\<close>: \<open>Pending\<close> leaves the reader as it is when the future is dropped. After
  \<open>Missing_Bytes\<close> the task yields, and a reader dropped there is the argument of the next round.
\<close>

definition resize_buf :: "nat \<Rightarrow> ('d, 'k) noise_read_half \<Rightarrow> ('d, 'k) noise_read_half" where
  "resize_buf expected r =
     (if length (rh_buf r) \<noteq> expected then
        r\<lparr>rh_buf := take expected (rh_buf r @ replicate expected 0), rh_bytes_read := 0\<rparr>
      else r)"

partial_function (option) read_frame ::
    "('d, 'k) noise_decoder \<Rightarrow> ('d, 'k) noise_read_half \<Rightarrow> arrival list \<Rightarrow>
     (either_frame poll \<times> ('d, 'k) noise_read_half \<times> arrival list) option" where
  "read_frame D r socket =
     (let expected = writable_len D (rh_decoder r) in
      case fill_buf expected (resize_buf expected r) socket of
        (Pending, r, socket) \<Rightarrow> Some (Pending, r, socket)
      | (Ready (Inl e), r, socket) \<Rightarrow> Some (Ready (Inl e), r, socket)
      | (Ready (Inr _), r, socket) \<Rightarrow>
          (case next_frame D (fill_writable D (rh_decoder r) (rh_buf r)) (rh_state r) of
             (Frame_Ready f, d, k) \<Rightarrow>
               Some (Ready (Inr f), r\<lparr>rh_bytes_read := 0, rh_decoder := d, rh_state := k\<rparr>, socket)
           | (Missing_Bytes, d, k) \<Rightarrow>
               read_frame D (r\<lparr>rh_bytes_read := 0, rh_decoder := d, rh_state := k\<rparr>) socket
           | (Decode_Failed, d, k) \<Rightarrow>
               Some (Ready (Inl (Bail ''frame decode error'')),
                 r\<lparr>rh_bytes_read := 0, rh_decoder := d, rh_state := k\<rparr>, socket)))"

text \<open>
  One round of the loop ends the call or starts the next round; calls that return are proved about by
  induction over the rounds.
\<close>

definition read_round_of ::
    "('d, 'k) noise_decoder \<Rightarrow> ('d, 'k) noise_read_half \<Rightarrow> arrival list \<Rightarrow>
     either_frame poll \<times> ('d, 'k) noise_read_half \<times> arrival list + ('d, 'k) noise_read_half \<times> arrival list" where
  "read_round_of D r socket =
     (let expected = writable_len D (rh_decoder r) in
      case fill_buf expected (resize_buf expected r) socket of
        (Pending, r, socket) \<Rightarrow> Inl (Pending, r, socket)
      | (Ready (Inl e), r, socket) \<Rightarrow> Inl (Ready (Inl e), r, socket)
      | (Ready (Inr _), r, socket) \<Rightarrow>
          (case next_frame D (fill_writable D (rh_decoder r) (rh_buf r)) (rh_state r) of
             (Frame_Ready f, d, k) \<Rightarrow>
               Inl (Ready (Inr f), r\<lparr>rh_bytes_read := 0, rh_decoder := d, rh_state := k\<rparr>, socket)
           | (Missing_Bytes, d, k) \<Rightarrow> Inr (r\<lparr>rh_bytes_read := 0, rh_decoder := d, rh_state := k\<rparr>, socket)
           | (Decode_Failed, d, k) \<Rightarrow>
               Inl (Ready (Inl (Bail ''frame decode error'')),
                 r\<lparr>rh_bytes_read := 0, rh_decoder := d, rh_state := k\<rparr>, socket)))"

lemma read_frame_rounds:
  "read_frame D r s = (case read_round_of D r s of Inl x \<Rightarrow> Some x | Inr (r', s') \<Rightarrow> read_frame D r' s')"
  by (subst read_frame.simps)
    (simp add: read_round_of_def Let_def split: prod.split poll.split sum.split decoded.split)

lemma read_frame_induct [consumes 1, case_names stops again]:
  assumes "read_frame D r s = Some x"
    and stops: "\<And>r s x. read_round_of D r s = Inl x \<Longrightarrow> P r s x"
    and again: "\<And>r s r' s' x. read_round_of D r s = Inr (r', s') \<Longrightarrow> P r' s' x \<Longrightarrow> P r s x"
  shows "P r s x"
proof -
  have "D = D \<longrightarrow> P r s x"
  proof (rule read_frame.raw_induct [where P = "\<lambda>D' r s x. D' = D \<longrightarrow> P r s x", OF _ assms(1)], intro impI)
    fix f D' r s x
    assume IH: "\<And>D' r s x. f D' r s = Some x \<Longrightarrow> D' = D \<longrightarrow> P r s x" and D: "D' = D"
      and "(let expected = writable_len D' (rh_decoder r) in
        case fill_buf expected (resize_buf expected r) s of
          (Pending, r, socket) \<Rightarrow> Some (Pending, r, socket)
        | (Ready (Inl e), r, socket) \<Rightarrow> Some (Ready (Inl e), r, socket)
        | (Ready (Inr _), r, socket) \<Rightarrow>
            (case next_frame D' (fill_writable D' (rh_decoder r) (rh_buf r)) (rh_state r) of
               (Frame_Ready fr, d, k) \<Rightarrow>
                 Some (Ready (Inr fr), r\<lparr>rh_bytes_read := 0, rh_decoder := d, rh_state := k\<rparr>, socket)
             | (Missing_Bytes, d, k) \<Rightarrow>
                 f D' (r\<lparr>rh_bytes_read := 0, rh_decoder := d, rh_state := k\<rparr>) socket
             | (Decode_Failed, d, k) \<Rightarrow>
                 Some (Ready (Inl (Bail ''frame decode error'')),
                   r\<lparr>rh_bytes_read := 0, rh_decoder := d, rh_state := k\<rparr>, socket))) = Some x"
    then have "(case read_round_of D r s of Inl y \<Rightarrow> Some y | Inr (r', s') \<Rightarrow> f D r' s') = Some x"
      by (simp add: read_round_of_def Let_def split: prod.splits poll.splits sum.splits decoded.splits)
    then consider "read_round_of D r s = Inl x"
      | r' s' where "read_round_of D r s = Inr (r', s')" "f D r' s' = Some x"
      by (cases "read_round_of D r s") auto
    then show "P r s x" using IH [of D] by cases (blast intro: stops again)+
  qed
  then show ?thesis by simp
qed

text \<open>
  The reader's invariant: a partly filled buffer has the length that the decoder asks for.
\<close>

definition reader_ok :: "('d, 'k) noise_decoder \<Rightarrow> ('d, 'k) noise_read_half \<Rightarrow> bool" where
  "reader_ok D r \<longleftrightarrow> rh_bytes_read r = 0 \<or>
     length (rh_buf r) = writable_len D (rh_decoder r) \<and> rh_bytes_read r < length (rh_buf r)"

definition buffered :: "('d, 'k) noise_read_half \<Rightarrow> bytes" where
  "buffered r = take (rh_bytes_read r) (rh_buf r)"

lemma resize_buf_facts [simp]:
  "length (rh_buf (resize_buf n r)) = n" "rh_decoder (resize_buf n r) = rh_decoder r"
  "rh_state (resize_buf n r) = rh_state r"
  by (auto simp: resize_buf_def)

lemma resize_buf_same [simp]: "length (rh_buf r) = n \<Longrightarrow> resize_buf n r = r"
  by (simp add: resize_buf_def)

lemma resize_buffered:
  assumes "reader_ok D r" and "n = writable_len D (rh_decoder r)"
  shows "buffered (resize_buf n r) = buffered r"
    and "rh_bytes_read (resize_buf n r) < n \<or> n = 0 \<and> rh_bytes_read (resize_buf n r) = 0"
  using assms by (auto simp: resize_buf_def buffered_def reader_ok_def)

lemma store_facts:
  "rh_decoder (store bs r) = rh_decoder r" "rh_state (store bs r) = rh_state r"
  "rh_bytes_read (store bs r) = rh_bytes_read r + length bs"
  "rh_bytes_read r + length bs \<le> length (rh_buf r) \<Longrightarrow> length (rh_buf (store bs r)) = length (rh_buf r)"
  "rh_bytes_read r + length bs \<le> length (rh_buf r) \<Longrightarrow> buffered (store bs r) = buffered r @ bs"
  by (simp_all add: store_def buffered_def)

lemma push_back_bytes [simp]: "socket_bytes (push_back bs s) = bs @ socket_bytes s"
  by (simp add: push_back_def)

lemma take_drop_rest [simp]: "take k xs @ drop k xs @ ys = xs @ ys"
  by (simp flip: append_assoc)

text \<open>
  The rounds of the inner loop, for a buffer of the expected length: its end, and one completed
  read.
\<close>

lemma fill_buf_rounds:
  assumes "length (rh_buf r) = n"
  shows "n \<le> rh_bytes_read r \<Longrightarrow> fill_buf n r s = (Ready (Inr ()), r, s)"
    and "rh_bytes_read r < n \<Longrightarrow> fill_buf n r [] = (Pending, r, [])"
    and "rh_bytes_read r < n \<Longrightarrow> fill_buf n r (Read_Error # s) = (Ready (Inl (Bail ''read error'')), r, s)"
    and "rh_bytes_read r < n \<Longrightarrow>
      fill_buf n r (Data [] # s) = (Ready (Inl (Bail ''connection closed'')), r, Data [] # s)"
    and "rh_bytes_read r < n \<Longrightarrow> bs \<noteq> [] \<Longrightarrow> fill_buf n r (Data bs # s) =
      fill_buf n (store (take (n - rh_bytes_read r) bs) r) (push_back (drop (n - rh_bytes_read r) bs) s)"
proof -
  show "rh_bytes_read r < n \<Longrightarrow> bs \<noteq> [] \<Longrightarrow> fill_buf n r (Data bs # s) =
      fill_buf n (store (take (n - rh_bytes_read r) bs) r) (push_back (drop (n - rh_bytes_read r) bs) s)"
    using assms by (subst fill_buf.simps) (auto simp: Let_def min_def)
qed (use assms in \<open>simp_all add: fill_buf.simps Let_def\<close>)

text \<open>Induction over the rounds.\<close>

lemma fill_buf_induct [consumes 2, case_names full waits broken closed more]:
  assumes "length (rh_buf r) = n" and "rh_bytes_read r \<le> n"
    and full: "\<And>r s. length (rh_buf r) = n \<Longrightarrow> rh_bytes_read r = n \<Longrightarrow> P r s"
    and waits: "\<And>r. length (rh_buf r) = n \<Longrightarrow> rh_bytes_read r < n \<Longrightarrow> P r []"
    and broken: "\<And>r s. length (rh_buf r) = n \<Longrightarrow> rh_bytes_read r < n \<Longrightarrow> P r (Read_Error # s)"
    and closed: "\<And>r s. length (rh_buf r) = n \<Longrightarrow> rh_bytes_read r < n \<Longrightarrow> P r (Data [] # s)"
    and more: "\<And>r bs s. length (rh_buf r) = n \<Longrightarrow> rh_bytes_read r < n \<Longrightarrow> bs \<noteq> [] \<Longrightarrow>
      P (store (take (n - rh_bytes_read r) bs) r) (push_back (drop (n - rh_bytes_read r) bs) s) \<Longrightarrow>
      P r (Data bs # s)"
  shows "P r s"
  using assms(1,2)
proof (induction "n - rh_bytes_read r" arbitrary: r s rule: less_induct)
  case (less r s)
  show ?case
  proof (cases "rh_bytes_read r < n")
    case True
    consider "s = []" | rest where "s = Read_Error # rest" | rest where "s = Data [] # rest"
      | bs rest where "s = Data bs # rest" "bs \<noteq> []"
      by (metis arrival.exhaust list.exhaust)
    then show ?thesis
    proof cases
      case (4 bs rest)
      let ?r = "store (take (n - rh_bytes_read r) bs) r"
      define k where "k = min (length bs) (n - rh_bytes_read r)"
      have "0 < k" "k \<le> n - rh_bytes_read r" using 4(2) True by (simp_all add: k_def)
      moreover have "rh_bytes_read ?r = rh_bytes_read r + k" by (simp add: store_facts k_def)
      ultimately have "n - rh_bytes_read ?r < n - rh_bytes_read r" "rh_bytes_read ?r \<le> n"
        using True by linarith+
      moreover have "length (rh_buf ?r) = n" using True less.prems by (simp add: store_facts)
      ultimately have "P ?r (push_back (drop (n - rh_bytes_read r) bs) rest)" by (intro less.hyps)
      with less.prems(1) True 4(2) show ?thesis unfolding 4(1) by (intro more)
    qed (use True less.prems waits broken closed in auto)
  qed (use less.prems full in auto)
qed

lemma fill_buf_keeps:
  assumes "length (rh_buf r) = n" and "rh_bytes_read r \<le> n" and "fill_buf n r s = (p, r', s')"
  shows "rh_decoder r' = rh_decoder r \<and> rh_state r' = rh_state r \<and> length (rh_buf r') = n \<and>
    rh_bytes_read r' \<le> n \<and> (p = Ready (Inr ()) \<longleftrightarrow> rh_bytes_read r' = n) \<and>
    buffered r @ socket_bytes s = buffered r' @ socket_bytes s'"
  using assms
proof (induction r s rule: fill_buf_induct)
  case (more r bs s)
  then show ?case by (simp add: fill_buf_rounds store_facts)
qed (auto simp: fill_buf_rounds)

lemma fill_buf_append:
  assumes "length (rh_buf r) = n" and "rh_bytes_read r \<le> n" and "fill_buf n r s = (p, r', s')"
  shows "(p = Pending \<longrightarrow> s' = [] \<and> (\<forall>more. fill_buf n r' more = fill_buf n r (s @ more))) \<and>
    (p \<noteq> Pending \<longrightarrow> (\<forall>more. fill_buf n r (s @ more) = (p, r', s' @ more)))"
  using assms
proof (induction r s rule: fill_buf_induct)
  case (more r bs s)
  have "push_back ds s @ x = push_back ds (s @ x)" for ds x by (simp add: push_back_def)
  with more show ?case by (simp add: fill_buf_rounds)
qed (auto simp: fill_buf_rounds)

text \<open>When all pieces are non-empty, only a full buffer or an empty socket ends the inner loop.\<close>

fun open_socket :: "arrival list \<Rightarrow> bool" where
  "open_socket [] = True"
| "open_socket (Data bs # s) = (bs \<noteq> [] \<and> open_socket s)"
| "open_socket (Read_Error # s) = False"

lemma fill_buf_open:
  assumes "length (rh_buf r) = n" and "rh_bytes_read r \<le> n" and "open_socket s"
    and "fill_buf n r s = (p, r', s')"
  shows "open_socket s' \<and> (p = Ready (Inr ()) \<or> p = Pending \<and> s' = [] \<and> rh_bytes_read r' < n)"
  using assms
proof (induction r s rule: fill_buf_induct)
  case (more r bs s)
  then have "open_socket (push_back (drop (n - rh_bytes_read r) bs) s)"
    by (simp add: push_back_def)
  with more show ?case by (simp add: fill_buf_rounds)
qed (auto simp: fill_buf_rounds)

text \<open>A full buffer that was not full has consumed bytes.\<close>

lemma fill_buf_consumes:
  assumes "fill_buf n r s = (Ready (Inr ()), r', s')" and "length (rh_buf r) = n" and "rh_bytes_read r < n"
  shows "length (socket_bytes s') < length (socket_bytes s)"
proof -
  note k = fill_buf_keeps [OF assms(2) less_imp_le [OF assms(3)] assms(1)]
  then have "length (buffered r) + length (socket_bytes s) = length (buffered r') + length (socket_bytes s')"
    by (metis length_append)
  with k assms(2,3) show ?thesis by (simp add: buffered_def)
qed

section \<open>The reader as a function of the byte stream\<close>

text \<open>
  The specification: the decoder applied to the concatenation of all bytes, whatever their pieces
  and however often the reader was dropped and called again.
\<close>

partial_function (option) decode_stream ::
    "('d, 'k) noise_decoder \<Rightarrow> 'd \<Rightarrow> 'k \<Rightarrow> bytes \<Rightarrow> (either_frame poll \<times> 'd \<times> 'k \<times> bytes) option" where
  "decode_stream D d k bs =
     (let n = writable_len D d in
      if length bs < n then Some (Pending, d, k, bs)
      else
        (case next_frame D (fill_writable D d (take n bs)) k of
           (Frame_Ready f, d, k) \<Rightarrow> Some (Ready (Inr f), d, k, drop n bs)
         | (Missing_Bytes, d, k) \<Rightarrow> decode_stream D d k (drop n bs)
         | (Decode_Failed, d, k) \<Rightarrow> Some (Ready (Inl (Bail ''frame decode error'')), d, k, drop n bs)))"


text \<open>Its rounds, and the induction over them.\<close>

definition decode_round_of ::
    "('d, 'k) noise_decoder \<Rightarrow> 'd \<Rightarrow> 'k \<Rightarrow> bytes \<Rightarrow>
     either_frame poll \<times> 'd \<times> 'k \<times> bytes + 'd \<times> 'k \<times> bytes" where
  "decode_round_of D d k bs =
     (let n = writable_len D d in
      if length bs < n then Inl (Pending, d, k, bs)
      else
        (case next_frame D (fill_writable D d (take n bs)) k of
           (Frame_Ready f, d, k) \<Rightarrow> Inl (Ready (Inr f), d, k, drop n bs)
         | (Missing_Bytes, d, k) \<Rightarrow> Inr (d, k, drop n bs)
         | (Decode_Failed, d, k) \<Rightarrow> Inl (Ready (Inl (Bail ''frame decode error'')), d, k, drop n bs)))"

lemma decode_stream_rounds:
  "decode_stream D d k bs =
    (case decode_round_of D d k bs of Inl y \<Rightarrow> Some y | Inr (d', k', bs') \<Rightarrow> decode_stream D d' k' bs')"
  by (subst decode_stream.simps) (simp add: decode_round_of_def Let_def split: prod.split decoded.split)

lemma decode_stream_induct [consumes 1, case_names stops again]:
  assumes "decode_stream D d k bs = Some y"
    and stops: "\<And>d k bs y. decode_round_of D d k bs = Inl y \<Longrightarrow> P d k bs y"
    and again: "\<And>d k bs d' k' bs' y. decode_round_of D d k bs = Inr (d', k', bs') \<Longrightarrow> P d' k' bs' y \<Longrightarrow> P d k bs y"
  shows "P d k bs y"
proof -
  have "D = D \<longrightarrow> P d k bs y"
  proof (rule decode_stream.raw_induct [where P = "\<lambda>D' d k bs y. D' = D \<longrightarrow> P d k bs y", OF _ assms(1)], intro impI)
    fix f D' d k bs y
    assume IH: "\<And>D' d k bs y. f D' d k bs = Some y \<Longrightarrow> D' = D \<longrightarrow> P d k bs y" and D: "D' = D"
      and "(let n = writable_len D' d in
        if length bs < n then Some (Pending, d, k, bs)
        else
          (case next_frame D' (fill_writable D' d (take n bs)) k of
             (Frame_Ready fr, d, k) \<Rightarrow> Some (Ready (Inr fr), d, k, drop n bs)
           | (Missing_Bytes, d, k) \<Rightarrow> f D' d k (drop n bs)
           | (Decode_Failed, d, k) \<Rightarrow>
               Some (Ready (Inl (Bail ''frame decode error'')), d, k, drop n bs))) = Some y"
    then have "(case decode_round_of D d k bs of Inl z \<Rightarrow> Some z | Inr (d', k', bs') \<Rightarrow> f D d' k' bs') = Some y"
      by (simp add: decode_round_of_def Let_def split: if_splits prod.splits decoded.splits)
    then consider "decode_round_of D d k bs = Inl y"
      | d' k' bs' where "decode_round_of D d k bs = Inr (d', k', bs')" "f D d' k' bs' = Some y"
      by (cases "decode_round_of D d k bs") auto
    then show "P d k bs y" using IH [of D] by cases (blast intro: stops again)+
  qed
  then show ?thesis by simp
qed

text \<open>
  Bytes that come later do not change what the earlier ones give, and a stream that waits goes on
  with them where it is.
\<close>

lemma decode_stream_append:
  assumes "decode_stream D d k bs = Some y" and "y = (p, d', k', rest)"
  shows "(p \<noteq> Pending \<longrightarrow> decode_stream D d k (bs @ tail) = Some (p, d', k', rest @ tail)) \<and>
    (p = Pending \<longrightarrow> decode_stream D d k (bs @ tail) = decode_stream D d' k' (rest @ tail))"
  using assms
proof (induction d k bs y rule: decode_stream_induct)
  case (stops d k bs y)
  show ?case
  proof (cases "length bs < writable_len D d")
    case True
    with stops show ?thesis by (simp add: decode_round_of_def Let_def)
  next
    case False
    with stops show ?thesis
      by (subst (1) decode_stream_rounds)
        (auto simp: decode_round_of_def Let_def split: prod.splits decoded.splits)
  qed
next
  case (again d k bs d1 k1 bs1 y)
  then have "decode_round_of D d k (bs @ tail) = Inr (d1, k1, bs1 @ tail)"
    by (auto simp: decode_round_of_def Let_def split: if_splits prod.splits decoded.splits)
  then have "decode_stream D d k (bs @ tail) = decode_stream D d1 k1 (bs1 @ tail)"
    by (subst decode_stream_rounds) simp
  with again show ?case by simp
qed

text \<open>One round of the reader against the bytes that it and the socket hold.\<close>

lemma read_round:
  assumes "reader_ok D r" and "open_socket s" and "n = writable_len D (rh_decoder r)"
    and "bytes = buffered r @ socket_bytes s"
  obtains (full) r' s' where "n \<le> length bytes" "fill_buf n (resize_buf n r) s = (Ready (Inr ()), r', s')"
      "rh_buf r' = take n bytes" "socket_bytes s' = drop n bytes" "open_socket s'"
      "rh_decoder r' = rh_decoder r" "rh_state r' = rh_state r"
    | (waits) r' where "length bytes < n" "fill_buf n (resize_buf n r) s = (Pending, r', [])"
      "buffered r' = bytes" "reader_ok D r'" "rh_decoder r' = rh_decoder r" "rh_state r' = rh_state r"
proof -
  obtain p r' s' where fill: "fill_buf n (resize_buf n r) s = (p, r', s')" by (metis prod_cases3)
  note b = resize_buffered [OF assms(1,3)]
  then have le: "rh_bytes_read (resize_buf n r) \<le> n" by auto
  note k = fill_buf_keeps [OF resize_buf_facts(1) le fill]
    and o = fill_buf_open [OF resize_buf_facts(1) le assms(2) fill]
  have all: "bytes = buffered r' @ socket_bytes s'" using k b(1) assms(4) by simp
  consider "p = Ready (Inr ())" | "p = Pending" "s' = []" "rh_bytes_read r' < n" using o by blast
  then show thesis
  proof cases
    case 1
    with k have "buffered r' = rh_buf r'" "length (rh_buf r') = n" by (simp_all add: buffered_def)
    with 1 k o all fill show thesis by (intro full [of r' s']) auto
  next
    case 2
    with k all have "length bytes < n" "buffered r' = bytes" by (simp_all add: buffered_def)
    moreover have "reader_ok D r'" using 2 k assms(3) by (simp add: reader_ok_def)
    ultimately show thesis using 2 k fill by (intro waits [of r']) auto
  qed
qed

definition reader_view ::
    "either_frame poll \<times> ('d, 'k) noise_read_half \<times> arrival list \<Rightarrow> either_frame poll \<times> 'd \<times> 'k \<times> bytes" where
  "reader_view = (\<lambda>(p, r, s). (p, rh_decoder r, rh_state r, buffered r @ socket_bytes s))"

lemma emptied [simp]:
  "buffered (r\<lparr>rh_bytes_read := 0, rh_decoder := d, rh_state := k\<rparr>) = []"
  "reader_ok D (r\<lparr>rh_bytes_read := 0, rh_decoder := d, rh_state := k\<rparr>)"
  by (simp_all add: buffered_def reader_ok_def)

lemma read_frame_streams:
  assumes "read_frame D r s = Some x" and "reader_ok D r" and "open_socket s"
  shows "decode_stream D (rh_decoder r) (rh_state r) (buffered r @ socket_bytes s) = Some (reader_view x) \<and>
    reader_ok D (fst (snd x)) \<and> open_socket (snd (snd x))"
  using assms
proof (induction r s x rule: read_frame_induct)
  case (stops r s x)
  let ?bytes = "buffered r @ socket_bytes s"
  let ?n = "writable_len D (rh_decoder r)"
  from stops.prems refl refl show ?case
  proof (cases rule: read_round [where n = ?n and bytes = ?bytes])
    case (full r' s')
    then show ?thesis using stops.hyps
      by (subst decode_stream.simps)
        (auto simp: read_round_of_def Let_def not_less reader_view_def split: prod.splits decoded.splits)
  next
    case (waits r')
    then show ?thesis using stops.hyps
      by (subst decode_stream.simps) (auto simp: read_round_of_def Let_def reader_view_def)
  qed
next
  case (again r s r2 s2 x)
  let ?bytes = "buffered r @ socket_bytes s"
  let ?n = "writable_len D (rh_decoder r)"
  from again.prems refl refl show ?case
  proof (cases rule: read_round [where n = ?n and bytes = ?bytes])
    case (full r' s')
    then obtain d k where nf:
      "next_frame D (fill_writable D (rh_decoder r) (take ?n ?bytes)) (rh_state r) = (Missing_Bytes, d, k)"
      and step: "r2 = r'\<lparr>rh_bytes_read := 0, rh_decoder := d, rh_state := k\<rparr>" "s2 = s'"
      using again.hyps by (auto simp: read_round_of_def Let_def split: prod.splits decoded.splits)
    with full step again.IH show ?thesis
      by (subst decode_stream.simps) (simp add: Let_def not_less)
  next
    case (waits r')
    then show ?thesis using again.hyps by (simp add: read_round_of_def Let_def)
  qed
qed

lemma decode_stream_read:
  assumes "decode_stream D d k bs = Some y" and "reader_ok D r" and "open_socket s"
    and "rh_decoder r = d" and "rh_state r = k" and "buffered r @ socket_bytes s = bs"
  shows "\<exists>x. read_frame D r s = Some x"
  using assms
proof (induction d k bs y arbitrary: r s rule: decode_stream_induct)
  case (stops d k bs y)
  from stops.prems(1,2) refl stops.prems(5) [symmetric] show ?case
  proof (cases rule: read_round [where n = "writable_len D (rh_decoder r)" and bytes = bs])
    case (full r' s')
    with stops show ?thesis
      by (subst read_frame.simps)
        (auto simp: decode_round_of_def Let_def not_less split: prod.splits decoded.splits)
  next
    case (waits r')
    then show ?thesis by (simp add: read_frame.simps [of D r] Let_def)
  qed
next
  case (again d k bs d2 k2 bs2 y)
  from again.prems(1,2) refl again.prems(5) [symmetric] show ?case
  proof (cases rule: read_round [where n = "writable_len D (rh_decoder r)" and bytes = bs])
    case (full r' s')
    let ?r = "r'\<lparr>rh_bytes_read := 0, rh_decoder := d2, rh_state := k2\<rparr>"
    have "next_frame D (fill_writable D d (take (writable_len D d) bs)) k = (Missing_Bytes, d2, k2)"
      and "bs2 = drop (writable_len D d) bs"
      using again.hyps full(1) again.prems(3)
      by (auto simp: decode_round_of_def Let_def split: if_splits prod.splits decoded.splits)
    moreover from this full again.prems(3) have "\<exists>x. read_frame D ?r s' = Some x"
      by (intro again.IH) simp_all
    ultimately show ?thesis using full again.prems(3,4) by (subst read_frame.simps) (simp add: Let_def)
  next
    case (waits r')
    then show ?thesis by (simp add: read_frame.simps [of D r] Let_def)
  qed
qed

section \<open>Every call returns\<close>

lemma read_frame_returns_hungry:
  assumes "decoder_ok D"
  shows "reader_ok D r \<Longrightarrow> 0 < writable_len D (rh_decoder r) \<Longrightarrow> \<exists>x. read_frame D r s = Some x"
proof (induction "length (socket_bytes s)" arbitrary: r s rule: less_induct)
  case (less s r)
  let ?n = "writable_len D (rh_decoder r)"
  let ?r = "resize_buf ?n r"
  have lt: "rh_bytes_read ?r < ?n" using resize_buffered(2) [OF less.prems(1) refl] less.prems(2) by auto
  obtain p r' s' where fill: "fill_buf ?n ?r s = (p, r', s')" by (metis prod_cases3)
  obtain res d k where nf: "next_frame D (fill_writable D (rh_decoder r') (rh_buf r')) (rh_state r') = (res, d, k)"
    by (metis prod_cases3)
  show ?case
  proof (cases "p = Ready (Inr ()) \<and> res = Missing_Bytes")
    case True
    with fill lt have "length (socket_bytes s') < length (socket_bytes s)"
      using fill_buf_consumes by fastforce
    moreover have "0 < writable_len D d" using assms nf True unfolding decoder_ok_def by blast
    ultimately obtain x where "read_frame D (r'\<lparr>rh_bytes_read := 0, rh_decoder := d, rh_state := k\<rparr>) s' = Some x"
      using less.hyps [of s' "r'\<lparr>rh_bytes_read := 0, rh_decoder := d, rh_state := k\<rparr>"] by auto
    with fill nf True show ?thesis
      by (cases x rule: prod_cases3, subst read_frame.simps) (simp add: Let_def)
  next
    case False
    with fill nf show ?thesis
      by (subst read_frame.simps) (auto simp: Let_def split: poll.split sum.split decoded.split)
  qed
qed

lemma read_frame_total:
  assumes "decoder_ok D" and "reader_ok D r"
  shows "\<exists>x. read_frame D r s = Some x"
proof (cases "0 < writable_len D (rh_decoder r)")
  case True
  with assms show ?thesis by (intro read_frame_returns_hungry)
next
  case False
  let ?r = "resize_buf 0 r"
  have "fill_buf 0 ?r s = (Ready (Inr ()), ?r, s)"
    by (rule fill_buf_rounds) simp_all
  moreover obtain res d k where nf:
    "next_frame D (fill_writable D (rh_decoder r) (rh_buf ?r)) (rh_state r) = (res, d, k)"
    by (metis prod_cases3)
  moreover have "\<exists>x. read_frame D (?r\<lparr>rh_bytes_read := 0, rh_decoder := d, rh_state := k\<rparr>) s = Some x"
    if "res = Missing_Bytes"
  proof (rule read_frame_returns_hungry [OF assms(1)])
    show "0 < writable_len D (rh_decoder (?r\<lparr>rh_bytes_read := 0, rh_decoder := d, rh_state := k\<rparr>))"
      using assms(1) nf that unfolding decoder_ok_def by simp blast
  qed simp
  ultimately show ?thesis
    using False by (subst read_frame.simps) (auto simp: Let_def split: decoded.split)
qed


section \<open>Dropping a pending read\<close>

lemma read_frame_pending:
  assumes "read_frame D r s = Some x" and "x = (Pending, r', s')" and "reader_ok D r"
  shows "s' = [] \<and> (\<forall>more. read_frame D r' more = read_frame D r (s @ more))"
  using assms
proof (induction r s x rule: read_frame_induct)
  case (stops r s x)
  let ?n = "writable_len D (rh_decoder r)"
  have le: "rh_bytes_read (resize_buf ?n r) \<le> ?n" using resize_buffered(2) [OF stops.prems(2) refl] by auto
  have fill: "fill_buf ?n (resize_buf ?n r) s = (Pending, r', s')"
    using stops by (auto simp: read_round_of_def Let_def split: prod.splits poll.splits sum.splits decoded.splits)
  note keep = fill_buf_keeps [OF resize_buf_facts(1) le fill]
    and app = fill_buf_append [OF resize_buf_facts(1) le fill]
  then have "read_frame D r' more = read_frame D r (s @ more)" for more
    by (subst (1 2) read_frame.simps) (simp add: Let_def)
  with app show ?case by simp
next
  case (again r s r2 s2 x)
  let ?n = "writable_len D (rh_decoder r)"
  have le: "rh_bytes_read (resize_buf ?n r) \<le> ?n" using resize_buffered(2) [OF again.prems(2) refl] by auto
  obtain r1 d k where fill: "fill_buf ?n (resize_buf ?n r) s = (Ready (Inr ()), r1, s2)"
    and nf: "next_frame D (fill_writable D (rh_decoder r1) (rh_buf r1)) (rh_state r1) = (Missing_Bytes, d, k)"
    and r2: "r2 = r1\<lparr>rh_bytes_read := 0, rh_decoder := d, rh_state := k\<rparr>"
    using again.hyps
    by (auto simp: read_round_of_def Let_def split: prod.splits poll.splits sum.splits decoded.splits)
  then have "read_round_of D r (s @ more) = Inr (r2, s2 @ more)" for more
    using fill_buf_append [OF resize_buf_facts(1) le fill] by (simp add: read_round_of_def Let_def)
  then have "read_frame D r2 (s2 @ more) = read_frame D r (s @ more)" for more
    by (simp add: read_frame_rounds [of D r])
  with again.IH again.prems(1) r2 show ?case by simp
qed

section \<open>The handshakes\<close>

text \<open>
  The rest of the codec: key states of a role, the steps of the handshake (with the reply and the
  changed state), the encoder, which changes even when it fails, and the layout of a message.
\<close>

record ('d, 'e, 'k, 'role, 'm, 'f) noise_codec =
  nc_decoder :: "('d, 'k) noise_decoder"
  decoder_new :: 'd
  encoder_new :: 'e
  state_initialized :: "'role \<Rightarrow> 'k"
  state_not_initialized :: "'role \<Rightarrow> 'k"
  step_0 :: "'k \<Rightarrow> (bytes \<times> 'k) option"
  step_1 :: "'k \<Rightarrow> bytes \<Rightarrow> (bytes \<times> 'k \<times> 'k) option"
  step_2 :: "'k \<Rightarrow> bytes \<Rightarrow> 'k option"
  encode :: "'e \<Rightarrow> either_frame \<Rightarrow> 'k \<Rightarrow> bytes option \<times> 'e \<times> 'k"
  from_bytes_unchecked :: "bytes \<Rightarrow> either_frame"
  get_size :: "'m \<Rightarrow> nat"
  from_message :: "'m \<Rightarrow> u8 \<Rightarrow> u16 \<Rightarrow> bool \<Rightarrow> 'f option"
  serialize_frame :: "'f \<Rightarrow> bytes \<Rightarrow> bytes option"
  HEADER_SIZE :: nat
  ELLSWIFT_ENCODING_SIZE :: nat
  INITIATOR_EXPECTED_HANDSHAKE_MESSAGE_SIZE :: nat

record ('e, 'k) noise_write_half =
  wh_encoder :: 'e
  wh_state :: 'k
  wh_written :: bytes

text \<open>\<open>read_exact\<close>; \<open>ctxt\<close> is the context that the caller adds to an error.\<close>

fun read_exact :: "string \<Rightarrow> nat \<Rightarrow> arrival list \<Rightarrow> bytes poll \<times> arrival list" where
  "read_exact ctxt n [] = (Pending, [])"
| "read_exact ctxt n (Read_Error # s) = (Ready (Inl (Bail ctxt)), s)"
| "read_exact ctxt n (Data bs # s) =
     (if bs = [] then (Ready (Inl (Bail ctxt)), Data bs # s)
      else if length bs < n then
        (case read_exact ctxt (n - length bs) s of
           (Ready (Inr bs'), s) \<Rightarrow> (Ready (Inr (bs @ bs')), s)
         | x \<Rightarrow> x)
      else (Ready (Inr (take n bs)), push_back (drop n bs) s))"

lemma read_exact_cases:
  obtains (bytes) bs s where "x = (Ready (Inr bs), s)" | (failed) e s where "x = (Ready (Inl e), s)"
    | (waits) s where "x = (Pending, s)"
  by (metis poll.exhaust surj_pair sum.exhaust)

lemma read_exact_bytes:
  "read_exact ctxt n s = (Ready (Inr bs), s') \<Longrightarrow>
    length bs = n \<and> socket_bytes s = bs @ socket_bytes s'"
proof (induction s arbitrary: n bs s')
  case (Cons a s)
  obtain ds where a: "a = Data ds" "ds \<noteq> []"
    using Cons.prems by (cases a) (auto split: if_splits)
  show ?case
  proof (cases "length ds < n")
    case True
    then obtain bs' where "read_exact ctxt (n - length ds) s = (Ready (Inr bs'), s')" "bs = ds @ bs'"
      using Cons.prems a
      by (cases "read_exact ctxt (n - length ds) s" rule: read_exact_cases) simp_all
    with Cons.IH [OF this(1)] a True show ?thesis by simp
  next
    case False
    with Cons.prems a show ?thesis by auto
  qed
qed simp

text \<open>
  The loop that reads one handshake message. \<open>stall\<close> is the error when the missing bytes do not
  arrive: the timeout of the responder; the initiator has none and waits.
\<close>

partial_function (option) handshake_read ::
    "('d, 'k) noise_decoder \<Rightarrow> string \<Rightarrow> string \<Rightarrow> error option \<Rightarrow> 'd \<Rightarrow> 'k \<Rightarrow> arrival list \<Rightarrow>
     (bytes outcome \<times> arrival list) option" where
  "handshake_read D read_ctxt decode_ctxt stall d k socket =
     (let expected = writable_len D d in
      case (if expected > 0 then read_exact read_ctxt expected socket else (Ready (Inr []), socket)) of
        (Pending, socket) \<Rightarrow> (case stall of None \<Rightarrow> None | Some e \<Rightarrow> Some (Inl e, socket))
      | (Ready (Inl e), socket) \<Rightarrow> Some (Inl e, socket)
      | (Ready (Inr buf), socket) \<Rightarrow>
          (case next_frame D (if expected > 0 then fill_writable D d buf else d) k of
             (Frame_Ready (Hand_Shake f), d, k) \<Rightarrow> Some (Inr f, socket)
           | (Frame_Ready (Sv2 hdr pl), d, k) \<Rightarrow>
               Some (Inl (Bail ''expected HandShake frame, got Sv2 frame''), socket)
           | (Missing_Bytes, d, k) \<Rightarrow> handshake_read D read_ctxt decode_ctxt stall d k socket
           | (Decode_Failed, d, k) \<Rightarrow> Some (Inl (Bail decode_ctxt), socket)))"

text \<open>
  The responder. \<open>write_ok\<close> says whether the reply can be written; the written bytes are those of
  the write half.
\<close>

definition new_halves ::
    "('d, 'e, 'k, 'role, 'm, 'f) noise_codec \<Rightarrow> 'e \<Rightarrow> 'k \<Rightarrow> bytes \<Rightarrow>
     ('d, 'k) noise_read_half \<times> ('e, 'k) noise_write_half" where
  "new_halves K encoder k written =
     (\<lparr>rh_decoder = decoder_new K, rh_state = k, rh_buf = [], rh_bytes_read = 0\<rparr>,
      \<lparr>wh_encoder = encoder, wh_state = k, wh_written = written\<rparr>)"

definition accept_noise_with_timeout ::
    "('d, 'e, 'k, 'role, 'm, 'f) noise_codec \<Rightarrow> 'role \<Rightarrow> bool \<Rightarrow> arrival list \<Rightarrow>
     ((('d, 'k) noise_read_half \<times> ('e, 'k) noise_write_half) outcome \<times> arrival list) option" where
  "accept_noise_with_timeout K role write_ok socket =
     map_option (\<lambda>(frame, socket).
       (and_then frame (\<lambda>payload.
        if length payload \<noteq> ELLSWIFT_ENCODING_SIZE K then Inl (Bail ''wrong handshake payload size'')
        else
        and_then (ok_or (Bail ''Noise step_1 error'') (step_1 K (state_initialized K role) payload))
          (\<lambda>(reply_frame, transport_state, k).
        case encode K (encoder_new K) (Hand_Shake reply_frame) k of
          (None, _, _) \<Rightarrow> Inl (Bail ''Noise encode handshake reply'')
        | (Some encoded, encoder, _) \<Rightarrow>
            if write_ok then Inr (new_halves K encoder transport_state encoded)
            else Inl (Bail ''write handshake reply''))), socket))
     (handshake_read (nc_decoder K) ''handshake read'' ''handshake frame decode''
       (Some (Bail ''handshake timeout'')) (decoder_new K) (state_not_initialized K role) socket)"

definition accept_noise ::
    "('d, 'e, 'k, 'role, 'm, 'f) noise_codec \<Rightarrow> 'role \<Rightarrow> bool \<Rightarrow> arrival list \<Rightarrow>
     ((('d, 'k) noise_read_half \<times> ('e, 'k) noise_write_half) outcome \<times> arrival list) option" where
  "accept_noise K role write_ok socket = accept_noise_with_timeout K role write_ok socket"

text \<open>The initiator, which speaks first.\<close>

definition connect_noise ::
    "('d, 'e, 'k, 'role, 'm, 'f) noise_codec \<Rightarrow> 'role \<Rightarrow> bool \<Rightarrow> arrival list \<Rightarrow>
     ((('d, 'k) noise_read_half \<times> ('e, 'k) noise_write_half) outcome \<times> arrival list) option" where
  "connect_noise K role write_ok socket =
     (case step_0 K (state_initialized K role) of
        None \<Rightarrow> Some (Inl (Bail ''Noise step_0 error''), socket)
      | Some (step0_frame, k) \<Rightarrow>
     (case encode K (encoder_new K) (Hand_Shake step0_frame) k of
        (None, _, _) \<Rightarrow> Some (Inl (Bail ''Noise encode step0''), socket)
      | (Some encoded, encoder, k) \<Rightarrow>
     if \<not> write_ok then Some (Inl (Bail ''write Noise step0''), socket)
     else
       map_option (\<lambda>(frame, socket).
         (and_then frame (\<lambda>payload.
          if length payload \<noteq> INITIATOR_EXPECTED_HANDSHAKE_MESSAGE_SIZE K then
            Inl (Bail ''wrong handshake reply size'')
          else
          and_then (ok_or (Bail ''Noise step_2 error'') (step_2 K k payload)) (\<lambda>transport_state.
          Inr (new_halves K encoder transport_state encoded))), socket))
       (handshake_read (nc_decoder K) ''read Noise handshake reply'' ''handshake reply decode''
         None (decoder_new K) (state_not_initialized K role) socket)))"

text \<open>The reader of either handshake starts in its invariant, with nothing buffered.\<close>

lemma new_halves_ok [simp]:
  "reader_ok D (fst (new_halves K e k w))" "buffered (fst (new_halves K e k w)) = []"
  by (simp_all add: new_halves_def reader_ok_def buffered_def)

text \<open>The responder's loop returns: each round but the first consumes bytes.\<close>

lemma handshake_read_hungry:
  assumes "decoder_ok D"
  shows "0 < writable_len D d \<Longrightarrow> \<exists>x. handshake_read D rc dc (Some e) d k s = Some x"
proof (induction "length (socket_bytes s)" arbitrary: s d k rule: less_induct)
  case (less s d k)
  obtain p s' where rd: "read_exact rc (writable_len D d) s = (p, s')" by fastforce
  show ?case
  proof (cases "\<exists>buf. p = Ready (Inr buf)")
    case True
    then obtain buf where buf: "p = Ready (Inr buf)" by blast
    obtain res d' k' where nf: "next_frame D (fill_writable D d buf) k = (res, d', k')" by (metis prod_cases3)
    have "length (socket_bytes s') < length (socket_bytes s)"
      using read_exact_bytes [OF rd [unfolded buf]] less.prems by simp
    moreover have "0 < writable_len D d'" if "res = Missing_Bytes"
      using assms nf that unfolding decoder_ok_def by blast
    ultimately have "res = Missing_Bytes \<Longrightarrow> \<exists>x. handshake_read D rc dc (Some e) d' k' s' = Some x"
      using less.hyps by blast
    with buf rd nf less.prems show ?thesis
      by (subst handshake_read.simps) (auto simp: Let_def split: decoded.split either_frame.split)
  next
    case False
    with rd less.prems show ?thesis
      by (subst handshake_read.simps) (auto simp: Let_def split: poll.split sum.split)
  qed
qed

lemma handshake_read_total:
  assumes "decoder_ok D"
  shows "\<exists>x. handshake_read D rc dc (Some e) d k s = Some x"
proof (cases "0 < writable_len D d")
  case False
  obtain res d' k' where nf: "next_frame D d k = (res, d', k')" by (metis prod_cases3)
  have "0 < writable_len D d'" if "res = Missing_Bytes"
    using assms nf that unfolding decoder_ok_def by blast
  then have "res = Missing_Bytes \<Longrightarrow> \<exists>x. handshake_read D rc dc (Some e) d' k' s = Some x"
    using handshake_read_hungry [OF assms] by blast
  with nf False show ?thesis
    by (subst handshake_read.simps) (auto simp: Let_def split: decoded.split either_frame.split)
qed (rule handshake_read_hungry [OF assms])

text \<open>What a handshake leaves on the socket is a part of what arrived, and the new reader is fresh.\<close>

lemma read_exact_open:
  "open_socket s \<Longrightarrow> read_exact ctxt n s = (p, s') \<Longrightarrow> open_socket s'"
proof (induction s arbitrary: n p s')
  case (Cons a s)
  then obtain bs where a: "a = Data bs" "bs \<noteq> []" "open_socket s" by (cases a) auto
  show ?case
  proof (cases "length bs < n")
    case True
    with Cons a show ?thesis by (cases "read_exact ctxt (n - length bs) s" rule: read_exact_cases) auto
  next
    case False
    with Cons.prems a show ?thesis by (auto simp: push_back_def)
  qed
qed simp

lemma handshake_read_open:
  "handshake_read D rc dc stall d k s = Some x \<Longrightarrow> open_socket s \<longrightarrow> open_socket (snd x)"
proof (rule handshake_read.raw_induct
    [where P = "\<lambda>D rc dc stall d k s x. open_socket s \<longrightarrow> open_socket (snd x)"])
  fix f D rc dc stall d k s x
  assume IH: "\<And>D rc dc stall d k s x. f D rc dc stall d k s = Some x \<Longrightarrow> open_socket s \<longrightarrow> open_socket (snd x)"
    and run: "(let expected = writable_len D d in
      case (if expected > 0 then read_exact rc expected s else (Ready (Inr []), s)) of
        (Pending, socket) \<Rightarrow> (case stall of None \<Rightarrow> None | Some e \<Rightarrow> Some (Inl e, socket))
      | (Ready (Inl e), socket) \<Rightarrow> Some (Inl e, socket)
      | (Ready (Inr buf), socket) \<Rightarrow>
          (case next_frame D (if expected > 0 then fill_writable D d buf else d) k of
             (Frame_Ready (Hand_Shake f), d, k) \<Rightarrow> Some (Inr f, socket)
           | (Frame_Ready (Sv2 hdr pl), d, k) \<Rightarrow>
               Some (Inl (Bail ''expected HandShake frame, got Sv2 frame''), socket)
           | (Missing_Bytes, d, k) \<Rightarrow> f D rc dc stall d k socket
           | (Decode_Failed, d, k) \<Rightarrow> Some (Inl (Bail dc), socket))) = Some x"
  obtain p s' where rd: "(if writable_len D d > 0 then read_exact rc (writable_len D d) s else (Ready (Inr []), s)) = (p, s')"
    by fastforce
  then have keeps: "open_socket s \<longrightarrow> open_socket s'" by (auto split: if_splits dest: read_exact_open)
  show "open_socket s \<longrightarrow> open_socket (snd x)"
  proof (cases "(p, s')" rule: read_exact_cases)
    case (bytes buf s1)
    obtain res d1 k1 where nf: "next_frame D (if writable_len D d > 0 then fill_writable D d buf else d) k = (res, d1, k1)"
      by (metis prod_cases3)
    show ?thesis
    proof (cases "res = Missing_Bytes")
      case True
      with run rd nf bytes have "f D rc dc stall d1 k1 s' = Some x" by (simp add: Let_def)
      with IH keeps show ?thesis by blast
    next
      case False
      with run rd nf bytes have "snd x = s'"
        by (auto simp: Let_def split: decoded.splits either_frame.splits)
      with keeps show ?thesis by simp
    qed
  qed (use run rd keeps in \<open>auto simp: Let_def split: option.splits\<close>)
qed

lemma accept_noise_halves:
  assumes "accept_noise K role ok socket = Some (Inr (r, w), rest)"
  shows "rh_decoder r = decoder_new K \<and> reader_ok D r \<and> buffered r = [] \<and> (open_socket socket \<longrightarrow> open_socket rest)"
proof -
  obtain frame where hs: "handshake_read (nc_decoder K) ''handshake read'' ''handshake frame decode''
      (Some (Bail ''handshake timeout'')) (decoder_new K) (state_not_initialized K role) socket = Some (frame, rest)"
    and "and_then frame (\<lambda>payload.
        if length payload \<noteq> ELLSWIFT_ENCODING_SIZE K then Inl (Bail ''wrong handshake payload size'')
        else and_then (ok_or (Bail ''Noise step_1 error'') (step_1 K (state_initialized K role) payload))
          (\<lambda>(reply_frame, transport_state, k).
        case encode K (encoder_new K) (Hand_Shake reply_frame) k of
          (None, _, _) \<Rightarrow> Inl (Bail ''Noise encode handshake reply'')
        | (Some encoded, encoder, _) \<Rightarrow>
            if ok then Inr (new_halves K encoder transport_state encoded)
            else Inl (Bail ''write handshake reply''))) = Inr (r, w)"
    using assms by (auto simp: accept_noise_def accept_noise_with_timeout_def)
  then have "\<exists>e k bs. (r, w) = new_halves K e k bs"
    by (auto split: if_splits option.splits prod.splits) (metis option.exhaust prod_cases3)
  moreover have "open_socket socket \<longrightarrow> open_socket rest"
    using handshake_read_open [OF hs] by simp
  ultimately show ?thesis by (auto simp: new_halves_def reader_ok_def buffered_def)
qed

section \<open>Writing\<close>

definition write_raw_frame ::
    "('d, 'e, 'k, 'role, 'm, 'f) noise_codec \<Rightarrow> bool \<Rightarrow> bytes \<Rightarrow> ('e, 'k) noise_write_half \<Rightarrow>
     unit outcome \<times> ('e, 'k) noise_write_half" where
  "write_raw_frame K write_ok bs w =
     (case encode K (wh_encoder w) (from_bytes_unchecked K bs) (wh_state w) of
        (None, e, k) \<Rightarrow> (Inl (Bail ''Noise encode error''), w\<lparr>wh_encoder := e, wh_state := k\<rparr>)
      | (Some encoded, e, k) \<Rightarrow>
          if write_ok then
            (Inr (), w\<lparr>wh_encoder := e, wh_state := k, wh_written := wh_written w @ encoded\<rparr>)
          else (Inl (Bail ''write error''), w\<lparr>wh_encoder := e, wh_state := k\<rparr>))"

definition write_message ::
    "('d, 'e, 'k, 'role, 'm, 'f) noise_codec \<Rightarrow> bool \<Rightarrow> 'm \<Rightarrow> u8 \<Rightarrow> bool \<Rightarrow> ('e, 'k) noise_write_half \<Rightarrow>
     unit outcome \<times> ('e, 'k) noise_write_half" where
  "write_message K write_ok msg mt is_channel_msg w =
     (let payload_len = get_size K msg;
          total_len = HEADER_SIZE K + payload_len;
          dst = replicate total_len 0
      in case from_message K msg mt 0 is_channel_msg of
           None \<Rightarrow> (Inl (Bail ''payload too large for SV2 frame''), w)
         | Some frame \<Rightarrow>
      (case serialize_frame K frame dst of
           None \<Rightarrow> (Inl (Bail ''SV2 frame serialize error''), w)
         | Some dst \<Rightarrow>
      (case encode K (wh_encoder w) (from_bytes_unchecked K dst) (wh_state w) of
           (None, e, k) \<Rightarrow> (Inl (Bail ''Noise encode error''), w\<lparr>wh_encoder := e, wh_state := k\<rparr>)
         | (Some encoded, e, k) \<Rightarrow>
             if write_ok then
               (Inr (), w\<lparr>wh_encoder := e, wh_state := k, wh_written := wh_written w @ encoded\<rparr>)
             else (Inl (Bail ''write error''), w\<lparr>wh_encoder := e, wh_state := k\<rparr>))))"

text \<open>A message is serialized and then written as a raw frame.\<close>

lemma write_message_raw:
  assumes "from_message K msg ty 0 chan = Some frame"
    and "serialize_frame K frame (replicate (HEADER_SIZE K + get_size K msg) 0) = Some bs"
  shows "write_message K ok msg ty chan w = write_raw_frame K ok bs w"
  using assms by (simp add: write_message_def write_raw_frame_def Let_def)


text \<open>The initiator has no timeout: while the reply does not come, it does not return.\<close>

lemma connect_noise_waits:
  assumes "step_0 K (state_initialized K role) = Some (f, k)"
    and "encode K (encoder_new K) (Hand_Shake f) k = (Some bs, e, k')"
    and "0 < writable_len (nc_decoder K) (decoder_new K)"
  shows "connect_noise K role True [] = None"
  using assms by (simp add: connect_noise_def handshake_read.simps [where socket = "[]"])

section \<open>A sample codec\<close>

text \<open>
  Frames of a length byte and a payload of at most 255 bytes, without encryption. The decoder is the
  number of bytes it wants, whether they are a payload, and the bytes it was given; the key state says
  whether the handshake is still going on.
\<close>

fun sample_next :: "nat \<times> bool \<times> bytes \<Rightarrow> bool \<Rightarrow> decoded \<times> (nat \<times> bool \<times> bytes) \<times> bool" where
  "sample_next (n, body, bs) k =
     (if body \<or> 0 < n \<and> hd bs = 0 then
        let payload = (if body then bs else []) in
        (Frame_Ready (if k then Hand_Shake payload else Sv2 (Some 0) payload), (1, False, []), k)
      else if n = 0 then (Missing_Bytes, (1, False, []), k)
      else (Missing_Bytes, (unat (hd bs), True, []), k))"

fun sample_fill :: "nat \<times> bool \<times> bytes \<Rightarrow> bytes \<Rightarrow> nat \<times> bool \<times> bytes" where
  "sample_fill (n, body, old) bs = (n, body, if bs = [] then old else bs)"

definition sample_decoder :: "(nat \<times> bool \<times> bytes, bool) noise_decoder" where
  "sample_decoder = \<lparr>writable_len = fst, fill_writable = sample_fill, next_frame = sample_next\<rparr>"

definition sample_frame :: "bytes \<Rightarrow> bytes option" where
  "sample_frame bs = (if length bs < 256 then Some (of_nat (length bs) # bs) else None)"

fun sample_encode :: "unit \<Rightarrow> either_frame \<Rightarrow> bool \<Rightarrow> bytes option \<times> unit \<times> bool" where
  "sample_encode e (Hand_Shake bs) k = (sample_frame bs, e, k)"
| "sample_encode e (Sv2 hdr bs) k = (sample_frame bs, e, k)"

definition sample_noise :: "(nat \<times> bool \<times> bytes, unit, bool, unit, bytes, bytes) noise_codec" where
  "sample_noise =
     \<lparr>nc_decoder = sample_decoder, decoder_new = (0, False, []), encoder_new = (),
      state_initialized = (\<lambda>_. True), state_not_initialized = (\<lambda>_. True),
      step_0 = (\<lambda>k. Some ([1, 2], k)), step_1 = (\<lambda>k bs. Some (rev bs, False, k)),
      step_2 = (\<lambda>k bs. Some False), encode = sample_encode,
      from_bytes_unchecked = (\<lambda>bs. Sv2 (Some 0) (tl bs)), get_size = length,
      from_message = (\<lambda>m _ _ _. Some m), serialize_frame = (\<lambda>f _. sample_frame f), HEADER_SIZE = 1,
      ELLSWIFT_ENCODING_SIZE = 2, INITIATOR_EXPECTED_HANDSHAKE_MESSAGE_SIZE = 2\<rparr>"

lemma sample_decoder_ok: "decoder_ok sample_decoder"
proof -
  have "0 < fst d'" if "sample_next d k = (Missing_Bytes, d', k')" for d d' k k'
    using that by (cases d rule: prod_cases3) (auto simp: word_neq_0_conv unat_gt_0 split: if_splits)
  then show ?thesis by (simp add: decoder_ok_def sample_decoder_def)
qed

definition sample_reader :: "(nat \<times> bool \<times> bytes, bool) noise_read_half" where
  "sample_reader = \<lparr>rh_decoder = (0, False, []), rh_state = False, rh_buf = [], rh_bytes_read = 0\<rparr>"

lemma sample_reader_ok: "reader_ok sample_decoder sample_reader"
  by (simp add: reader_ok_def sample_reader_def)

section \<open>Properties\<close>

text \<open>
  C13: A read of a frame may be dropped while it waits, as the connection's \<open>select!\<close> does whenever a
  new template arrives first: nothing that was read is lost. The next call, on whatever bytes then
  come, gives exactly what one undisturbed call would have given.
\<close>

theorem dropped_read_resumes:
  assumes "reader_ok D r" and "read_frame D r s = Some (Pending, r', s')"
  shows "s' = [] \<and> (\<forall>rest. read_frame D r' rest = read_frame D r (s @ rest))"
  using read_frame_pending [OF assms(2) refl assms(1)] .

theorem dropped_read_resumes_witness:
  "\<exists>r'. read_frame sample_decoder sample_reader [Data [2, 7]] = Some (Pending, r', []) \<and>
    read_frame sample_decoder r' [Data [8]] = read_frame sample_decoder sample_reader [Data [2, 7], Data [8]]"
proof -
  obtain p r' s' where run: "read_frame sample_decoder sample_reader [Data [2, 7]] = Some (p, r', s')"
    using read_frame_total [OF sample_decoder_ok sample_reader_ok, of "[Data [2, 7]]"] by auto
  have "decode_stream sample_decoder (0, False, []) False [2, 7] = Some (reader_view (p, r', s'))"
    using read_frame_streams [OF run sample_reader_ok] by (simp add: sample_reader_def buffered_def)
  then have "p = Pending"
    by (simp add: decode_stream.simps sample_decoder_def reader_view_def)
  with dropped_read_resumes [OF sample_reader_ok] run show ?thesis by fastforce
qed

text \<open>
  C14: The frames do not depend on how the bytes arrive: on a socket that delivers non-empty pieces a
  call of \<open>read_frame\<close> does what the decoder does on the concatenation of the buffered and the
  arriving bytes, with the same result, the same decoder and key state, and the same bytes left.
\<close>

theorem read_frame_refines_stream:
  assumes "reader_ok D r" and "open_socket s"
  shows "map_option reader_view (read_frame D r s) =
    decode_stream D (rh_decoder r) (rh_state r) (buffered r @ socket_bytes s)"
proof (cases "read_frame D r s")
  case None
  then have "decode_stream D (rh_decoder r) (rh_state r) (buffered r @ socket_bytes s) \<noteq> Some y" for y
    using decode_stream_read [OF _ assms refl refl refl] by (metis option.distinct(1))
  with None show ?thesis by (cases "decode_stream D (rh_decoder r) (rh_state r) (buffered r @ socket_bytes s)") auto
next
  case (Some x)
  with read_frame_streams [OF Some assms] show ?thesis by simp
qed

theorem read_frame_refines_stream_witness:
  "map_option reader_view (read_frame sample_decoder sample_reader [Data [2], Data [7, 8, 1]]) =
    Some (Ready (Inr (Sv2 (Some 0) [7, 8])), (1, False, []), False, [1])"
  by (subst read_frame_refines_stream [OF sample_reader_ok])
    (simp_all add: sample_reader_def sample_decoder_def buffered_def decode_stream.simps)

text \<open>
  C27: The transport never hangs on its own: whatever the peer sends, and when it falls silent, closes
  or breaks the connection, every call of \<open>read_frame\<close> returns or waits for bytes, and the handshake
  of the pool returns, because it gives up on a silent peer.
\<close>

theorem transport_returns:
  assumes "decoder_ok (nc_decoder K)" and "reader_ok (nc_decoder K) r"
  shows "(\<exists>x. read_frame (nc_decoder K) r s = Some x) \<and> (\<exists>y. accept_noise K role write_ok s = Some y)"
  using read_frame_total [OF assms, of s]
    handshake_read_total [OF assms(1), of "''handshake read''" "''handshake frame decode''"
      "Bail ''handshake timeout''" "decoder_new K" "state_not_initialized K role" s]
  by (auto simp: accept_noise_def accept_noise_with_timeout_def)

theorem transport_returns_witness:
  "\<exists>y. accept_noise sample_noise () True [Data [2], Data [7]] = Some y"
  using transport_returns [of sample_noise sample_reader "[Data [2], Data [7]]" "()" True]
    sample_decoder_ok sample_reader_ok
  by (simp add: sample_noise_def)

end
