(* ===== verification/Session.thy ===== *)
theory Session
  imports Noise_Transport Sample_Run
begin

text \<open>
  A connection on top of its transport (\<open>handle_connection\<close> in \<open>pool/src/stratum_sv2.rs\<close> with
  \<open>pool/src/noise_connection.rs\<close>): the frames that the state machine of \<open>Connection\<close> handles are read
  from the socket by \<open>read_frame\<close>, whose future \<open>select!\<close> drops whenever the branch of the templates
  is taken. The theorem says that the schedule does not matter for what is read.
\<close>

section \<open>The composition\<close>

text \<open>\<open>sn_socket\<close> holds what has arrived and was not read yet.\<close>

record ('d, 'k) session =
  sn_reader :: "('d, 'k) noise_read_half"
  sn_socket :: "arrival list"
  sn_conn :: connection

datatype session_event =
    Arrived arrival
  | Polled int
  | Template_Ready "u32 list"
  | Template_Published raw_template

text \<open>
  The read branch, at the time \<open>now\<close>. A pending read leaves the reader with what it has read so far,
  whether its future is polled again or dropped for the other branch. The task of an ended
  connection polls nothing.
\<close>

definition session_read ::
    "('d, 'k) noise_decoder \<Rightarrow> int \<Rightarrow> ('d, 'k) session \<Rightarrow>
     conn_event list \<times> ('d, 'k) noise_read_half \<times> arrival list" where
  "session_read D now s =
     (case cn_phase (sn_conn s) of
        Ended _ \<Rightarrow> ([], sn_reader s, sn_socket s)
      | _ \<Rightarrow>
        (case read_frame D (sn_reader s) (sn_socket s) of
           None \<Rightarrow> ([], sn_reader s, sn_socket s)
         | Some (Pending, r, socket) \<Rightarrow> ([], r, socket)
         | Some (Ready (Inl e), r, socket) \<Rightarrow> ([Read_Failed], r, socket)
         | Some (Ready (Inr frame), r, socket) \<Rightarrow> ([Read_Frame frame now], r, socket)))"

text \<open>What an event is to the connection, and to the reader and the socket.\<close>

definition session_turn ::
    "('d, 'k) noise_decoder \<Rightarrow> session_event \<Rightarrow> ('d, 'k) session \<Rightarrow>
     conn_event list \<times> ('d, 'k) noise_read_half \<times> arrival list" where
  "session_turn D ev s =
     (case ev of
        Arrived a \<Rightarrow> ([], sn_reader s, sn_socket s @ [a])
      | Polled now \<Rightarrow> session_read D now s
      | Template_Ready ids \<Rightarrow> ([Template_Changed ids], sn_reader s, sn_socket s)
      | Template_Published t \<Rightarrow> ([Publish t], sn_reader s, sn_socket s))"

definition session_step ::
    "crates \<Rightarrow> codec \<Rightarrow> bool \<Rightarrow> ('d, 'k) noise_decoder \<Rightarrow> session_event \<Rightarrow> ('d, 'k) session \<Rightarrow> ('d, 'k) session" where
  "session_step L C db D ev s =
     (case session_turn D ev s of (evs, r, socket) \<Rightarrow>
        \<lparr>sn_reader = r, sn_socket = socket, sn_conn = fold (connection_step L C db) evs (sn_conn s)\<rparr>)"

definition session_start ::
    "('d, 'k) noise_read_half \<Rightarrow> arrival list \<Rightarrow> connection \<Rightarrow> ('d, 'k) session" where
  "session_start r socket c = \<lparr>sn_reader = r, sn_socket = socket, sn_conn = c\<rparr>"

definition session_run ::
    "crates \<Rightarrow> codec \<Rightarrow> bool \<Rightarrow> ('d, 'k) noise_decoder \<Rightarrow> session_event list \<Rightarrow> ('d, 'k) session \<Rightarrow> ('d, 'k) session" where
  "session_run L C db D es s = fold (session_step L C db D) es s"

section \<open>The specification\<close>

text \<open>
  \<open>stream_reads D d k bs fs d' k' rest\<close>: the complete frames at the front of the byte stream \<open>bs\<close> are
  \<open>fs\<close>, and \<open>rest\<close> comes after them.
\<close>

inductive stream_reads ::
    "('d, 'k) noise_decoder \<Rightarrow> 'd \<Rightarrow> 'k \<Rightarrow> bytes \<Rightarrow> either_frame list \<Rightarrow> 'd \<Rightarrow> 'k \<Rightarrow> bytes \<Rightarrow> bool"
  for D :: "('d, 'k) noise_decoder" where
  none: "stream_reads D d k bs [] d k bs"
| one_more: "stream_reads D d k bs fs d1 k1 bs1 \<Longrightarrow>
    decode_stream D d1 k1 bs1 = Some (Ready (Inr f), d2, k2, bs2) \<Longrightarrow>
    stream_reads D d k bs (fs @ [f]) d2 k2 bs2"

lemma stream_reads_append:
  "stream_reads D d k bs fs d' k' rest \<Longrightarrow> stream_reads D d k (bs @ tail) fs d' k' (rest @ tail)"
proof (induction rule: stream_reads.induct)
  case (one_more d k bs fs d1 k1 bs1 f d2 k2 bs2)
  with decode_stream_append [OF one_more.hyps(2) refl, of tail] show ?case
    by (auto intro: stream_reads.one_more)
qed (rule stream_reads.none)

text \<open>The frames among the events of a connection, and the events that do not come from the reader.\<close>

fun frame_of :: "conn_event \<Rightarrow> either_frame option" where
  "frame_of (Read_Frame f now) = Some f"
| "frame_of _ = None"

definition handled_frames :: "conn_event list \<Rightarrow> either_frame list" where
  "handled_frames evs = List.map_filter frame_of evs"

fun arrived :: "session_event \<Rightarrow> bytes" where
  "arrived (Arrived a) = arrival_bytes a"
| "arrived _ = []"

fun template_event :: "session_event \<Rightarrow> conn_event option" where
  "template_event (Template_Ready ids) = Some (Template_Changed ids)"
| "template_event (Template_Published t) = Some (Publish t)"
| "template_event _ = None"

fun from_templates :: "conn_event \<Rightarrow> bool" where
  "from_templates (Template_Changed ids) = True"
| "from_templates (Publish t) = True"
| "from_templates _ = False"

definition ended :: "connection \<Rightarrow> bool" where
  "ended c \<longleftrightarrow> (case cn_phase c of Ended _ \<Rightarrow> True | _ \<Rightarrow> False)"

text \<open>An ended connection stays ended, and a failed read ends it.\<close>

lemma connection_step_ended: "ended c \<Longrightarrow> ended (connection_step L C db ev c)"
  by (auto simp: ended_def connection_step_def split: conn_event.split phase.splits)

lemma read_failed_ends: "ended (connection_step L C db Read_Failed c)"
  by (simp add: ended_def connection_step_def split: phase.split)

section \<open>The invariant\<close>

text \<open>
  \<open>evs\<close> are the events of the connection so far, \<open>bytes\<close> what has arrived. After the frames that were
  handled the stream goes on as the reader does: any further bytes mean the same to both.
\<close>

definition session_inv ::
    "crates \<Rightarrow> codec \<Rightarrow> bool \<Rightarrow> ('d, 'k) noise_decoder \<Rightarrow> 'd \<Rightarrow> 'k \<Rightarrow> connection \<Rightarrow>
     conn_event list \<Rightarrow> bytes \<Rightarrow> ('d, 'k) session \<Rightarrow> bool" where
  "session_inv L C db D d0 k0 c0 evs bytes s \<longleftrightarrow>
     sn_conn s = fold (connection_step L C db) evs c0 \<and>
     reader_ok D (sn_reader s) \<and> open_socket (sn_socket s) \<and>
     (\<exists>d k rest. stream_reads D d0 k0 bytes (handled_frames evs) d k rest \<and>
       (ended (sn_conn s) \<or>
        (\<forall>tail. decode_stream D d k (rest @ tail) =
          decode_stream D (rh_decoder (sn_reader s)) (rh_state (sn_reader s))
            (buffered (sn_reader s) @ socket_bytes (sn_socket s) @ tail))))"

lemma session_invI:
  assumes "sn_conn s = fold (connection_step L C db) evs c0" and "reader_ok D (sn_reader s)"
    and "open_socket (sn_socket s)" and "stream_reads D d0 k0 bytes (handled_frames evs) d k rest"
    and "\<And>tail. \<not> ended (sn_conn s) \<Longrightarrow> decode_stream D d k (rest @ tail) =
      decode_stream D (rh_decoder (sn_reader s)) (rh_state (sn_reader s))
        (buffered (sn_reader s) @ socket_bytes (sn_socket s) @ tail)"
  shows "session_inv L C db D d0 k0 c0 evs bytes s"
  using assms unfolding session_inv_def by blast

lemma session_invE:
  assumes "session_inv L C db D d0 k0 c0 evs bytes s"
  obtains d k rest where "sn_conn s = fold (connection_step L C db) evs c0" and "reader_ok D (sn_reader s)"
    and "open_socket (sn_socket s)" and "stream_reads D d0 k0 bytes (handled_frames evs) d k rest"
    and "\<And>tail. \<not> ended (sn_conn s) \<Longrightarrow> decode_stream D d k (rest @ tail) =
      decode_stream D (rh_decoder (sn_reader s)) (rh_state (sn_reader s))
        (buffered (sn_reader s) @ socket_bytes (sn_socket s) @ tail)"
  using assms unfolding session_inv_def by blast

lemma handled_frames_simps [simp]:
  "handled_frames [] = []" "handled_frames (xs @ ys) = handled_frames xs @ handled_frames ys"
  "handled_frames (ev # evs) = (case frame_of ev of None \<Rightarrow> handled_frames evs | Some f \<Rightarrow> f # handled_frames evs)"
  by (auto simp: handled_frames_def List.map_filter_def split: option.split)

lemma open_socket_snoc: "open_socket s \<Longrightarrow> open_socket [a] \<Longrightarrow> open_socket (s @ [a])"
  by (induction s rule: open_socket.induct) auto

lemma session_arrival:
  assumes "session_inv L C db D d0 k0 c0 evs bytes s" and "open_socket [a]"
  shows "session_inv L C db D d0 k0 c0 evs (bytes @ arrival_bytes a) (session_step L C db D (Arrived a) s)"
  using assms(1)
proof (rule session_invE)
  fix d k rest
  assume reads: "stream_reads D d0 k0 bytes (handled_frames evs) d k rest"
    and keep: "sn_conn s = fold (connection_step L C db) evs c0" "reader_ok D (sn_reader s)" "open_socket (sn_socket s)"
    and link: "\<And>tail. \<not> ended (sn_conn s) \<Longrightarrow> decode_stream D d k (rest @ tail) =
      decode_stream D (rh_decoder (sn_reader s)) (rh_state (sn_reader s))
        (buffered (sn_reader s) @ socket_bytes (sn_socket s) @ tail)"
  show ?thesis
    by (rule session_invI [OF _ _ _ stream_reads_append [OF reads]])
      (use keep link assms(2) in \<open>simp_all add: session_step_def session_turn_def open_socket_snoc\<close>)
qed

lemma session_template:
  assumes "session_inv L C db D d0 k0 c0 evs bytes s" and "template_event ev = Some tev"
  shows "session_inv L C db D d0 k0 c0 (evs @ [tev]) bytes (session_step L C db D ev s)"
  using assms(1)
proof (rule session_invE)
  fix d k rest
  assume reads: "stream_reads D d0 k0 bytes (handled_frames evs) d k rest"
    and keep: "sn_conn s = fold (connection_step L C db) evs c0" "reader_ok D (sn_reader s)" "open_socket (sn_socket s)"
    and link: "\<And>tail. \<not> ended (sn_conn s) \<Longrightarrow> decode_stream D d k (rest @ tail) =
      decode_stream D (rh_decoder (sn_reader s)) (rh_state (sn_reader s))
        (buffered (sn_reader s) @ socket_bytes (sn_socket s) @ tail)"
  have step: "session_step L C db D ev s = s\<lparr>sn_conn := connection_step L C db tev (sn_conn s)\<rparr>"
    using assms(2) by (cases ev) (auto simp: session_step_def session_turn_def)
  have "frame_of tev = None" using assms(2) by (cases ev) auto
  with reads have reads': "stream_reads D d0 k0 bytes (handled_frames (evs @ [tev])) d k rest" by simp
  show ?thesis
    by (rule session_invI [OF _ _ _ reads'])
      (use keep link connection_step_ended [of "sn_conn s" L C db tev] in \<open>auto simp: step\<close>)
qed

lemma session_poll:
  assumes "session_inv L C db D d0 k0 c0 evs bytes s" and "decoder_ok D"
  shows "\<exists>new. session_inv L C db D d0 k0 c0 (evs @ new) bytes (session_step L C db D (Polled now) s) \<and>
    filter from_templates new = []"
proof (cases "ended (sn_conn s)")
  case True
  then have "session_step L C db D (Polled now) s = s"
    by (auto simp: session_step_def session_turn_def session_read_def ended_def split: phase.splits)
  with assms(1) show ?thesis by (intro exI [of _ "[]"]) simp
next
  case False
  let ?r = "sn_reader s" and ?sock = "sn_socket s"
  have ok: "reader_ok D ?r" "open_socket ?sock" and conn: "sn_conn s = fold (connection_step L C db) evs c0"
    using assms(1) by (simp_all add: session_inv_def)
  obtain d k rest where reads: "stream_reads D d0 k0 bytes (handled_frames evs) d k rest"
    and link: "\<And>tail. decode_stream D d k (rest @ tail) =
      decode_stream D (rh_decoder ?r) (rh_state ?r) (buffered ?r @ socket_bytes ?sock @ tail)"
    by (rule session_invE [OF assms(1)]) (use False in blast)
  obtain p r' sock' where read: "read_frame D ?r ?sock = Some (p, r', sock')"
    using read_frame_total [OF assms(2) ok(1), of ?sock] by auto
  note stream = read_frame_streams [OF read ok]
  then have at: "decode_stream D d k rest = Some (p, rh_decoder r', rh_state r', buffered r' @ socket_bytes sock')"
    using link [of "[]"] by (simp add: reader_view_def)
  have step: "session_step L C db D (Polled now) s = \<lparr>sn_reader = r', sn_socket = sock',
      sn_conn = fold (connection_step L C db) new (sn_conn s)\<rparr>"
    if "new = (case p of Pending \<Rightarrow> [] | Ready (Inl e) \<Rightarrow> [Read_Failed] | Ready (Inr f) \<Rightarrow> [Read_Frame f now])" for new
    using False read that
    by (auto simp: session_step_def session_turn_def session_read_def ended_def
        split: phase.splits poll.splits sum.splits)
  show ?thesis
  proof (cases p)
    case Pending
    have "decode_stream D d k (rest @ tail) =
        decode_stream D (rh_decoder r') (rh_state r') (buffered r' @ socket_bytes sock' @ tail)" for tail
      using decode_stream_append [OF at refl, of tail] Pending by simp
    then have "session_inv L C db D d0 k0 c0 (evs @ []) bytes (session_step L C db D (Polled now) s)"
      by (intro session_invI) (use Pending step reads stream conn in simp_all)
    then show ?thesis by (intro exI [of _ "[]"]) simp
  next
    case (Ready out)
    show ?thesis
    proof (cases out)
      case (Inl e)
      have "session_inv L C db D d0 k0 c0 (evs @ [Read_Failed]) bytes (session_step L C db D (Polled now) s)"
        by (rule session_invI [of _ _ _ _ _ _ _ _ _ _ d k rest])
          (use Ready Inl step reads stream conn in \<open>simp_all add: read_failed_ends\<close>)
      then show ?thesis by (intro exI [of _ "[Read_Failed]"]) simp
    next
      case (Inr f)
      have "stream_reads D d0 k0 bytes (handled_frames (evs @ [Read_Frame f now])) (rh_decoder r') (rh_state r')
          (buffered r' @ socket_bytes sock')"
        using stream_reads.one_more [OF reads] at Ready Inr by simp
      then have "session_inv L C db D d0 k0 c0 (evs @ [Read_Frame f now]) bytes (session_step L C db D (Polled now) s)"
        by (rule session_invI [rotated 3]) (use Ready Inr step stream conn in simp_all)
      then show ?thesis by (intro exI [of _ "[Read_Frame f now]"]) simp
    qed
  qed
qed

lemma session_run_inv:
  assumes "decoder_ok D" and "\<forall>a. Arrived a \<in> set es \<longrightarrow> open_socket [a]"
    and "session_inv L C db D d0 k0 c0 evs bytes s"
  shows "\<exists>new. session_inv L C db D d0 k0 c0 (evs @ new) (bytes @ concat (map arrived es)) (session_run L C db D es s) \<and>
    filter from_templates new = List.map_filter template_event es"
  using assms(2,3)
proof (induction es arbitrary: evs bytes s)
  case Nil
  then show ?case by (intro exI [of _ "[]"]) (simp add: session_run_def List.map_filter_simps)
next
  case (Cons ev es)
  obtain new1 where inv: "session_inv L C db D d0 k0 c0 (evs @ new1) (bytes @ arrived ev) (session_step L C db D ev s)"
    and new1: "filter from_templates new1 = (case template_event ev of None \<Rightarrow> [] | Some t \<Rightarrow> [t])"
  proof (cases ev)
    case (Arrived a)
    with that [of "[]"] session_arrival [OF Cons.prems(2), of a] Cons.prems(1) show thesis by simp
  next
    case (Polled now)
    with that session_poll [OF Cons.prems(2) assms(1), of now] show thesis by auto
  next
    case (Template_Ready ids)
    with that [of "[Template_Changed ids]"] session_template [OF Cons.prems(2), of ev] show thesis by simp
  next
    case (Template_Published t)
    with that [of "[Publish t]"] session_template [OF Cons.prems(2), of ev] show thesis by simp
  qed
  from Cons.IH [OF _ inv] Cons.prems(1) obtain new2 where
    "session_inv L C db D d0 k0 c0 ((evs @ new1) @ new2) ((bytes @ arrived ev) @ concat (map arrived es))
      (session_run L C db D es (session_step L C db D ev s))"
    "filter from_templates new2 = List.map_filter template_event es"
    by auto
  with new1 show ?case
    by (intro exI [of _ "new1 @ new2"])
      (simp add: session_run_def List.map_filter_simps split: option.split)
qed

section \<open>The frames handled are the frames sent\<close>

lemma session_stream:
  assumes "decoder_ok D" and "reader_ok D r" and "buffered r = []" and "open_socket socket"
    and "\<forall>a. Arrived a \<in> set es \<longrightarrow> open_socket [a]" and "s = session_run L C db D es (session_start r socket c)"
  shows "\<exists>evs d k rest. sn_conn s = fold (connection_step L C db) evs c \<and>
    filter from_templates evs = List.map_filter template_event es \<and>
    stream_reads D (rh_decoder r) (rh_state r) (socket_bytes socket @ concat (map arrived es))
      (handled_frames evs) d k rest \<and>
    (\<not> ended (sn_conn s) \<longrightarrow>
      map_option fst (read_frame D (sn_reader s) (sn_socket s)) = map_option fst (decode_stream D d k rest))"
proof -
  let ?bytes = "socket_bytes socket @ concat (map arrived es)"
  have "session_inv L C db D (rh_decoder r) (rh_state r) c [] (socket_bytes socket) (session_start r socket c)"
    by (rule session_invI [where d = "rh_decoder r" and k = "rh_state r" and rest = "socket_bytes socket"])
      (use assms(2-4) in \<open>simp_all add: session_start_def stream_reads.none\<close>)
  from session_run_inv [OF assms(1,5) this] obtain evs where
    inv: "session_inv L C db D (rh_decoder r) (rh_state r) c evs ?bytes s"
    and templates: "filter from_templates evs = List.map_filter template_event es"
    unfolding assms(6) by auto
  from inv show ?thesis
  proof (rule session_invE)
    fix d k rest
    assume reads: "stream_reads D (rh_decoder r) (rh_state r) ?bytes (handled_frames evs) d k rest"
      and conn: "sn_conn s = fold (connection_step L C db) evs c"
      and ok: "reader_ok D (sn_reader s)" "open_socket (sn_socket s)"
      and link: "\<And>tail. \<not> ended (sn_conn s) \<Longrightarrow> decode_stream D d k (rest @ tail) =
        decode_stream D (rh_decoder (sn_reader s)) (rh_state (sn_reader s))
          (buffered (sn_reader s) @ socket_bytes (sn_socket s) @ tail)"
    obtain x where x: "read_frame D (sn_reader s) (sn_socket s) = Some x"
      using read_frame_total [OF assms(1) ok(1)] by blast
    have "decode_stream D d k rest = Some (reader_view x)" if "\<not> ended (sn_conn s)"
      using link [OF that, of "[]"] read_frame_streams [OF x ok] by simp
    then have "map_option fst (read_frame D (sn_reader s) (sn_socket s)) = map_option fst (decode_stream D d k rest)"
      if "\<not> ended (sn_conn s)" using that x by (auto simp: reader_view_def split: prod.splits)
    with reads conn templates show ?thesis by blast
  qed
qed

end
