(* ===== verification/Db_Reader.thy ===== *)
theory Db_Reader
  imports Database
begin

text \<open>
  The estimates of hashrates, from \<open>pool/src/db.rs\<close> (\<open>DbReader\<close>). SQLite's sum of a column is a
  parameter: it may fail, and its rounding is not fixed by the source.
\<close>

section \<open>Queries\<close>

text \<open>
  \<open>lookback_minutes as i64 * 60\<close> and the subtraction are checked in 64 bits. The cast keeps the
  bits, so a lookback of \<open>2 ^ 63\<close> or more is negative.
\<close>

definition fits_i64 :: "int \<Rightarrow> bool" where
  "fits_i64 x \<longleftrightarrow> - (2 ^ 63) \<le> x \<and> x < 2 ^ 63"

definition query_cutoff :: "int \<Rightarrow> u64 \<Rightarrow> int outcome" where
  "query_cutoff now lookback_minutes =
     (let span = sint lookback_minutes * 60 in
      if fits_i64 span then
        if fits_i64 (now - span) then Inr (now - span) else Inl (Panic ''attempt to subtract with overflow'')
      else Inl (Panic ''attempt to multiply with overflow''))"

text \<open>\<open>COALESCE(SUM(difficulty_sum), 0.0)\<close>: the sum of no rows is \<open>NULL\<close>.\<close>

definition coalesce_sum :: "(f64 list \<Rightarrow> f64 outcome) \<Rightarrow> f64 list \<Rightarrow> f64 outcome" where
  "coalesce_sum sql_sum rows = (if rows = [] then Inr (Fin 0) else sql_sum rows)"

definition estimate :: "f64 \<Rightarrow> u64 \<Rightarrow> f64" where
  "estimate diff_sum lookback_minutes =
     f64_div (f64_mul diff_sum (Fin 4294967296)) (f64_mul (f64_of_nat (unat lookback_minutes)) (Fin 60))"

definition hashrate_for_address ::
    "(f64 list \<Rightarrow> f64 outcome) \<Rightarrow> nat option \<Rightarrow> database \<Rightarrow> string \<Rightarrow> u64 \<Rightarrow> f64 outcome" where
  "hashrate_for_address sql_sum clock db address lookback_minutes =
     and_then (query_cutoff (now_secs clock) lookback_minutes) (\<lambda>cutoff.
     and_then (coalesce_sum sql_sum (map snd
       (filter (\<lambda>((addr, minute_ts), d). addr = address \<and> minute_ts \<ge> cutoff) (minute_hashrates db)))) (\<lambda>diff_sum.
     Inr (estimate diff_sum lookback_minutes)))"

definition pool_hashrate :: "(f64 list \<Rightarrow> f64 outcome) \<Rightarrow> nat option \<Rightarrow> database \<Rightarrow> u64 \<Rightarrow> f64 outcome" where
  "pool_hashrate sql_sum clock db lookback_minutes =
     and_then (query_cutoff (now_secs clock) lookback_minutes) (\<lambda>cutoff.
     and_then (coalesce_sum sql_sum (map snd
       (filter (\<lambda>((addr, minute_ts), d). minute_ts \<ge> cutoff) (minute_hashrates db)))) (\<lambda>diff_sum.
     Inr (estimate diff_sum lookback_minutes)))"

section \<open>Properties\<close>

lemma lookback_factor:
  assumes "0 < k" and "k < 2 ^ 64"
  obtains r where "f64_mul (f64_of_nat k) (Fin 60) = Fin r" "0 < r"
proof -
  have k: "(1::rat) \<le> of_nat k" "(of_nat k :: rat) \<le> 2 ^ 64"
    using assms by (simp, metis less_imp_le of_nat_le_iff of_nat_numeral of_nat_power)
  then obtain x where x: "f64_of_rat (of_nat k) = Fin x" "x \<le> 2 ^ 64"
    using f64_of_rat_bounded [of "of_nat k" 64] by auto
  have one: "f64_of_rat 1 = Fin 1" using f64_of_nat_exact [of 1] by (simp add: f64_of_nat_def)
  have "1 \<le> x" using f64_of_rat_mono [of 1 "of_nat k"] k(1) x(1) one by simp
  moreover obtain y where y: "f64_of_rat (x * 60) = Fin y"
    using f64_of_rat_bounded [of "x * 60" 70] x(2) \<open>1 \<le> x\<close> by auto
  ultimately have "1 \<le> y" using f64_of_rat_mono [of 1 "x * 60"] one by simp
  with x y show thesis by (intro that [of y]) (simp_all add: f64_of_nat_def)
qed

text \<open>
  A query never panics for the times and lookbacks that occur: for a clock between the epoch and
  \<open>2 ^ 62\<close> seconds and a lookback below \<open>2 ^ 56\<close> minutes the cutoff is the clock minus the lookback
  in seconds, without overflow.
\<close>

lemma query_cutoff_exact:
  assumes "0 \<le> now" and "now < 2 ^ 62" and "unat lookback < 2 ^ 56"
  shows "query_cutoff now lookback = Inr (now - 60 * uint lookback)"
proof -
  have "int k < 2 ^ 56" if "k < 2 ^ 56" for k :: nat using that by simp
  from this [OF assms(3)] have small: "uint lookback < 2 ^ 56" unfolding uint_nat .
  moreover have "- (2 ^ 63) \<le> uint lookback" by (rule order_trans [OF _ uint_ge_0]) simp
  ultimately have s: "sint lookback = uint lookback"
    unfolding sint_uint by (intro signed_take_bit_int_eq_self) simp_all
  have "fits_i64 (n * 60) \<and> fits_i64 (now - n * 60)" if "0 \<le> n" "n < 2 ^ 56" for n
    using that assms(1,2) by (simp add: fits_i64_def)
  from this [OF uint_ge_0 small]
  show ?thesis unfolding query_cutoff_def s Let_def by (simp add: mult.commute)
qed

lemma query_cutoff_day: "query_cutoff 1700000000 1440 = Inr 1699913600"
  using query_cutoff_exact [of 1700000000 1440] by simp

lemma estimate_zero: "estimate (Fin 0) lookback = (if lookback = 0 then NaN else Fin 0)"
proof -
  have zero: "f64_of_rat 0 = Fin 0" by (simp add: f64_of_rat_def)
  show ?thesis
  proof (cases "lookback = 0")
    case True
    then show ?thesis by (simp add: estimate_def f64_of_nat_def zero)
  next
    case False
    then have "0 < unat lookback" "unat lookback < 2 ^ 64"
      using unat_width(3) [of lookback] by (simp_all add: unat_gt_0)
    then obtain r where "f64_mul (f64_of_nat (unat lookback)) (Fin 60) = Fin r" "0 < r" by (rule lookback_factor)
    with False show ?thesis by (simp add: estimate_def zero)
  qed
qed

text \<open>
  C40: For a clock between the epoch and \<open>2 ^ 62\<close> seconds and a lookback below \<open>2 ^ 56\<close> minutes no query
  overflows, and with no row in the window both estimates, of one address and of the whole pool, are 0,
  as documented, whatever SQLite's sum does; except for a lookback of zero minutes, for which they are
  NaN, the quotient of zeros.
\<close>

theorem no_data_estimate:
  assumes "0 \<le> now_secs clock" and "now_secs clock < 2 ^ 62" and "unat lookback < 2 ^ 56"
  defines "cutoff \<equiv> now_secs clock - 60 * uint lookback"
    and "nothing \<equiv> (if lookback = 0 then NaN else Fin 0)"
  shows "((\<forall>((addr, t), d) \<in> set (minute_hashrates db). addr = address \<longrightarrow> t < cutoff) \<longrightarrow>
      hashrate_for_address sql_sum clock db address lookback = Inr nothing) \<and>
    ((\<forall>((addr, t), d) \<in> set (minute_hashrates db). t < cutoff) \<longrightarrow>
      pool_hashrate sql_sum clock db lookback = Inr nothing)"
proof (intro conjI impI)
  have q: "query_cutoff (now_secs clock) lookback = Inr cutoff"
    unfolding cutoff_def using assms(1-3) by (rule query_cutoff_exact)
  show "hashrate_for_address sql_sum clock db address lookback = Inr nothing"
    if "\<forall>((addr, t), d) \<in> set (minute_hashrates db). addr = address \<longrightarrow> t < cutoff"
  proof -
    have "filter (\<lambda>((addr, minute_ts), d). addr = address \<and> minute_ts \<ge> cutoff) (minute_hashrates db) = []"
      using that by (fastforce simp: filter_empty_conv)
    then show ?thesis by (simp add: hashrate_for_address_def coalesce_sum_def q estimate_zero nothing_def)
  qed
  show "pool_hashrate sql_sum clock db lookback = Inr nothing"
    if "\<forall>((addr, t), d) \<in> set (minute_hashrates db). t < cutoff"
  proof -
    have "filter (\<lambda>((addr, minute_ts), d). minute_ts \<ge> cutoff) (minute_hashrates db) = []"
      using that by (fastforce simp: filter_empty_conv)
    then show ?thesis by (simp add: pool_hashrate_def coalesce_sum_def q estimate_zero nothing_def)
  qed
qed

text \<open>A row of an hour ago counts for neither estimate, and the row of another address not for the first.\<close>

theorem no_data_estimate_witness:
  "hashrate_for_address (\<lambda>ds. Inr (hd ds)) (Some 1700000000)
      (empty_database\<lparr>minute_hashrates := [((''bc1q'', 1699996200), Fin 5), ((''bc1p'', 1699999980), Fin 5)]\<rparr>)
      ''bc1q'' 60 = Inr (Fin 0) \<and>
   pool_hashrate (\<lambda>ds. Inr (hd ds)) (Some 1700000000)
      (empty_database\<lparr>minute_hashrates := [((''bc1q'', 1699996200), Fin 5)]\<rparr>) 60 = Inr (Fin 0) \<and>
   pool_hashrate (\<lambda>ds. Inr (hd ds)) (Some 1700000000) empty_database 0 = Inr NaN"
proof -
  have now: "0 \<le> now_secs (Some 1700000000)" "now_secs (Some 1700000000) < 2 ^ 62" by (simp_all add: now_secs_def)
  have "unat (60 :: u64) < 2 ^ 56" "unat (0 :: u64) < 2 ^ 56" by simp_all
  from no_data_estimate [OF now this(1)] no_data_estimate [OF now this(2)] show ?thesis
    by (simp add: empty_database_def now_secs_def)
qed

end
