(* ===== verification/Startup.thy ===== *)
theory Startup
  imports Pool Config Session Db_Reader
begin

text \<open>
  How the pool comes up: \<open>main\<close> (\<open>pool/src/main.rs\<close>), opening the database (\<open>pool/src/db.rs\<close>),
  starting the node client (\<open>pool/src/node_ipc.rs\<close>), the server and a connection task from its socket
  on (\<open>pool/src/stratum_sv2.rs\<close>). The file system and the listener are the fields of \<open>outside\<close>, the
  node's remote interface those of \<open>node_api\<close>. Lemmas connect \<open>main\<close> with the system of \<open>Pool\<close>.
\<close>

section \<open>The world outside\<close>

text \<open>
  \<open>open_file\<close> gives the tables found in a database file, \<open>None\<close> for a new one; the two flags say
  whether the pragmas and the creation of the tables succeed.
\<close>

record 'addr outside =
  out_env :: environment
  parse_socket_addr :: "string \<Rightarrow> 'addr option"
  open_file :: "string \<Rightarrow> database option outcome"
  pragmas_ok :: bool
  tables_ok :: bool
  bind_ok :: "'addr \<Rightarrow> bool"

text \<open>
  The remote interface of the node, one field per call: the connection of the socket with the
  bootstrap of the interface, the map of threads, a new thread, the mining interface on a thread, and
  a block template for the options of the request.
\<close>

record create_options =
  block_reserved_weight :: u64
  coinbase_output_max_additional_sigops :: u64
  use_mempool :: bool

record ('init, 'threads, 'thread, 'mining, 'b) node_api =
  connect_socket :: "string \<Rightarrow> 'init outcome"
  construct_threads :: "'init \<Rightarrow> 'threads outcome"
  make_thread :: "'threads \<Rightarrow> 'thread outcome"
  make_mining :: "'init \<Rightarrow> 'thread \<Rightarrow> 'mining outcome"
  create_new_block :: "'mining \<Rightarrow> create_options \<Rightarrow> 'b outcome"

section \<open>The database\<close>

definition configure_conn :: "bool \<Rightarrow> unit outcome" where
  "configure_conn ok = (if ok then Inr () else Inl (Bail ''PRAGMA failed''))"

text \<open>\<open>CREATE TABLE IF NOT EXISTS\<close>: tables that are there keep their rows.\<close>

definition init_schema :: "bool \<Rightarrow> database option \<Rightarrow> database outcome" where
  "init_schema ok found =
     (if ok then Inr (case found of None \<Rightarrow> empty_database | Some db \<Rightarrow> db)
      else Inl (Bail ''CREATE TABLE failed''))"

definition db_worker_start :: "'addr outside \<Rightarrow> string \<Rightarrow> int \<Rightarrow> worker outcome" where
  "db_worker_start X path now =
     and_then (open_file X path) (\<lambda>conn.
     and_then (configure_conn (pragmas_ok X)) (\<lambda>_.
     and_then (init_schema (tables_ok X) conn) (\<lambda>db.
     Inr (worker_start now db))))"

text \<open>A reader does not create tables; without them its queries fail.\<close>

definition db_reader_open :: "'addr outside \<Rightarrow> string \<Rightarrow> database option outcome" where
  "db_reader_open X path =
     and_then (open_file X path) (\<lambda>conn.
     and_then (configure_conn (pragmas_ok X)) (\<lambda>_. Inr conn))"

section \<open>The node client\<close>

definition new_thread :: "('init, 'threads, 'thread, 'mining, 'b) node_api \<Rightarrow> 'threads \<Rightarrow> 'thread outcome" where
  "new_thread A thread_map = make_thread A thread_map"

definition new_block_client ::
    "('init, 'threads, 'thread, 'mining, 'b) node_api \<Rightarrow> 'mining \<Rightarrow> u32 \<Rightarrow> 'b outcome" where
  "new_block_client A mining coinbase_output_max_size =
     and_then (reserved_weight coinbase_output_max_size) (\<lambda>reserved.
     create_new_block A mining
       \<lparr>block_reserved_weight = reserved, coinbase_output_max_additional_sigops = 400, use_mempool = True\<rparr>)"

text \<open>The calls of \<open>fetch_template\<close> on the thread are those of the block client in \<open>node\<close>.\<close>

definition ipc_main_start ::
    "crates \<Rightarrow> 'b node \<Rightarrow> ('init, 'threads, 'thread, 'mining, 'b) node_api \<Rightarrow> string \<Rightarrow> u32 \<Rightarrow>
     'b ipc_state outcome" where
  "ipc_main_start L N A socket_path coinbase_output_max_size =
     and_then (connect_socket A socket_path) (\<lambda>init.
     and_then (construct_threads A init) (\<lambda>thread_map.
     and_then (new_thread A thread_map) (\<lambda>thread.
     and_then (make_mining A init thread) (\<lambda>mining.
     and_then (new_block_client A mining coinbase_output_max_size) (\<lambda>block.
     ipc_start L N block)))))"

text \<open>
  The client runs in a thread of its own; an error or a panic before the first template drops the
  sender, and the caller sees only that.
\<close>

definition node_ipc_start ::
    "crates \<Rightarrow> 'b node \<Rightarrow> ('init, 'threads, 'thread, 'mining, 'b) node_api \<Rightarrow> string \<Rightarrow> u32 \<Rightarrow>
     'b ipc_state outcome" where
  "node_ipc_start L N A socket_path coinbase_output_max_size =
     (case ipc_main_start L N A socket_path coinbase_output_max_size of
        Inl _ \<Rightarrow> Inl (Bail ''node_ipc thread exited before first template'')
      | Inr n \<Rightarrow> Inr n)"

section \<open>The server\<close>

record authority_keypair =
  kp_public :: bytes
  kp_private :: bytes

record 'addr sv2_server =
  sv_keypair :: authority_keypair
  sv_listen_addr :: 'addr
  sv_pool_address :: string

definition sv2_server_new :: "authority_keypair \<Rightarrow> 'addr \<Rightarrow> string \<Rightarrow> 'addr sv2_server" where
  "sv2_server_new keypair listen_addr address =
     \<lparr>sv_keypair = keypair, sv_listen_addr = listen_addr, sv_pool_address = address\<rparr>"

text \<open>
  \<open>to_responder\<close>: \<open>from_authority_kp\<close> of the Noise crate checks the keys; the certificate is valid for a
  year, in seconds.
\<close>

definition CERT_VALIDITY :: nat where "CERT_VALIDITY = 365 * 24 * 60 * 60"

definition to_responder ::
    "(bytes \<Rightarrow> bytes \<Rightarrow> nat \<Rightarrow> 'role option) \<Rightarrow> authority_keypair \<Rightarrow> 'role outcome" where
  "to_responder from_authority_kp kp =
     ok_or (Bail ''invalid authority keypair'') (from_authority_kp (kp_public kp) (kp_private kp) CERT_VALIDITY)"

text \<open>
  The begin of a connection task: the responder, the handshake, and then the state machine of
  \<open>Connection\<close>, on the receiver and the address that the server cloned for it.
\<close>

definition handle_connection_start ::
    "('d, 'e, 'k, 'role, 'm, 'f) noise_codec \<Rightarrow> (bytes \<Rightarrow> bytes \<Rightarrow> nat \<Rightarrow> 'role option) \<Rightarrow> 'addr sv2_server \<Rightarrow>
     'b ipc_state \<Rightarrow> bool \<Rightarrow> arrival list \<Rightarrow> bool list \<Rightarrow>
     (((('d, 'k) noise_read_half \<times> ('e, 'k) noise_write_half) \<times> connection) outcome \<times> arrival list) option" where
  "handle_connection_start K from_authority_kp srv n write_ok socket faults =
     (case to_responder from_authority_kp (sv_keypair srv) of
        Inl e \<Rightarrow> Some (Inl e, socket)
      | Inr role \<Rightarrow>
          map_option (\<lambda>(halves, rest).
            (case halves of
               Inl e \<Rightarrow> (Inl (Bail ''Noise handshake failed''), rest)
             | Inr h \<Rightarrow> (Inr (h, accept_connection (sv_pool_address srv) n faults), rest)))
            (accept_noise K role write_ok socket))"

text \<open>
  A connection task from its socket on: after the handshake it runs the session of \<open>Session\<close> on what the
  handshake has left on the socket and what arrives later. \<open>None\<close> would be a handshake that does not
  return; it cannot occur, by \<open>transport_returns\<close>.
\<close>

definition handle_connection ::
    "crates \<Rightarrow> codec \<Rightarrow> bool \<Rightarrow> ('d, 'e, 'k, 'role, 'm, 'f) noise_codec \<Rightarrow> (bytes \<Rightarrow> bytes \<Rightarrow> nat \<Rightarrow> 'role option) \<Rightarrow>
     'addr sv2_server \<Rightarrow> 'b ipc_state \<Rightarrow> bool \<Rightarrow> arrival list \<Rightarrow> bool list \<Rightarrow> session_event list \<Rightarrow>
     ('d, 'k) session outcome option" where
  "handle_connection L C db K from_authority_kp srv n write_ok socket faults es =
     map_option (\<lambda>(start, rest).
         map_sum id (\<lambda>((reader, writer), c). session_run L C db (nc_decoder K) es (session_start reader rest c)) start)
       (handle_connection_start K from_authority_kp srv n write_ok socket faults)"

text \<open>
  \<open>run\<close>: the bind, and one round of the accept loop. An accepted stream becomes a connection task
  (\<open>faults\<close> are the writes on it that will fail); an accept error ends \<open>run\<close>.
\<close>

definition run_bind :: "'addr outside \<Rightarrow> 'addr sv2_server \<Rightarrow> unit outcome" where
  "run_bind X server =
     (if bind_ok X (sv_listen_addr server) then Inr () else Inl (Bail ''failed to bind SV2 server''))"

definition run_round :: "'addr sv2_server \<Rightarrow> bool list outcome \<Rightarrow> 'b pool \<Rightarrow> 'b pool outcome" where
  "run_round server stream p =
     (case stream of
        Inl _ \<Rightarrow> Inl (Bail ''accept error'')
      | Inr faults \<Rightarrow>
          Inr (p\<lparr>pl_conns := pl_conns p @ [accept_connection (sv_pool_address server) (pl_node p) faults]\<rparr>))"

section \<open>Main\<close>

definition pool_main ::
    "crates \<Rightarrow> 'b node \<Rightarrow> ('init, 'threads, 'thread, 'mining, 'b) node_api \<Rightarrow> 'addr outside \<Rightarrow> int \<Rightarrow>
     ('addr sv2_server \<times> 'b pool) outcome" where
  "pool_main L N A X now =
     and_then (from_env L (parse_socket_addr X) (out_env X)) (\<lambda>cfg.
     and_then (db_worker_start X ''pool.db'' now) (\<lambda>db_worker.
     and_then (node_ipc_start L N A (cf_bitcoin_ipc_socket cfg) 100) (\<lambda>n.
     let keypair = \<lparr>kp_public = cf_pool_authority_public_key cfg, kp_private = cf_pool_authority_private_key cfg\<rparr>;
         server = sv2_server_new keypair (cf_sv2_listen_addr cfg) (cf_pool_address cfg)
     in and_then (run_bind X server) (\<lambda>_. Inr (server, pool_start n db_worker)))))"

text \<open>What \<open>main\<close> has done when it has started the pool.\<close>

lemma pool_main_starts:
  assumes "pool_main L N A X now = Inr (server, p)"
  obtains found n block where "open_file X ''pool.db'' = Inr found" and "ipc_start L N block = Inr n"
    and "p = pool_start n (worker_start now (case found of None \<Rightarrow> empty_database | Some db \<Rightarrow> db))"
  using assms
  by (auto simp: pool_main_def db_worker_start_def init_schema_def node_ipc_start_def ipc_main_start_def
      Let_def split: if_splits sum.splits)

text \<open>
  A pool that has started is in a start state of the system, on the tables found in the file; so the
  properties of every reachable state hold of it from then on.
\<close>

lemma pool_main_reaches:
  assumes "pool_main L N A X now = Inr (server, p)"
  shows "\<exists>block old. pool_reaches L N C (sv_pool_address server) block now old p \<and>
    (open_file X ''pool.db'' = Inr (Some old) \<or> open_file X ''pool.db'' = Inr None \<and> old = empty_database)"
proof -
  obtain found n block where start: "open_file X ''pool.db'' = Inr found" "ipc_start L N block = Inr n"
    "p = pool_start n (worker_start now (case found of None \<Rightarrow> empty_database | Some db \<Rightarrow> db))"
    using pool_main_starts [OF assms] .
  show ?thesis
    by (rule exI [of _ block], cases found) (use start in \<open>auto simp: pool_reaches_def\<close>)
qed

text \<open>A round of the accept loop is a step of the system, or the end of \<open>run\<close>.\<close>

lemma run_round_steps:
  assumes "run_round server stream p = Inr p'"
  shows "pool_step L N C (sv_pool_address server) p p'"
  using assms by (auto simp: run_round_def intro: pool_step.accept split: sum.splits)

text \<open>A connection task either fails or starts the state machine that \<open>Pool\<close> accepts, on a fresh reader.\<close>

lemma handle_connection_accepts:
  assumes "handle_connection_start K kp srv n ok socket faults = Some (Inr ((r, w), c), rest)"
  shows "c = accept_connection (sv_pool_address srv) n faults \<and>
    (\<exists>role. accept_noise K role ok socket = Some (Inr (r, w), rest))"
proof (cases "to_responder kp (sv_keypair srv)")
  case (Inr role)
  then obtain halves rest' where acc: "accept_noise K role ok socket = Some (halves, rest')"
    and out: "(case halves of Inl e \<Rightarrow> (Inl (Bail ''Noise handshake failed''), rest')
        | Inr h \<Rightarrow> (Inr (h, accept_connection (sv_pool_address srv) n faults), rest')) = (Inr ((r, w), c), rest)"
    using assms by (auto simp: handle_connection_start_def)
  from out have "halves = Inr (r, w)" "c = accept_connection (sv_pool_address srv) n faults" "rest' = rest"
    by (simp_all split: sum.splits)
  with acc show ?thesis by blast
qed (use assms in \<open>simp add: handle_connection_start_def\<close>)

lemma handle_connection_session:
  assumes "handle_connection L C db K kp srv n ok socket faults es = Some (Inr s)"
  obtains r w rest role where "accept_noise K role ok socket = Some (Inr (r, w), rest)"
    and "s = session_run L C db (nc_decoder K) es (session_start r rest (accept_connection (sv_pool_address srv) n faults))"
proof -
  obtain start rest where start: "handle_connection_start K kp srv n ok socket faults = Some (start, rest)"
    and s: "map_sum id (\<lambda>((reader, writer), c).
      session_run L C db (nc_decoder K) es (session_start reader rest c)) start = Inr s"
    using assms by (auto simp: handle_connection_def)
  obtain r w c where halves: "start = Inr ((r, w), c)" using s by (cases start) auto
  from handle_connection_accepts [OF start [unfolded halves]] obtain role where
    "c = accept_connection (sv_pool_address srv) n faults" "accept_noise K role ok socket = Some (Inr (r, w), rest)"
    by blast
  with s halves that [of role r w rest] show thesis by simp
qed

section \<open>The frames of a connection\<close>

text \<open>
  C9: A connection task handles exactly the frames that its peer sends behind the handshake, in their
  order, each once, however the bytes are split, whenever they arrive and however often the branch of
  the templates drops a read in the middle of a frame. The task goes through events of the state
  machine that \<open>Pool\<close> accepts; those of the templates among them are the ones that happened, in their
  order, and the frames among them are the first frames of the byte stream. As long as the task has not
  ended, the next poll gives what the decoder gives on the rest of the stream.
\<close>

theorem session_handles_stream:
  assumes "decoder_ok (nc_decoder K)" and "open_socket socket" and "\<forall>a. Arrived a \<in> set es \<longrightarrow> open_socket [a]"
    and "handle_connection L C db K kp srv n ok socket faults es = Some (Inr s)"
  shows "\<exists>r w role rest. accept_noise K role ok socket = Some (Inr (r, w), rest) \<and>
    (\<exists>evs d k rest'.
      sn_conn s = fold (connection_step L C db) evs (accept_connection (sv_pool_address srv) n faults) \<and>
      filter from_templates evs = List.map_filter template_event es \<and>
      stream_reads (nc_decoder K) (decoder_new K) (rh_state r) (socket_bytes rest @ concat (map arrived es))
        (handled_frames evs) d k rest' \<and>
      (\<not> ended (sn_conn s) \<longrightarrow>
        map_option fst (read_frame (nc_decoder K) (sn_reader s) (sn_socket s)) =
        map_option fst (decode_stream (nc_decoder K) d k rest')))"
proof -
  obtain r w rest role where acc: "accept_noise K role ok socket = Some (Inr (r, w), rest)"
    and s: "s = session_run L C db (nc_decoder K) es (session_start r rest (accept_connection (sv_pool_address srv) n faults))"
    by (rule handle_connection_session [OF assms(4)])
  note fresh = accept_noise_halves [OF acc, of "nc_decoder K"]
  from session_stream [OF assms(1) _ _ _ assms(3) s] fresh assms(2) acc show ?thesis
    by (intro exI [of _ r] exI [of _ w] exI [of _ role] exI [of _ rest]) simp
qed

text \<open>The handshake and a frame in two pieces; the read of the first is dropped for the templates.\<close>

lemma sample_handshake:
  "accept_noise sample_noise () True [Data [2, 7, 9, 2, 7]] =
    Some (Inr (new_halves sample_noise () False [2, 9, 7]), [Data [2, 7]])"
  by (simp add: accept_noise_def accept_noise_with_timeout_def sample_noise_def sample_decoder_def
      sample_frame_def handshake_read.simps push_back_def)

theorem session_handles_stream_witness:
  "\<exists>s evs d k rest. handle_connection sample_crates sample_codec True sample_noise (\<lambda>_ _ _. Some ())
      (sv2_server_new \<lparr>kp_public = [], kp_private = []\<rparr> () ''bc1pool'') sample_ipc True [Data [2, 7, 9, 2, 7]] []
      [Polled 0, Template_Ready [], Arrived (Data [8]), Polled 1] = Some (Inr s) \<and>
    sn_conn s = fold (connection_step sample_crates sample_codec True) evs (accept_connection ''bc1pool'' sample_ipc []) \<and>
    filter from_templates evs = [Template_Changed []] \<and>
    stream_reads sample_decoder (0, False, []) False [2, 7, 8] (handled_frames evs) d k rest"
proof -
  let ?es = "[Polled 0, Template_Ready [], Arrived (Data [8]), Polled 1]"
  let ?run = "handle_connection sample_crates sample_codec True sample_noise (\<lambda>_ _ _. Some ())
    (sv2_server_new \<lparr>kp_public = [], kp_private = []\<rparr> () ''bc1pool'') sample_ipc True [Data [2, 7, 9, 2, 7]] [] ?es"
  obtain s where s: "?run = Some (Inr s)"
    by (simp add: handle_connection_def handle_connection_start_def to_responder_def sample_handshake
        new_halves_def split: prod.split)
  have K: "decoder_ok (nc_decoder sample_noise)" "nc_decoder sample_noise = sample_decoder"
    "decoder_new sample_noise = (0, False, [])"
    using sample_decoder_ok by (simp_all add: sample_noise_def)
  have "\<forall>a. Arrived a \<in> set ?es \<longrightarrow> open_socket [a]" "open_socket [Data [2, 7, 9, 2, 7]]" by auto
  from session_handles_stream [OF K(1) this(2,1) s] obtain r w role rest evs d k rest' where
    acc: "accept_noise sample_noise role True [Data [2, 7, 9, 2, 7]] = Some (Inr (r, w), rest)"
    and evs: "sn_conn s = fold (connection_step sample_crates sample_codec True) evs
      (accept_connection (sv_pool_address (sv2_server_new \<lparr>kp_public = [], kp_private = []\<rparr> () ''bc1pool'')) sample_ipc [])"
      "filter from_templates evs = List.map_filter template_event ?es"
      "stream_reads (nc_decoder sample_noise) (decoder_new sample_noise) (rh_state r)
        (socket_bytes rest @ concat (map arrived ?es)) (handled_frames evs) d k rest'"
    by blast
  from acc have "rh_state r = False" "rest = [Data [2, 7]]"
    by (simp_all add: sample_handshake new_halves_def) auto
  with s evs show ?thesis
    by (intro exI [of _ s] exI [of _ evs] exI [of _ d] exI [of _ k] exI [of _ rest'])
      (simp add: K(2,3) sv2_server_new_def List.map_filter_simps)
qed

section \<open>Restarting on an existing database\<close>

lemma push_events_db [simp]: "wk_db (fold push_event evs w) = wk_db w"
  by (induction evs arbitrary: w) (simp_all add: push_event_def split: db_event.split)

lemma flush_rows_grow: "prefix (shares (wk_db w)) (shares (wk_db (flush i w)))"
  by (auto simp: flush_def flushed_rows dest: flush_inner_Inr split: sum.split)

lemma worker_rows_grow: "prefix (shares (wk_db w)) (shares (wk_db (worker_iteration i w)))"
proof (cases "wk_running w \<and> it_first i \<noteq> Disconnected")
  case True
  define v where "v = fold push_event (taken i) w"
  have "worker_iteration i w \<in>
      {(flush i v)\<lparr>wk_running := False\<rparr>, (flush i v)\<lparr>wk_last_flush := it_now i\<rparr>, v}"
    using True by (cases "it_first i") (auto simp: worker_iteration_def v_def taken_def Let_def)
  moreover have "wk_db v = wk_db w" by (simp add: v_def)
  ultimately show ?thesis using flush_rows_grow [of v i] by auto
qed (auto simp: worker_iteration_def flush_rows_grow)

lemma pool_rows_grow:
  "(pool_step L N C addr)\<^sup>*\<^sup>* p p' \<Longrightarrow>
    prefix (shares (wk_db (fst (pl_worker p)))) (shares (wk_db (fst (pl_worker p'))))"
proof (induction rule: rtranclp_induct)
  case (step q r)
  from step.hyps(2) have "prefix (shares (wk_db (fst (pl_worker q)))) (shares (wk_db (fst (pl_worker r))))"
    by cases (simp_all add: worker_step_def worker_rows_grow)
  with step.IH show ?case by (rule prefix_order.trans)
qed simp

definition sample_api :: "(string, nat, unit, nat, nat) node_api" where
  "sample_api =
     \<lparr>connect_socket = Inr, construct_threads = (\<lambda>_. Inr 1), make_thread = (\<lambda>_. Inr ()),
      make_mining = (\<lambda>_ _. Inr 2), create_new_block = (\<lambda>_ _. Inr 0)\<rparr>"

definition sample_outside :: "database option \<Rightarrow> nat outside" where
  "sample_outside found =
     \<lparr>out_env = [''RPC_USER'' \<mapsto> ''user'', ''RPC_PASS'' \<mapsto> ''pass'', ''POOL_ADDRESS'' \<mapsto> ''bc1pool'',
        ''POOL_AUTHORITY_PUBLIC_KEY'' \<mapsto> hex_text (replicate 32 1),
        ''POOL_AUTHORITY_PRIVATE_KEY'' \<mapsto> hex_text (replicate 32 2)],
      parse_socket_addr = (\<lambda>s. Some (length s)), open_file = (\<lambda>_. Inr found), pragmas_ok = True, tables_ok = True,
      bind_ok = (\<lambda>_. True)\<rparr>"

lemma sample_main:
  "\<exists>server. pool_main sample_crates sample_node sample_api (sample_outside (Some db)) now =
    Inr (server, pool_start sample_ipc (worker_start now db)) \<and> sv_pool_address server = ''bc1pool''"
proof -
  have hex: "hex_decode sample_crates = unhex" by (simp add: sample_crates_def)
  have "\<exists>cfg. from_env sample_crates (parse_socket_addr (sample_outside found)) (out_env (sample_outside found)) = Inr cfg \<and>
      cf_pool_address cfg = ''bc1pool''" for found
    by (simp add: sample_outside_def from_env_def env_required_def env_or_def parse_key32_def hex unhex_hex_text
        del: hex_text.simps)
  moreover have "node_ipc_start sample_crates sample_node sample_api path 100 = Inr sample_ipc" for path
    using sample_ipc_started
    by (simp add: node_ipc_start_def ipc_main_start_def sample_api_def new_thread_def new_block_client_def
        reserved_weight_def WEIGHT_FACTOR_def)
  moreover have "db_worker_start (sample_outside (Some db)) path now = Inr (worker_start now db)" for path
    by (simp add: db_worker_start_def sample_outside_def configure_conn_def init_schema_def)
  moreover have "run_bind (sample_outside found) server = Inr ()" for found server
    by (simp add: run_bind_def sample_outside_def)
  ultimately show ?thesis by (fastforce simp: pool_main_def Let_def sv2_server_new_def)
qed

text \<open>
  C16: A pool that \<open>main\<close> starts on an existing database, whose statistics agree with its rows as those of
  every database that a pool has written do, keeps the shares and the miners: in every state that it
  reaches afterwards, whatever fails, the old shares are the first rows in their order, the miners known
  before keep the time at which they were first seen, and the statistics agree with all rows again. The
  minute rows are not kept: each flush adds to them and removes those older than a day.
\<close>

theorem restart_keeps_shares_and_miners:
  assumes "crates_ok L" and "header_ok N" and "db_ok old"
    and "pool_main L N A X now = Inr (server, p0)" and "open_file X ''pool.db'' = Inr (Some old)"
    and "(pool_step L N C (sv_pool_address server))\<^sup>*\<^sup>* p0 p"
  shows "prefix (shares old) (shares (wk_db (fst (pl_worker p)))) \<and>
    miners old \<subseteq>\<^sub>m miners (wk_db (fst (pl_worker p))) \<and> db_ok (wk_db (fst (pl_worker p)))"
proof -
  obtain block n where start: "ipc_start L N block = Inr n" and p0: "p0 = pool_start n (worker_start now old)"
    by (rule pool_main_starts [OF assms(4)]) (use assms(5) in auto)
  have "pool_reaches L N C (sv_pool_address server) block now old p"
    using start assms(6) unfolding p0 pool_reaches_def by blast
  from pool_reaches_inv [OF assms(1-3) this] have inv: "worker_inv old (pl_worker p)" by (simp add: pool_inv_def)
  then have "db_ok (wk_db (fst (pl_worker p)))" "miners old \<subseteq>\<^sub>m miners (wk_db (fst (pl_worker p)))"
    by (auto simp: worker_inv_def Let_def map_le_def)
  with pool_rows_grow [OF assms(6)] show ?thesis by (simp add: p0 pool_start_def worker_start_def)
qed

text \<open>A miner connects to the restarted pool, its share is acknowledged, and the worker flushes it.\<close>

theorem restart_keeps_shares_and_miners_witness:
  "\<exists>old server p0 p s. shares old = [sample_share_event 1] \<and> miners old = [''old'' \<mapsto> 5] \<and>
    pool_main sample_crates sample_node sample_api (sample_outside (Some old)) 0 = Inr (server, p0) \<and>
    (pool_step sample_crates sample_node sample_codec ''bc1pool'')\<^sup>*\<^sup>* p0 p \<and>
    shares (wk_db (fst (pl_worker p))) = [sample_share_event 1, s] \<and>
    miners (wk_db (fst (pl_worker p))) ''old'' = Some 5 \<and> db_ok (wk_db (fst (pl_worker p)))"
proof -
  define old where "old = flushed [sample_share_event 1] [(''old'', 5)] Map.empty [] 0 empty_database"
  have "db_ok old" unfolding old_def
    by (rule flushed_ok [OF empty_database_ok]) (simp_all add: sample_share_event_def)
  have old: "shares old = [sample_share_event 1]" "miners old = [''old'' \<mapsto> 5]"
    by (simp_all add: old_def flushed_rows empty_database_def)
  obtain server where main: "pool_main sample_crates sample_node sample_api (sample_outside (Some old)) 0 =
      Inr (server, pool_start sample_ipc (worker_start 0 old))" and addr: "sv_pool_address server = ''bc1pool''"
    using sample_main [of old 0] by blast
  obtain p sol s where run: "(pool_step sample_crates sample_node sample_codec ''bc1pool'')\<^sup>*\<^sup>*
      (pool_start sample_ipc (worker_start 0 old)) p"
    and p: "pl_worker p = (worker_start 0 old, [])" "pl_reports p = [Miner_Connected ''bc1q'' 10, Share s]"
    by (rule sample_pool_steps)
  let ?i = "sample_iteration (Miner_Connected ''bc1q'' 10) [Share s] 60"
  define q where "q = p\<lparr>pl_worker := worker_step ?i (pl_worker p), pl_reports := []\<rparr>"
  have "map_order ?i" by (simp add: map_order_def sample_iteration_def)
  then have "pool_step sample_crates sample_node sample_codec ''bc1pool'' p q" unfolding q_def
    by (intro pool_step.store) (simp_all add: p worker_start_def taken_def sample_iteration_def)
  with run have reach: "(pool_step sample_crates sample_node sample_codec ''bc1pool'')\<^sup>*\<^sup>*
      (pool_start sample_ipc (worker_start 0 old)) q" by simp
  have "shares (wk_db (fst (pl_worker q))) = [sample_share_event 1, s]"
    by (simp add: q_def p worker_step_def worker_iteration_def worker_start_def sample_iteration_def Let_def
        push_event_def flush_def flush_inner_total FLUSH_INTERVAL_def flushed_rows old)
  moreover have "open_file (sample_outside (Some old)) ''pool.db'' = Inr (Some old)" by (simp add: sample_outside_def)
  from restart_keeps_shares_and_miners [OF sample_crates_all_ok sample_node_header_ok \<open>db_ok old\<close> main this,
      unfolded addr, OF reach]
  have "miners (wk_db (fst (pl_worker q))) ''old'' = Some 5" "db_ok (wk_db (fst (pl_worker q)))"
    by (simp_all add: old map_le_def)
  ultimately show ?thesis using old main reach by blast
qed

end
