(* ===== verification/Frame_Link.thy ===== *)
theory Frame_Link
  imports Noise_Transport
begin

text \<open>
  The two ends of an encrypted connection together: the handshake of the initiator against the one of
  the responder, and the messages that one end writes against the frames that the other end reads.
  What the Noise codec promises is stated as laws on the record \<open>noise_codec\<close>.
\<close>

section \<open>Calls in a row\<close>

text \<open>The frames of \<open>n\<close> calls of a reader one after another; it stops at the first that gives none.\<close>

fun calls :: "('r \<Rightarrow> 's \<Rightarrow> ('f poll \<times> 'r \<times> 's) option) \<Rightarrow> nat \<Rightarrow> 'r \<Rightarrow> 's \<Rightarrow> ('f list \<times> 'r \<times> 's) option" where
  "calls read 0 r s = Some ([], r, s)"
| "calls read (Suc n) r s =
     (case read r s of
        Some (Ready (Inr f), r, s) \<Rightarrow> map_option (\<lambda>(fs, rs). (f # fs, rs)) (calls read n r s)
      | Some (_, r, s) \<Rightarrow> Some ([], r, s)
      | None \<Rightarrow> None)"

text \<open>
  A source of frames: a reader on a socket that is specified by a decoder of the bytes that both hold.
\<close>

locale frame_source =
  fixes decode :: "'c \<Rightarrow> bytes \<Rightarrow> ('f poll \<times> 'c \<times> bytes) option"
    and read :: "'r \<Rightarrow> 's \<Rightarrow> ('f poll \<times> 'r \<times> 's) option"
    and ready :: "'r \<Rightarrow> 's \<Rightarrow> bool"
    and core :: "'r \<Rightarrow> 'c"
    and held :: "'r \<Rightarrow> 's \<Rightarrow> bytes"
  assumes read_decodes: "ready r s \<Longrightarrow> decode (core r) (held r s) = Some (p, c, rest) \<Longrightarrow>
      \<exists>r' s'. read r s = Some (p, r', s') \<and> ready r' s' \<and> core r' = c \<and> held r' s' = rest"
    and decode_front: "decode c bs = Some (Ready x, c', rest) \<Longrightarrow>
      decode c (bs @ tail) = Some (Ready x, c', rest @ tail)"
begin

text \<open>Successive calls give the frames that the decoder finds in the bytes, however those arrive.\<close>

lemma calls_decode:
  "ready r s \<Longrightarrow> calls decode n (core r) (held r s) = Some (fs, c, rest) \<Longrightarrow>
    \<exists>r' s'. calls read n r s = Some (fs, r', s') \<and> ready r' s' \<and> core r' = c \<and> held r' s' = rest"
proof (induction n arbitrary: r s fs)
  case (Suc n)
  from Suc.prems(2) obtain p c1 rest1 where at: "decode (core r) (held r s) = Some (p, c1, rest1)"
    by (auto split: option.splits)
  from read_decodes [OF Suc.prems(1) this] obtain r1 s1 where
    read: "read r s = Some (p, r1, s1)" "ready r1 s1" "core r1 = c1" "held r1 s1 = rest1" by blast
  show ?case
  proof (cases "\<exists>f. p = Ready (Inr f)")
    case True
    then obtain f where p: "p = Ready (Inr f)" by blast
    with at Suc.prems(2) obtain gs where more: "calls decode n (core r1) (held r1 s1) = Some (gs, c, rest)"
      and fs: "fs = f # gs" using read(3,4) by auto
    from Suc.IH [OF read(2) more] obtain r' s' where
      "calls read n r1 s1 = Some (gs, r', s')" "ready r' s'" "core r' = c" "held r' s' = rest" by blast
    with read(1) p fs show ?thesis by simp
  next
    case False
    with at read Suc.prems(2) show ?thesis by (auto split: poll.splits sum.splits)
  qed
qed auto

lemma calls_front:
  assumes "decode c bs = Some (Ready (Inr f), c1, [])" and "calls decode n c1 tail = Some (fs, y)"
  shows "calls decode (Suc n) c (bs @ tail) = Some (f # fs, y)"
  using decode_front [OF assms(1), of tail] assms(2) by simp

end

text \<open>The decoder of the codec on a stream of bytes, and the reader of the pool, which follows it.\<close>

definition decode_from ::
    "('d, 'k) noise_decoder \<Rightarrow> 'd \<times> 'k \<Rightarrow> bytes \<Rightarrow> (either_frame poll \<times> ('d \<times> 'k) \<times> bytes) option" where
  "decode_from D = (\<lambda>(d, k) bs. map_option (\<lambda>(p, d, k, rest). (p, (d, k), rest)) (decode_stream D d k bs))"

lemma decode_from_iff:
  "decode_from D (d, k) bs = Some (p, (d', k'), rest) \<longleftrightarrow> decode_stream D d k bs = Some (p, d', k', rest)"
  by (auto simp: decode_from_def)

definition read_core :: "('d, 'k) noise_read_half \<Rightarrow> 'd \<times> 'k" where
  "read_core r = (rh_decoder r, rh_state r)"

definition read_ready :: "('d, 'k) noise_decoder \<Rightarrow> ('d, 'k) noise_read_half \<Rightarrow> arrival list \<Rightarrow> bool" where
  "read_ready D r s \<longleftrightarrow> reader_ok D r \<and> open_socket s"

definition read_held :: "('d, 'k) noise_read_half \<Rightarrow> arrival list \<Rightarrow> bytes" where
  "read_held r s = buffered r @ socket_bytes s"

interpretation frames: frame_source "decode_from D" "read_frame D" "read_ready D" read_core read_held for D
proof
  fix r s p c rest
  assume ok: "read_ready D r s" and at: "decode_from D (read_core r) (read_held r s) = Some (p, c, rest)"
  then have "decode_stream D (rh_decoder r) (rh_state r) (buffered r @ socket_bytes s) = Some (p, fst c, snd c, rest)"
    by (auto simp: decode_from_def read_core_def read_held_def)
  from decode_stream_read [OF this _ _ refl refl refl] ok obtain p' r' s' where
    run: "read_frame D r s = Some (p', r', s')" by (auto simp: read_ready_def)
  from read_frame_streams [OF this] ok at run
  show "\<exists>r' s'. read_frame D r s = Some (p, r', s') \<and> read_ready D r' s' \<and> read_core r' = c \<and> read_held r' s' = rest"
    by (auto simp: decode_from_def read_core_def read_held_def read_ready_def reader_view_def)
next
  fix c bs x c' rest tail
  assume "decode_from D c bs = Some (Ready x, c', rest)"
  then have "decode_stream D (fst c) (snd c) bs = Some (Ready x, fst c', snd c', rest)"
    by (auto simp: decode_from_def split: prod.splits)
  from decode_stream_append [OF this refl, of tail]
  show "decode_from D c (bs @ tail) = Some (Ready x, c', rest @ tail)"
    by (cases c, cases c') (simp add: decode_from_def)
qed

section \<open>The laws of the codec\<close>

text \<open>The frame of a message, as \<open>write_message\<close> builds it.\<close>

definition message_frame ::
    "('d, 'e, 'k, 'role, 'm, 'f) noise_codec \<Rightarrow> 'm \<times> u8 \<times> bool \<Rightarrow> either_frame option" where
  "message_frame K = (\<lambda>(msg, mt, is_channel_msg).
     case from_message K msg mt 0 is_channel_msg of
       None \<Rightarrow> None
     | Some f \<Rightarrow> map_option (from_bytes_unchecked K)
         (serialize_frame K f (replicate (HEADER_SIZE K + get_size K msg) 0)))"

text \<open>
  \<open>link (e, ke) (d, kd)\<close> pairs the encoder of one end with the decoder of the other. The bytes that the
  one gives for the frame of a message are decoded to this frame by the other, and leave the pair
  linked; so the frames have to be decoded in the order in which they were encoded, each once. Without
  bytes a linked decoder waits.
\<close>

definition noise_link ::
    "('d, 'e, 'k, 'role, 'm, 'f) noise_codec \<Rightarrow> ('e \<times> 'k \<Rightarrow> 'd \<times> 'k \<Rightarrow> bool) \<Rightarrow> bool" where
  "noise_link K link \<longleftrightarrow>
     (\<forall>e c. link e c \<longrightarrow> (\<exists>c'. decode_from (nc_decoder K) c [] = Some (Pending, c', []))) \<and>
     (\<forall>e ke c m f out e' ke'. link (e, ke) c \<and> message_frame K m = Some f \<and> encode K e f ke = (Some out, e', ke') \<longrightarrow>
       (\<exists>c'. decode_from (nc_decoder K) c out = Some (Ready (Inr f), c', []) \<and> link (e', ke') c'))"

text \<open>
  The handshake with its two messages \<open>hello\<close> and \<open>reply\<close>: each end accepts what the other sends, in a
  decoder of its own, and the transport states that come out are linked both ways. A decoder that asks
  for no bytes is not changed when it is given none.
\<close>

definition noise_handshake ::
    "('d, 'e, 'k, 'role, 'm, 'f) noise_codec \<Rightarrow> 'role \<Rightarrow> 'role \<Rightarrow> bytes \<Rightarrow> bytes \<Rightarrow>
     ('e \<times> 'k \<Rightarrow> 'd \<times> 'k \<Rightarrow> bool) \<Rightarrow> bool" where
  "noise_handshake K initiator responder hello reply link \<longleftrightarrow>
     (\<forall>d. writable_len (nc_decoder K) d = 0 \<longrightarrow> fill_writable (nc_decoder K) d [] = d) \<and>
     (\<exists>f0 f1 k0 k1 k2 k3 ke0 ke1 ti tr c0 c1.
       step_0 K (state_initialized K initiator) = Some (f0, k0) \<and>
       encode K (encoder_new K) (Hand_Shake f0) k0 = (Some hello, ke0, k1) \<and>
       decode_from (nc_decoder K) (decoder_new K, state_not_initialized K responder) hello =
         Some (Ready (Inr (Hand_Shake f0)), c0, []) \<and>
       length f0 = ELLSWIFT_ENCODING_SIZE K \<and>
       step_1 K (state_initialized K responder) f0 = Some (f1, tr, k2) \<and>
       encode K (encoder_new K) (Hand_Shake f1) k2 = (Some reply, ke1, k3) \<and>
       decode_from (nc_decoder K) (decoder_new K, state_not_initialized K initiator) reply =
         Some (Ready (Inr (Hand_Shake f1)), c1, []) \<and>
       length f1 = INITIATOR_EXPECTED_HANDSHAKE_MESSAGE_SIZE K \<and>
       step_2 K k1 f1 = Some ti \<and>
       link (ke0, ti) (decoder_new K, tr) \<and> link (ke1, tr) (decoder_new K, ti))"

section \<open>The handshakes\<close>

lemma read_exact_available:
  "open_socket s \<Longrightarrow> 0 < n \<Longrightarrow> n \<le> length (socket_bytes s) \<Longrightarrow>
    \<exists>s'. read_exact ctxt n s = (Ready (Inr (take n (socket_bytes s))), s') \<and>
      socket_bytes s' = drop n (socket_bytes s) \<and> open_socket s'"
proof (induction s arbitrary: n)
  case (Cons a s)
  then obtain bs where a: "a = Data bs" "bs \<noteq> []" "open_socket s" by (cases a) auto
  show ?case
  proof (cases "length bs < n")
    case True
    with Cons.prems a have "0 < n - length bs" "n - length bs \<le> length (socket_bytes s)" by auto
    with Cons.IH [OF a(3)] obtain s' where
      "read_exact ctxt (n - length bs) s = (Ready (Inr (take (n - length bs) (socket_bytes s))), s')"
      "socket_bytes s' = drop (n - length bs) (socket_bytes s)" "open_socket s'" by blast
    with a True show ?thesis by simp
  next
    case False
    with Cons.prems a show ?thesis by (auto simp: push_back_def)
  qed
qed simp

text \<open>The loop that reads a handshake message follows the decoder on the stream, too.\<close>

lemma handshake_read_streams:
  assumes "decode_stream D d k bs = Some y" and "y = (Ready (Inr (Hand_Shake f)), d', k', rest)"
    and "open_socket s" and "socket_bytes s = bs"
    and idle: "\<forall>d. writable_len D d = 0 \<longrightarrow> fill_writable D d [] = d"
  shows "\<exists>s'. handshake_read D rc dc stall d k s = Some (Inr f, s') \<and> socket_bytes s' = rest \<and> open_socket s'"
proof -
  define got where "got d s = (if writable_len D d > 0 then read_exact rc (writable_len D d) s else (Ready (Inr []), s))" for d s
  have round: "\<exists>buf s'. got d s = (Ready (Inr buf), s') \<and> open_socket s' \<and>
      socket_bytes s' = drop (writable_len D d) (socket_bytes s) \<and>
      (if writable_len D d > 0 then fill_writable D d buf else d) =
        fill_writable D d (take (writable_len D d) (socket_bytes s))"
    if "open_socket s" "writable_len D d \<le> length (socket_bytes s)" for d s
    using read_exact_available [OF that(1) _ that(2), of rc] that idle by (auto simp: got_def)
  have turn: "handshake_read D rc dc stall d k s =
      (case decode_round_of D d k (socket_bytes s) of
         Inl (Ready (Inr (Hand_Shake f)), _) \<Rightarrow> Some (Inr f, snd (got d s))
       | Inl (Ready (Inr (Sv2 _ _)), _) \<Rightarrow> Some (Inl (Bail ''expected HandShake frame, got Sv2 frame''), snd (got d s))
       | Inl (_, _) \<Rightarrow> Some (Inl (Bail dc), snd (got d s))
       | Inr (d1, k1, _) \<Rightarrow> handshake_read D rc dc stall d1 k1 (snd (got d s)))"
    if "open_socket s" "writable_len D d \<le> length (socket_bytes s)" for d k s
  proof -
    from round [OF that(1,2)] obtain buf s' where "got d s = (Ready (Inr buf), s')"
      "(if writable_len D d > 0 then fill_writable D d buf else d) =
        fill_writable D d (take (writable_len D d) (socket_bytes s))" by blast
    with that(2) show ?thesis
      by (subst handshake_read.simps)
        (simp add: got_def decode_round_of_def Let_def not_less split: prod.split decoded.split either_frame.split)
  qed
  show ?thesis
    using assms(1-4)
  proof (induction d k bs y arbitrary: s rule: decode_stream_induct)
    case (stops d k bs y)
    then have le: "writable_len D d \<le> length (socket_bytes s)"
      by (auto simp: decode_round_of_def Let_def split: if_splits)
    have "rest = drop (writable_len D d) (socket_bytes s)"
      using stops le by (auto simp: decode_round_of_def Let_def split: prod.splits decoded.splits)
    with round [OF stops.prems(2) le] stops turn [OF stops.prems(2) le, of k] show ?case by auto
  next
    case (again d k bs d2 k2 bs2 y)
    then have le: "writable_len D d \<le> length (socket_bytes s)"
      by (auto simp: decode_round_of_def Let_def split: if_splits)
    have "bs2 = drop (writable_len D d) (socket_bytes s)"
      using again.hyps again.prems(3) le
      by (auto simp: decode_round_of_def Let_def split: if_splits prod.splits decoded.splits)
    with round [OF again.prems(2) le] again.IH [OF again.prems(1), of "snd (got d s)"]
      turn [OF again.prems(2) le, of k] again.hyps again.prems(3)
    show ?case by auto
  qed
qed

lemma handshake_message_read:
  assumes "decode_from D (d, k) bs = Some (Ready (Inr (Hand_Shake f)), c, [])"
    and "\<forall>d. writable_len D d = 0 \<longrightarrow> fill_writable D d [] = d"
    and "open_socket s" and "socket_bytes s = bs @ tail"
  shows "\<exists>s'. handshake_read D rc dc stall d k s = Some (Inr f, s') \<and> socket_bytes s' = tail \<and> open_socket s'"
proof -
  have "decode_from D (d, k) (bs @ tail) = Some (Ready (Inr (Hand_Shake f)), c, tail)"
    using frames.decode_front [OF assms(1), of tail] by simp
  then have "decode_stream D d k (bs @ tail) = Some (Ready (Inr (Hand_Shake f)), fst c, snd c, tail)"
    by (auto simp: decode_from_def)
  from handshake_read_streams [OF this refl assms(3,4,2)] show ?thesis .
qed

text \<open>Both handshakes, on sockets that begin with the message of the other end.\<close>

lemma handshakes_run:
  assumes "noise_handshake K initiator responder hello reply link"
    and "open_socket s" and "socket_bytes s = hello @ tail"
    and "open_socket s2" and "socket_bytes s2 = reply @ tail2"
  obtains ti tr ke0 ke1 s' s2' where "link (ke0, ti) (decoder_new K, tr)" and "link (ke1, tr) (decoder_new K, ti)"
    and "accept_noise K responder True s = Some (Inr (new_halves K ke1 tr reply), s')"
    and "socket_bytes s' = tail" and "open_socket s'"
    and "connect_noise K initiator True s2 = Some (Inr (new_halves K ke0 ti hello), s2')"
    and "socket_bytes s2' = tail2" and "open_socket s2'"
proof -
  obtain f0 f1 k0 k1 k2 k3 ke0 ke1 ti tr c0 c1 where
    idle: "\<forall>d. writable_len (nc_decoder K) d = 0 \<longrightarrow> fill_writable (nc_decoder K) d [] = d" and
    init: "step_0 K (state_initialized K initiator) = Some (f0, k0)"
      "encode K (encoder_new K) (Hand_Shake f0) k0 = (Some hello, ke0, k1)" "step_2 K k1 f1 = Some ti"
      "length f1 = INITIATOR_EXPECTED_HANDSHAKE_MESSAGE_SIZE K" and
    at0: "decode_from (nc_decoder K) (decoder_new K, state_not_initialized K responder) hello =
      Some (Ready (Inr (Hand_Shake f0)), c0, [])" and
    resp: "length f0 = ELLSWIFT_ENCODING_SIZE K" "step_1 K (state_initialized K responder) f0 = Some (f1, tr, k2)"
      "encode K (encoder_new K) (Hand_Shake f1) k2 = (Some reply, ke1, k3)" and
    at1: "decode_from (nc_decoder K) (decoder_new K, state_not_initialized K initiator) reply =
      Some (Ready (Inr (Hand_Shake f1)), c1, [])" and
    links: "link (ke0, ti) (decoder_new K, tr)" "link (ke1, tr) (decoder_new K, ti)"
    using assms(1) unfolding noise_handshake_def by blast
  obtain s' where r: "handshake_read (nc_decoder K) ''handshake read'' ''handshake frame decode''
      (Some (Bail ''handshake timeout'')) (decoder_new K) (state_not_initialized K responder) s = Some (Inr f0, s')"
    and s': "socket_bytes s' = tail" "open_socket s'"
    using handshake_message_read [OF at0 idle assms(2,3)] by blast
  obtain s2' where i: "handshake_read (nc_decoder K) ''read Noise handshake reply'' ''handshake reply decode''
      None (decoder_new K) (state_not_initialized K initiator) s2 = Some (Inr f1, s2')"
    and s2': "socket_bytes s2' = tail2" "open_socket s2'"
    using handshake_message_read [OF at1 idle assms(4,5)] by blast
  have "accept_noise K responder True s = Some (Inr (new_halves K ke1 tr reply), s')"
    using r resp by (simp add: accept_noise_def accept_noise_with_timeout_def)
  moreover have "connect_noise K initiator True s2 = Some (Inr (new_halves K ke0 ti hello), s2')"
    using i init by (simp add: connect_noise_def)
  ultimately show thesis using that links s' s2' by blast
qed

section \<open>Messages\<close>

text \<open>Messages that are written one after another, until one fails.\<close>

fun write_messages ::
    "('d, 'e, 'k, 'role, 'm, 'f) noise_codec \<Rightarrow> ('m \<times> u8 \<times> bool) list \<Rightarrow> ('e, 'k) noise_write_half \<Rightarrow>
     unit outcome \<times> ('e, 'k) noise_write_half" where
  "write_messages K [] w = (Inr (), w)"
| "write_messages K ((msg, mt, chan) # ms) w =
     (case write_message K True msg mt chan w of
        (Inr _, w) \<Rightarrow> write_messages K ms w
      | (Inl e, w) \<Rightarrow> (Inl e, w))"

lemma write_message_encodes:
  assumes "write_message K True msg mt chan w = (Inr (), w')"
  obtains f out where "message_frame K (msg, mt, chan) = Some f"
    and "encode K (wh_encoder w) f (wh_state w) = (Some out, wh_encoder w', wh_state w')"
    and "wh_written w' = wh_written w @ out"
proof -
  obtain fr bs where raw: "from_message K msg mt 0 chan = Some fr"
    "serialize_frame K fr (replicate (HEADER_SIZE K + get_size K msg) 0) = Some bs"
    using assms by (auto simp: write_message_def Let_def split: option.splits)
  with assms have "write_raw_frame K True bs w = (Inr (), w')" by (simp add: write_message_raw)
  then obtain out where "encode K (wh_encoder w) (from_bytes_unchecked K bs) (wh_state w) =
      (Some out, wh_encoder w', wh_state w')" "wh_written w' = wh_written w @ out"
    by (auto simp: write_raw_frame_def split: prod.splits option.splits)
  with raw that show thesis by (simp add: message_frame_def)
qed

text \<open>The bytes of the messages, and the frames that a linked decoder finds in them.\<close>

lemma written_messages_decode:
  assumes "noise_link K link"
  shows "write_messages K ms w = (Inr (), w') \<Longrightarrow> link (wh_encoder w, wh_state w) c \<Longrightarrow>
    \<exists>bs fs c'. wh_written w' = wh_written w @ bs \<and> map Some fs = map (message_frame K) ms \<and>
      calls (decode_from (nc_decoder K)) (length ms) c bs = Some (fs, c', []) \<and>
      link (wh_encoder w', wh_state w') c'"
proof (induction ms arbitrary: w c)
  case (Cons m ms)
  obtain msg mt chan where m: "m = (msg, mt, chan)" by (metis prod_cases3)
  then obtain w1 where one: "write_message K True msg mt chan w = (Inr (), w1)"
    and more: "write_messages K ms w1 = (Inr (), w')"
    using Cons.prems(1) by (auto split: prod.splits sum.splits)
  obtain f out where f: "message_frame K m = Some f"
    and enc: "encode K (wh_encoder w) f (wh_state w) = (Some out, wh_encoder w1, wh_state w1)"
    and out: "wh_written w1 = wh_written w @ out"
    using write_message_encodes [OF one] m by blast
  obtain c1 where c1: "decode_from (nc_decoder K) c out = Some (Ready (Inr f), c1, [])"
    and link: "link (wh_encoder w1, wh_state w1) c1"
    using assms Cons.prems(2) f enc unfolding noise_link_def by blast
  obtain bs fs c' where "wh_written w' = wh_written w1 @ bs" "map Some fs = map (message_frame K) ms"
    and rest: "calls (decode_from (nc_decoder K)) (length ms) c1 bs = Some (fs, c', [])"
    and linked: "link (wh_encoder w', wh_state w') c'"
    using Cons.IH [OF more link] by blast
  with out f linked frames.calls_front [OF c1 rest] show ?case
    by (intro exI [of _ "out @ bs"] exI [of _ "f # fs"] exI [of _ c']) simp
qed simp

text \<open>What is written stays written, and the first bytes of an initiator are its first message.\<close>

lemma write_messages_prefix:
  "write_messages K ms w = (Inr (), w') \<Longrightarrow> \<exists>bs. wh_written w' = wh_written w @ bs"
proof (induction K ms w rule: write_messages.induct)
  case (2 K msg mt chan ms w)
  then obtain w1 where one: "write_message K True msg mt chan w = (Inr (), w1)"
    and "write_messages K ms w1 = (Inr (), w')"
    by (auto split: prod.splits sum.splits)
  with 2(1) [OF one [symmetric] refl] show ?case
    using write_message_encodes [OF one] by (metis append.assoc)
qed simp

lemma connect_noise_written:
  assumes "noise_handshake K initiator responder hello reply link"
    and "connect_noise K initiator True s = Some (Inr (r, w), s')"
  shows "wh_written w = hello"
proof -
  obtain f0 k0 ke0 k1 where "step_0 K (state_initialized K initiator) = Some (f0, k0)"
    "encode K (encoder_new K) (Hand_Shake f0) k0 = (Some hello, ke0, k1)"
    using assms(1) unfolding noise_handshake_def by blast
  with assms(2) show ?thesis
    by (auto simp: connect_noise_def new_halves_def split: if_splits sum.splits option.splits)
qed

text \<open>One direction of a connection after the handshakes.\<close>

lemma messages_cross:
  assumes "noise_link K link" and "link (e, ke) (decoder_new K, kd)"
    and "write_messages K ms (snd (new_halves K e ke hs)) = (Inr (), w)"
    and "open_socket s" and "wh_written w = hs @ socket_bytes s"
  shows "\<exists>fs r' s'. calls (read_frame (nc_decoder K)) (length ms) (fst (new_halves K e' kd hs')) s = Some (fs, r', s') \<and>
    map Some fs = map (message_frame K) ms \<and> read_held r' s' = []"
proof -
  have "link (wh_encoder (snd (new_halves K e ke hs)), wh_state (snd (new_halves K e ke hs))) (decoder_new K, kd)"
    using assms(2) by (simp add: new_halves_def)
  from written_messages_decode [OF assms(1,3) this] obtain bs fs c' where
    bs: "wh_written w = wh_written (snd (new_halves K e ke hs)) @ bs" and fs: "map Some fs = map (message_frame K) ms"
    and dec: "calls (decode_from (nc_decoder K)) (length ms) (decoder_new K, kd) bs = Some (fs, c', [])" by blast
  let ?r = "fst (new_halves K e' kd hs')"
  have "bs = socket_bytes s" using bs assms(5) by (simp add: new_halves_def)
  with dec have "calls (decode_from (nc_decoder K)) (length ms) (read_core ?r) (read_held ?r s) = Some (fs, c', [])"
    by (simp add: read_core_def read_held_def) (simp add: new_halves_def)
  moreover have "read_ready (nc_decoder K) ?r s" using assms(4) by (simp add: read_ready_def)
  ultimately show ?thesis using frames.calls_decode fs by blast
qed

section \<open>The sample codec keeps the laws\<close>

definition sample_link :: "unit \<times> bool \<Rightarrow> (nat \<times> bool \<times> bytes) \<times> bool \<Rightarrow> bool" where
  "sample_link = (\<lambda>(_, ke) (d, kd). \<not> ke \<and> \<not> kd \<and> d \<in> {(0, False, []), (1, False, [])})"

lemma sample_decodes:
  assumes "sample_frame bs = Some out" and "d \<in> {(0, False, []), (1, False, [])}"
  shows "decode_from sample_decoder (d, k) out =
    Some (Ready (Inr (if k then Hand_Shake bs else Sv2 (Some 0) bs)), ((1, False, []), k), [])"
proof -
  have len: "length bs < 256" and out: "out = of_nat (length bs) # bs"
    using assms(1) by (auto simp: sample_frame_def split: if_splits)
  have n: "unat (of_nat (length bs) :: u8) = length bs" using len by (simp add: unat_of_nat)
  have one: "decode_stream sample_decoder (1, False, []) k out =
      Some (Ready (Inr (if k then Hand_Shake bs else Sv2 (Some 0) bs)), (1, False, []), k, [])"
  proof (cases "bs = []")
    case True
    then show ?thesis unfolding out by (subst decode_stream.simps) (simp add: sample_decoder_def)
  next
    case False
    then have "(of_nat (length bs) :: u8) \<noteq> 0" using n by (metis length_0_conv unat_0)
    then have "decode_stream sample_decoder (1, False, []) k out =
        decode_stream sample_decoder (length bs, True, []) k bs"
      unfolding out using n False by (subst decode_stream.simps) (simp add: sample_decoder_def)
    also have "\<dots> = Some (Ready (Inr (if k then Hand_Shake bs else Sv2 (Some 0) bs)), (1, False, []), k, [])"
      using False by (subst decode_stream.simps) (simp add: sample_decoder_def)
    finally show ?thesis .
  qed
  have "decode_stream sample_decoder (0, False, []) k out = decode_stream sample_decoder (1, False, []) k out"
    by (subst decode_stream.simps) (simp add: sample_decoder_def)
  with one assms(2) show ?thesis by (auto simp: decode_from_def)
qed

lemma sample_idle:
  "sample_link e c \<Longrightarrow> decode_from sample_decoder c [] = Some (Pending, ((1, False, []), False), [])"
  by (cases c) (auto simp: sample_link_def decode_from_def decode_stream.simps sample_decoder_def split: prod.splits)

lemma sample_transfers:
  assumes link: "sample_link (e, ke) c" and m: "message_frame sample_noise m = Some f"
    and enc: "encode sample_noise e f ke = (Some out, e', ke')"
  shows "\<exists>c'. decode_from sample_decoder c out = Some (Ready (Inr f), c', []) \<and> sample_link (e', ke') c'"
proof -
  obtain d where c: "c = (d, False)" "\<not> ke" "d \<in> {(0, False, []), (1, False, [])}"
    using link by (cases c) (auto simp: sample_link_def)
  obtain bs where f: "f = Sv2 (Some 0) bs"
    using m by (auto simp: message_frame_def sample_noise_def split: prod.splits option.splits)
  with enc have "sample_frame bs = Some out" "ke' = ke" by (simp_all add: sample_noise_def)
  with sample_decodes [of bs out d False] c f show ?thesis
    by (intro exI [of _ "((1, False, []), False)"]) (simp add: sample_link_def)
qed

lemma sample_noise_link: "noise_link sample_noise sample_link"
proof -
  have "nc_decoder sample_noise = sample_decoder" by (simp add: sample_noise_def)
  then show ?thesis unfolding noise_link_def using sample_idle sample_transfers by simp blast
qed

lemma sample_noise_handshake: "noise_handshake sample_noise () () [2, 1, 2] [2, 2, 1] sample_link"
proof -
  have frames: "sample_frame [1, 2] = Some [2, 1, 2]" "sample_frame [2, 1] = Some [2, 2, 1]"
    by (simp_all add: sample_frame_def)
  from frames [THEN sample_decodes, of "(0, False, [])" True] frames show ?thesis
    unfolding noise_handshake_def
    by (auto simp: sample_noise_def sample_link_def sample_decoder_def)
qed

section \<open>Properties\<close>

text \<open>
  C15: The two handshakes of the program fit together: on a socket that begins with what the initiator
  sends the responder returns, having sent its reply, and on a socket that begins with this reply the
  initiator returns; each leaves the bytes behind the handshake for the first reads of the transport,
  however the bytes were split on their way.
\<close>

theorem handshakes_complete:
  assumes "noise_handshake K initiator responder hello reply link"
    and "open_socket s" and "socket_bytes s = hello @ tail"
    and "open_socket s2" and "socket_bytes s2 = reply @ tail2"
  shows "\<exists>r w s' r2 w2 s2'. accept_noise K responder True s = Some (Inr (r, w), s') \<and>
    wh_written w = reply \<and> buffered r @ socket_bytes s' = tail \<and>
    connect_noise K initiator True s2 = Some (Inr (r2, w2), s2') \<and>
    wh_written w2 = hello \<and> buffered r2 @ socket_bytes s2' = tail2"
  by (rule handshakes_run [OF assms]) (auto simp: new_halves_def buffered_def)

theorem handshakes_complete_witness:
  "\<exists>r w s' r2 w2 s2'. accept_noise sample_noise () True [Data [2], Data [1, 2, 9]] = Some (Inr (r, w), s') \<and>
    wh_written w = [2, 2, 1] \<and> buffered r @ socket_bytes s' = [9] \<and>
    connect_noise sample_noise () True [Data [2, 2], Data [1]] = Some (Inr (r2, w2), s2') \<and>
    wh_written w2 = [2, 1, 2] \<and> buffered r2 @ socket_bytes s2' = []"
  by (rule handshakes_complete [OF sample_noise_handshake]) simp_all

text \<open>
  C11: Behind the handshakes every message reaches the other end, once and in order, in both directions:
  when both ends have written messages with success, and all the bytes that either wrote arrive at the
  other in non-empty pieces of any size, then as many calls of \<open>read_frame\<close> as there were messages give
  exactly the frames of these messages in the order of writing, and nothing is left over.
\<close>

theorem written_messages_are_read:
  assumes "noise_handshake K initiator responder hello reply link" and "noise_link K link"
    and "connect_noise K initiator True si = Some (Inr (ri, wi), si')"
    and "accept_noise K responder True sr = Some (Inr (rr, wr), sr')"
    and "write_messages K msi wi = (Inr (), wi')" and "write_messages K msr wr = (Inr (), wr')"
    and "open_socket si" and "socket_bytes si = wh_written wr'"
    and "open_socket sr" and "socket_bytes sr = wh_written wi'"
  shows "\<exists>fi fr r r' s s'.
    calls (read_frame (nc_decoder K)) (length msi) rr sr' = Some (fi, r, s) \<and>
    map Some fi = map (message_frame K) msi \<and> buffered r @ socket_bytes s = [] \<and>
    calls (read_frame (nc_decoder K)) (length msr) ri si' = Some (fr, r', s') \<and>
    map Some fr = map (message_frame K) msr \<and> buffered r' @ socket_bytes s' = []"
proof -
  obtain bsi where sr: "socket_bytes sr = hello @ bsi"
    using write_messages_prefix [OF assms(5)] connect_noise_written [OF assms(1,3)] assms(10) by auto
  have "wh_written wr = reply"
  proof (rule handshakes_run [OF assms(1) assms(9) sr, of "if reply = [] then [] else [Data reply]" "[]"])
    fix ke1 tr s'
    assume "accept_noise K responder True sr = Some (Inr (new_halves K ke1 tr reply), s')"
    with assms(4) show ?thesis by (auto simp: new_halves_def)
  qed auto
  then obtain bsr where si: "socket_bytes si = reply @ bsr"
    using write_messages_prefix [OF assms(6)] assms(8) by auto
  obtain ti tr ke0 ke1 where links: "link (ke0, ti) (decoder_new K, tr)" "link (ke1, tr) (decoder_new K, ti)"
    and accepted: "(rr, wr) = new_halves K ke1 tr reply" "socket_bytes sr' = bsi" "open_socket sr'"
    and connected: "(ri, wi) = new_halves K ke0 ti hello" "socket_bytes si' = bsr" "open_socket si'"
    by (rule handshakes_run [OF assms(1) assms(9) sr assms(7) si]) (use assms(3,4) in auto)
  have pairs: "rr = fst (new_halves K ke1 tr reply)" "wr = snd (new_halves K ke1 tr reply)"
    "ri = fst (new_halves K ke0 ti hello)" "wi = snd (new_halves K ke0 ti hello)"
    using accepted(1) connected(1) by (metis fst_conv snd_conv)+
  have bytes: "wh_written wi' = hello @ socket_bytes sr'" "wh_written wr' = reply @ socket_bytes si'"
    using assms(8,10) si sr accepted(2) connected(2) by simp_all
  from messages_cross [OF assms(2) links(1) _ accepted(3) bytes(1), of msi ke1 reply]
    messages_cross [OF assms(2) links(2) _ connected(3) bytes(2), of msr ke0 hello]
  show ?thesis using assms(5,6) unfolding pairs read_held_def by blast
qed

theorem written_messages_are_read_witness:
  "\<exists>ri wi si rr wr sr wi' wr'.
    connect_noise sample_noise () True [Data [2, 2], Data [1, 0]] = Some (Inr (ri, wi), si) \<and>
    accept_noise sample_noise () True [Data [2, 1], Data [2, 2, 7], Data [8, 1, 5]] = Some (Inr (rr, wr), sr) \<and>
    write_messages sample_noise [([7, 8], 0, False), ([5], 0, True)] wi = (Inr (), wi') \<and>
    write_messages sample_noise [([], 0, False)] wr = (Inr (), wr') \<and>
    (\<exists>r s r' s'.
      calls (read_frame sample_decoder) 2 rr sr = Some ([Sv2 (Some 0) [7, 8], Sv2 (Some 0) [5]], r, s) \<and>
      buffered r @ socket_bytes s = [] \<and>
      calls (read_frame sample_decoder) 1 ri si = Some ([Sv2 (Some 0) []], r', s') \<and>
      buffered r' @ socket_bytes s' = [])"
proof -
  let ?si = "[Data [2, 2], Data [1, 0]]" and ?sr = "[Data [2, 1], Data [2, 2, 7], Data [8, 1, 5]]"
  let ?mi = "[([7, 8] :: bytes, 0 :: u8, False), ([5], 0, True)]" and ?mr = "[([] :: bytes, 0 :: u8, False)]"
  obtain ri wi si rr wr sr where con: "connect_noise sample_noise () True ?si = Some (Inr (ri, wi), si)"
    and acc: "accept_noise sample_noise () True ?sr = Some (Inr (rr, wr), sr)"
    and at: "wi = \<lparr>wh_encoder = (), wh_state = False, wh_written = [2, 1, 2]\<rparr>"
      "wr = \<lparr>wh_encoder = (), wh_state = False, wh_written = [2, 2, 1]\<rparr>"
    by (rule handshakes_run [OF sample_noise_handshake, of ?sr "[2, 7, 8, 1, 5]" ?si "[0]"])
      (auto simp: new_halves_def sample_link_def)
  obtain wi' wr' where written: "write_messages sample_noise ?mi wi = (Inr (), wi')"
      "write_messages sample_noise ?mr wr = (Inr (), wr')"
      "wh_written wi' = socket_bytes ?sr" "wh_written wr' = socket_bytes ?si"
    using at by (simp add: write_message_def sample_noise_def sample_frame_def)
  have "socket_bytes ?si = wh_written wr'" "socket_bytes ?sr = wh_written wi'" "open_socket ?si" "open_socket ?sr"
    using written(3,4) by simp_all
  from written_messages_are_read [OF sample_noise_handshake sample_noise_link con acc written(1,2) this(3,1,4,2)]
  obtain fi fr r r' s s' where
    i: "calls (read_frame (nc_decoder sample_noise)) (length ?mi) rr sr = Some (fi, r, s)"
      "map Some fi = map (message_frame sample_noise) ?mi" "buffered r @ socket_bytes s = []" and
    r: "calls (read_frame (nc_decoder sample_noise)) (length ?mr) ri si = Some (fr, r', s')"
      "map Some fr = map (message_frame sample_noise) ?mr" "buffered r' @ socket_bytes s' = []" by blast
  have frames: "fi = [Sv2 (Some 0) [7, 8], Sv2 (Some 0) [5]]" "fr = [Sv2 (Some 0) []]"
    using i(2) r(2) by (auto simp: message_frame_def sample_noise_def sample_frame_def)
  have "nc_decoder sample_noise = sample_decoder" "length ?mi = 2" "length ?mr = 1"
    by (simp_all add: sample_noise_def)
  with i r frames con acc written(1,2) show ?thesis by metis
qed

end
