(* ===== verification/Peer.thy ===== *)
theory Peer
  imports Startup Frame_Link
begin

text \<open>
  A peer that connects and writes messages with the program's own initiator and writer, against a
  connection task of the pool: \<open>Frame_Link\<close> and \<open>Session\<close> put together.
\<close>

section \<open>Reading a written stream\<close>

text \<open>
  When the calls of a decoder give \<open>fs\<close> and then it waits, what a reader of the same bytes has got at any
  moment is an initial part of \<open>fs\<close>, and the rest of the stream gives the rest of \<open>fs\<close>.
\<close>

lemma stream_reads_calls:
  assumes "stream_reads D d k bs gs d' k' rest" and "calls (decode_from D) n (d, k) bs = Some (fs, c, [])"
    and "decode_from D c [] = Some (Pending, c', [])"
  shows "length gs \<le> n \<and> gs = take (length gs) fs \<and>
    calls (decode_from D) (n - length gs) (d', k') rest = Some (drop (length gs) fs, c, [])"
  using assms
proof (induction rule: stream_reads.induct)
  case (one_more d k bs gs d1 k1 bs1 f d2 k2 bs2)
  then have IH: "length gs \<le> n" "gs = take (length gs) fs"
    "calls (decode_from D) (n - length gs) (d1, k1) bs1 = Some (drop (length gs) fs, c, [])" by auto
  have at: "decode_from D (d1, k1) bs1 = Some (Ready (Inr f), (d2, k2), bs2)"
    using one_more.hyps(2) by (simp add: decode_from_iff)
  obtain m where m: "n - length gs = Suc m"
    using IH(3) at one_more.prems(2) by (cases "n - length gs") auto
  with IH(3) at obtain hs where hs: "f # hs = drop (length gs) fs"
    and more: "calls (decode_from D) m (d2, k2) bs2 = Some (hs, c, [])" by auto
  have "take (Suc (length gs)) fs = gs @ [f]" using IH(2) hs [symmetric]
    by (metis append_take_drop_id length_drop length_Cons nth_via_drop take_Suc_conv_app_nth zero_less_Suc zero_less_diff)
  moreover have "drop (Suc (length gs)) fs = hs" using hs [symmetric] by (metis drop_Suc tl_drop list.sel(3))
  moreover have "n - Suc (length gs) = m" "Suc (length gs) \<le> n" using m by simp_all
  ultimately show ?case using more by simp
qed simp

lemma stream_waits:
  assumes "calls (decode_from D) n (d, k) rest = Some (fs, y)" and "decode_stream D d k rest = Some (Pending, z)"
  shows "fs = []"
proof (cases n)
  case (Suc m)
  have "\<exists>c r. decode_from D (d, k) rest = Some (Pending, c, r)" using assms(2) by (cases z) (auto simp: decode_from_def)
  with Suc assms(1) show ?thesis by auto
qed (use assms(1) in simp)

section \<open>Properties\<close>

text \<open>
  C10: What a peer writes is what the connection task handles. After the handshake of the program's
  initiator, with any messages written behind it, a connection task whose socket delivers these bytes
  in non-empty pieces, the first message of the handshake in time, completes its handshake; the frames
  among the events of its state machine are the first of the peer's messages, in order, each once,
  while templates keep arriving and dropping its reads. When the task has not ended and its reader
  waits, they are all of them.
\<close>

theorem peer_messages_handled:
  assumes "noise_handshake K initiator responder hello reply link" and "noise_link K link"
    and "decoder_ok (nc_decoder K)" and "to_responder kp (sv_keypair srv) = Inr responder"
    and "connect_noise K initiator True si = Some (Inr (ri, wi), si')"
    and "open_socket si" and "socket_bytes si = reply @ tail"
    and "write_messages K ms wi = (Inr (), w)"
    and "open_socket socket" and "\<forall>a. Arrived a \<in> set es \<longrightarrow> open_socket [a]"
    and "socket_bytes socket = hello @ early" and "wh_written w = socket_bytes socket @ concat (map arrived es)"
  shows "\<exists>s evs fs. handle_connection L C db K kp srv n True socket faults es = Some (Inr s) \<and>
    sn_conn s = fold (connection_step L C db) evs (accept_connection (sv_pool_address srv) n faults) \<and>
    filter from_templates evs = List.map_filter template_event es \<and>
    map Some fs = map (message_frame K) ms \<and> prefix (handled_frames evs) fs \<and>
    (\<not> ended (sn_conn s) \<and>
      map_option fst (read_frame (nc_decoder K) (sn_reader s) (sn_socket s)) = Some Pending \<longrightarrow> handled_frames evs = fs)"
proof -
  let ?D = "nc_decoder K" and ?later = "concat (map arrived es)"
  obtain ti tr ke0 ke1 rest where link: "link (ke0, ti) (decoder_new K, tr)"
    and acc: "accept_noise K responder True socket = Some (Inr (new_halves K ke1 tr reply), rest)"
    and rest: "socket_bytes rest = early" "open_socket rest"
    and connected: "(ri, wi) = new_halves K ke0 ti hello"
    by (rule handshakes_run [OF assms(1,9,11,6,7)]) (use assms(5) in simp)
  from connected have wi: "wi = snd (new_halves K ke0 ti hello)" by (metis snd_conv)
  let ?r = "fst (new_halves K ke1 tr reply)" and ?c = "accept_connection (sv_pool_address srv) n faults"
  define s where "s = session_run L C db ?D es (session_start ?r rest ?c)"
  have run: "handle_connection L C db K kp srv n True socket faults es = Some (Inr s)"
    using assms(4) acc
    by (simp add: handle_connection_def handle_connection_start_def s_def split: prod.split)
  have fresh: "rh_decoder ?r = decoder_new K" "rh_state ?r = tr" by (simp_all add: new_halves_def)
  obtain evs d k rest' where conn: "sn_conn s = fold (connection_step L C db) evs ?c"
      "filter from_templates evs = List.map_filter template_event es"
    and reads: "stream_reads ?D (decoder_new K) tr (early @ ?later) (handled_frames evs) d k rest'"
    and poll: "\<not> ended (sn_conn s) \<longrightarrow>
      map_option fst (read_frame ?D (sn_reader s) (sn_socket s)) = map_option fst (decode_stream ?D d k rest')"
    using session_stream [OF assms(3) new_halves_ok rest(2) assms(10) s_def, unfolded fresh rest(1)] by blast
  have linked: "link (wh_encoder wi, wh_state wi) (decoder_new K, tr)"
    using link by (simp add: wi new_halves_def)
  obtain bs fs c where bs: "wh_written w = wh_written wi @ bs" and fs: "map Some fs = map (message_frame K) ms"
    and dec: "calls (decode_from ?D) (length ms) (decoder_new K, tr) bs = Some (fs, c, [])"
    and idle: "\<exists>c'. decode_from ?D c [] = Some (Pending, c', [])"
    using written_messages_decode [OF assms(2,8) linked] assms(2) unfolding noise_link_def by blast
  have "bs = early @ ?later" using bs assms(11,12) by (simp add: wi new_halves_def)
  with dec idle stream_reads_calls [OF reads] have
    pre: "handled_frames evs = take (length (handled_frames evs)) fs" and
    more: "calls (decode_from ?D) (length ms - length (handled_frames evs)) (d, k) rest' =
      Some (drop (length (handled_frames evs)) fs, c, [])" by blast+
  have "handled_frames evs = fs" if live: "\<not> ended (sn_conn s)"
    and waits: "map_option fst (read_frame ?D (sn_reader s) (sn_socket s)) = Some Pending"
  proof -
    obtain z where "decode_stream ?D d k rest' = Some (Pending, z)" using live waits poll by auto
    from stream_waits [OF more this] pre show ?thesis by (metis drop_eq_Nil take_all)
  qed
  moreover have "prefix (handled_frames evs) fs" using pre by (metis take_is_prefix)
  ultimately show ?thesis using run conn fs by blast
qed

theorem peer_messages_handled_witness:
  "\<exists>ri wi si w s evs. connect_noise sample_noise () True [Data [2, 2, 1]] = Some (Inr (ri, wi), si) \<and>
    write_messages sample_noise [([7, 8], 0, False)] wi = (Inr (), w) \<and>
    wh_written w = [2, 1, 2, 2, 7, 8] \<and>
    handle_connection sample_crates sample_codec True sample_noise (\<lambda>_ _ _. Some ())
      (sv2_server_new \<lparr>kp_public = [], kp_private = []\<rparr> () ''bc1pool'') sample_ipc True [Data [2, 1, 2, 2, 7]] []
      [Polled 0, Template_Ready [], Arrived (Data [8]), Polled 1] = Some (Inr s) \<and>
    sn_conn s = fold (connection_step sample_crates sample_codec True) evs (accept_connection ''bc1pool'' sample_ipc []) \<and>
    filter from_templates evs = [Template_Changed []] \<and> prefix (handled_frames evs) [Sv2 (Some 0) [7, 8]]"
proof -
  let ?es = "[Polled 0, Template_Ready [], Arrived (Data [8]), Polled 1]" and ?ms = "[([7, 8] :: bytes, 0 :: u8, False)]"
  let ?srv = "sv2_server_new \<lparr>kp_public = [], kp_private = []\<rparr> () ''bc1pool''"
  obtain ri wi si where con: "connect_noise sample_noise () True [Data [2, 2, 1]] = Some (Inr (ri, wi), si)"
    and wi: "wi = \<lparr>wh_encoder = (), wh_state = False, wh_written = [2, 1, 2]\<rparr>"
    by (rule handshakes_run [OF sample_noise_handshake, of "[Data [2, 1, 2]]" "[]" "[Data [2, 2, 1]]" "[]"])
      (auto simp: new_halves_def sample_link_def)
  obtain w where w: "write_messages sample_noise ?ms wi = (Inr (), w)" "wh_written w = [2, 1, 2, 2, 7, 8]"
    by (simp add: wi write_message_def sample_noise_def sample_frame_def)
  have ok: "decoder_ok (nc_decoder sample_noise)" using sample_decoder_ok by (simp add: sample_noise_def)
  have resp: "to_responder (\<lambda>_ _ _. Some ()) (sv_keypair ?srv) = Inr ()" by (simp add: to_responder_def)
  have reply: "open_socket [Data [2, 2, 1]]" "socket_bytes [Data [2, 2, 1]] = [2, 2, 1] @ []" by simp_all
  have sock: "open_socket [Data [2, 1, 2, 2, 7]]" "\<forall>a. Arrived a \<in> set ?es \<longrightarrow> open_socket [a]"
    "socket_bytes [Data [2, 1, 2, 2, 7]] = [2, 1, 2] @ [2, 7]"
    "wh_written w = socket_bytes [Data [2, 1, 2, 2, 7]] @ concat (map arrived ?es)"
    using w(2) by simp_all
  from peer_messages_handled [OF sample_noise_handshake sample_noise_link ok resp con reply w(1) sock,
      of sample_crates sample_codec True sample_ipc "[]"]
  obtain s evs fs where
    run: "handle_connection sample_crates sample_codec True sample_noise (\<lambda>_ _ _. Some ()) ?srv sample_ipc True
      [Data [2, 1, 2, 2, 7]] [] ?es = Some (Inr s)" and
    evs: "sn_conn s = fold (connection_step sample_crates sample_codec True) evs
      (accept_connection (sv_pool_address ?srv) sample_ipc [])"
      "filter from_templates evs = List.map_filter template_event ?es" and
    fs: "map Some fs = map (message_frame sample_noise) ?ms" "prefix (handled_frames evs) fs" by blast
  have "fs = [Sv2 (Some 0) [7, 8]]" using fs(1) by (auto simp: message_frame_def sample_noise_def sample_frame_def)
  with con w run evs fs(2) show ?thesis
    by (intro exI [of _ ri] exI [of _ wi] exI [of _ si] exI [of _ w] exI [of _ s] exI [of _ evs])
      (simp add: sv2_server_new_def List.map_filter_simps)
qed

end
