(* ===== verification/Rpc_Client.thy ===== *)
theory Rpc_Client
  imports Merkle Float64 "HOL-Library.Sublist"
begin

text \<open>
  The JSON-RPC client of the node, from \<open>pool/src/rpc.rs\<close>: the request, the choice between error and
  result, every method, and the checks of a block template. The HTTP client, the JSON parser and the
  derived reader of a block template are not part of the repository: they are the fields of \<open>rpc_env\<close>.
  A node is a state that a request changes.
\<close>

section \<open>JSON values\<close>

datatype json_number = Pos_Int u64 | Neg_Int int | Float f64

datatype json =
    Json_Null
  | Json_Bool bool
  | Json_Number json_number
  | Json_String string
  | Json_Array "json list"
  | Json_Object "(string \<times> json) list"

text \<open>\<open>Value::get\<close>, \<open>as_str\<close>, \<open>as_u64\<close>, and the reader of a list of strings.\<close>

fun json_get :: "string \<Rightarrow> json \<Rightarrow> json option" where
  "json_get key (Json_Object kvs) = map_of kvs key"
| "json_get key _ = None"

fun as_str :: "json \<Rightarrow> string option" where
  "as_str (Json_String s) = Some s"
| "as_str _ = None"

fun as_u64 :: "json \<Rightarrow> u64 option" where
  "as_u64 (Json_Number (Pos_Int n)) = Some n"
| "as_u64 _ = None"

fun as_strings :: "json \<Rightarrow> string list option" where
  "as_strings (Json_Array vs) =
     (if list_all (\<lambda>v. as_str v \<noteq> None) vs then Some (map (\<lambda>v. the (as_str v)) vs) else None)"
| "as_strings _ = None"

text \<open>\<open>json!\<close> writes a float that is not a number or infinite as null.\<close>

definition json_float :: "f64 \<Rightarrow> json" where
  "json_float x = (case x of Fin _ \<Rightarrow> Json_Number (Float x) | _ \<Rightarrow> Json_Null)"

section \<open>Block templates\<close>

record block_template =
  bt_version :: u32
  bt_previousblockhash :: string
  bt_transactions :: "template_transaction list"
  bt_coinbasevalue :: int
  bt_bits :: string
  bt_height :: u32
  bt_curtime :: u32
  bt_target :: string
  bt_default_witness_commitment :: "string option"
  bt_longpollid :: string

text \<open>\<open>debug_assert!\<close>: a panic with its message, under the development profile.\<close>

definition debug_assert :: "bool \<Rightarrow> string \<Rightarrow> unit outcome" where
  "debug_assert b msg = (if b then Inr () else Inl (Panic msg))"

lemma debug_assert_Inr [simp, outcome_simps]: "debug_assert b msg = Inr () \<longleftrightarrow> b"
  by (simp add: debug_assert_def)

definition tx_assert_invariants :: "template_transaction \<Rightarrow> unit outcome" where
  "tx_assert_invariants tx =
     and_then (debug_assert (length (tt_txid tx) = 64) ''txid must be 64 hex chars'') (\<lambda>_.
     and_then (debug_assert (length (tt_hash tx) = 64) ''hash must be 64 hex chars'') (\<lambda>_.
     and_then (debug_assert (tt_data tx \<noteq> []) ''tx data must not be empty'') (\<lambda>_.
     and_then (debug_assert (tt_fee tx \<ge> 0) ''fee must be non-negative'') (\<lambda>_.
     debug_assert (tt_weight tx > 0) ''weight must be positive''))))"

definition assert_invariants :: "block_template \<Rightarrow> unit outcome" where
  "assert_invariants bt =
     and_then (debug_assert (length (bt_previousblockhash bt) = 64) ''prevhash must be 64 hex chars'') (\<lambda>_.
     and_then (debug_assert (length (bt_target bt) = 64) ''target must be 64 hex chars'') (\<lambda>_.
     and_then (debug_assert (bt_bits bt \<noteq> []) ''bits must not be empty'') (\<lambda>_.
     and_then (debug_assert (bt_longpollid bt \<noteq> []) ''longpollid must not be empty'') (\<lambda>_.
     and_then (debug_assert (bt_coinbasevalue bt > 0) ''coinbasevalue must be positive'') (\<lambda>_.
     and_then (debug_assert (bt_curtime bt > 0) ''curtime must be positive'') (\<lambda>_.
     and_then (debug_assert (bt_version bt > 0) ''version must be positive'') (\<lambda>_.
     and_then (mapM tx_assert_invariants (bt_transactions bt)) (\<lambda>_. Inr ()))))))))"

text \<open>What a checked template satisfies.\<close>

definition checked_tx :: "template_transaction \<Rightarrow> bool" where
  "checked_tx tx \<longleftrightarrow> length (tt_txid tx) = 64 \<and> length (tt_hash tx) = 64 \<and> tt_data tx \<noteq> [] \<and>
     tt_fee tx \<ge> 0 \<and> tt_weight tx > 0"

definition checked_template :: "block_template \<Rightarrow> bool" where
  "checked_template bt \<longleftrightarrow> length (bt_previousblockhash bt) = 64 \<and> length (bt_target bt) = 64 \<and>
     bt_bits bt \<noteq> [] \<and> bt_longpollid bt \<noteq> [] \<and> bt_coinbasevalue bt > 0 \<and> bt_curtime bt > 0 \<and>
     bt_version bt > 0 \<and> list_all checked_tx (bt_transactions bt)"

lemma tx_assert_Inr: "tx_assert_invariants tx = Inr () \<longleftrightarrow> checked_tx tx"
  by (simp add: tx_assert_invariants_def checked_tx_def)

lemma assert_Inr: "assert_invariants bt = Inr () \<longleftrightarrow> checked_template bt"
proof -
  have "(\<exists>us. mapM tx_assert_invariants txs = Inr us) \<longleftrightarrow> list_all checked_tx txs" for txs
    by (induction txs) (auto simp: tx_assert_Inr)
  then show ?thesis by (simp add: assert_invariants_def checked_template_def)
qed

section \<open>The client\<close>

datatype http_reply = No_Connection | Not_Json | Body json

record rpc_client =
  rc_url :: string
  rc_user :: string
  rc_pass :: string

text \<open>
  \<open>post\<close> sends a body with the credentials to the node 's; \<open>json_text\<close> is the display of a value.
\<close>

record 's rpc_env =
  post :: "rpc_client \<Rightarrow> json \<Rightarrow> 's \<Rightarrow> http_reply \<times> 's"
  json_text :: "json \<Rightarrow> string"
  parse_block_template :: "json \<Rightarrow> block_template option"

type_synonym ('s, 'a) rpc = "'s \<Rightarrow> 'a outcome \<times> 's"

definition rpc_client_new :: "string \<Rightarrow> string \<Rightarrow> string \<Rightarrow> rpc_client" where
  "rpc_client_new url user pass = \<lparr>rc_url = url, rc_user = user, rc_pass = pass\<rparr>"

definition trim_end_matches :: "char \<Rightarrow> string \<Rightarrow> string" where
  "trim_end_matches c s = rev (dropWhile ((=) c) (rev s))"

definition with_wallet :: "string \<Rightarrow> string \<Rightarrow> string \<Rightarrow> string \<Rightarrow> rpc_client" where
  "with_wallet url user pass wallet =
     rpc_client_new (trim_end_matches CHR ''/'' url @ ''/wallet/'' @ wallet) user pass"

definition request_body :: "string \<Rightarrow> json \<Rightarrow> json" where
  "request_body meth params =
     Json_Object [(''jsonrpc'', Json_String ''1.0''), (''id'', Json_String ''pool''),
       (''method'', Json_String meth), (''params'', params)]"

definition do_call :: "'s rpc_env \<Rightarrow> rpc_client \<Rightarrow> string \<Rightarrow> json \<Rightarrow> ('s, json) rpc" where
  "do_call E c meth params s =
     (case post E c (request_body meth params) s of
        (No_Connection, s) \<Rightarrow> (Inl (Bail ''Failed to connect to Bitcoin node''), s)
      | (Not_Json, s) \<Rightarrow> (Inl (Bail ''RPC response is not valid JSON''), s)
      | (Body v, s) \<Rightarrow>
          (case json_get ''error'' v of
             Some err \<Rightarrow>
               if err \<noteq> Json_Null then
                 (Inl (Bail (''RPC error in '' @ meth @ '': '' @ json_text E err)), s)
               else (ok_or (Bail ''RPC response missing 'result' field'') (json_get ''result'' v), s)
           | None \<Rightarrow> (ok_or (Bail ''RPC response missing 'result' field'') (json_get ''result'' v), s)))"

definition rpc_call :: "'s rpc_env \<Rightarrow> rpc_client \<Rightarrow> string \<Rightarrow> json \<Rightarrow> ('s, json) rpc" where
  "rpc_call E c meth params = do_call E c meth params"

text \<open>\<open>rpc_then m f\<close> is \<open>m?\<close> followed by \<open>f\<close>.\<close>

definition rpc_then :: "('s, 'a) rpc \<Rightarrow> ('a \<Rightarrow> 'b outcome) \<Rightarrow> ('s, 'b) rpc" where
  "rpc_then m f s = (case m s of (r, s) \<Rightarrow> (and_then r f, s))"

definition get_block_template :: "'s rpc_env \<Rightarrow> rpc_client \<Rightarrow> ('s, block_template) rpc" where
  "get_block_template E c =
     rpc_then (rpc_call E c ''getblocktemplate''
         (Json_Array [Json_Object [(''rules'', Json_Array [Json_String ''segwit''])]])) (\<lambda>v.
     and_then (ok_or (Bail ''Failed to parse BlockTemplate'') (parse_block_template E v)) (\<lambda>tmpl.
     and_then (assert_invariants tmpl) (\<lambda>_. Inr tmpl)))"

definition submit_block :: "'s rpc_env \<Rightarrow> rpc_client \<Rightarrow> string \<Rightarrow> ('s, unit) rpc" where
  "submit_block E c block_hex =
     rpc_then (rpc_call E c ''submitblock'' (Json_Array [Json_String block_hex])) (\<lambda>v.
     if v = Json_Null then Inr () else Inl (Bail (''submitblock rejected: '' @ json_text E v)))"

definition get_best_block_hash :: "'s rpc_env \<Rightarrow> rpc_client \<Rightarrow> ('s, string) rpc" where
  "get_best_block_hash E c =
     rpc_then (rpc_call E c ''getbestblockhash'' (Json_Array [])) (\<lambda>v.
     ok_or (Bail ''getbestblockhash did not return a string'') (as_str v))"

definition generate_to_address :: "'s rpc_env \<Rightarrow> rpc_client \<Rightarrow> u32 \<Rightarrow> string \<Rightarrow> ('s, string list) rpc" where
  "generate_to_address E c n address =
     rpc_then (rpc_call E c ''generatetoaddress''
         (Json_Array [Json_Number (Pos_Int (ucast n)), Json_String address])) (\<lambda>v.
     ok_or (Bail ''Failed to parse generatetoaddress response'') (as_strings v))"

definition get_new_address :: "'s rpc_env \<Rightarrow> rpc_client \<Rightarrow> ('s, string) rpc" where
  "get_new_address E c =
     rpc_then (rpc_call E c ''getnewaddress'' (Json_Array [])) (\<lambda>v.
     ok_or (Bail ''getnewaddress did not return a string'') (as_str v))"

definition get_balances :: "'s rpc_env \<Rightarrow> rpc_client \<Rightarrow> ('s, json) rpc" where
  "get_balances E c = rpc_call E c ''getbalances'' (Json_Array [])"

text \<open>The display of an error is its outermost message.\<close>

fun error_text :: "error \<Rightarrow> string" where
  "error_text (Bail msg) = msg"
| "error_text (Panic msg) = msg"

definition create_wallet :: "'s rpc_env \<Rightarrow> rpc_client \<Rightarrow> string \<Rightarrow> ('s, unit) rpc" where
  "create_wallet E c wallet s =
     (case rpc_call E c ''createwallet'' (Json_Array [Json_String wallet]) s of
        (Inr _, s) \<Rightarrow> (Inr (), s)
      | (Inl e, s) \<Rightarrow>
          let msg = error_text e in
          if \<not> sublist ''already exists'' msg \<and> \<not> sublist ''Database already exists'' msg then (Inl e, s)
          else
            (case rpc_call E c ''loadwallet'' (Json_Array [Json_String wallet]) s of
               (Inr _, s) \<Rightarrow> (Inr (), s)
             | (Inl e, s) \<Rightarrow> if sublist ''already loaded'' (error_text e) then (Inr (), s) else (Inl e, s)))"

definition send_to_address :: "'s rpc_env \<Rightarrow> rpc_client \<Rightarrow> string \<Rightarrow> f64 \<Rightarrow> ('s, string) rpc" where
  "send_to_address E c address amount_btc =
     rpc_then (rpc_call E c ''sendtoaddress'' (Json_Array [Json_String address, json_float amount_btc])) (\<lambda>v.
     ok_or (Bail ''sendtoaddress did not return a txid'') (as_str v))"

text \<open>The count is cut to 32 bits.\<close>

definition get_block_count :: "'s rpc_env \<Rightarrow> rpc_client \<Rightarrow> ('s, u32) rpc" where
  "get_block_count E c =
     rpc_then (rpc_call E c ''getblockchaininfo'' (Json_Array [])) (\<lambda>v.
     ok_or (Bail ''getblockchaininfo missing 'blocks' field'')
       (map_option ucast (Option.bind (json_get ''blocks'' v) as_u64)))"


section \<open>A sample node\<close>

text \<open>A node that knows wallets, those on disk and those loaded.\<close>

definition rpc_result :: "json \<Rightarrow> http_reply" where
  "rpc_result v = Body (Json_Object [(''result'', v), (''error'', Json_Null)])"

definition rpc_error :: "string \<Rightarrow> http_reply" where
  "rpc_error msg = Body (Json_Object [(''result'', Json_Null), (''error'', Json_String msg)])"

definition sample_template_body :: block_template where
  "sample_template_body =
     \<lparr>bt_version = 0x20000000, bt_previousblockhash = replicate 64 CHR ''0'',
      bt_transactions = [\<lparr>tt_data = ''00'', tt_txid = replicate 64 CHR ''a'', tt_hash = replicate 64 CHR ''a'',
        tt_fee = 1000, tt_weight = 561\<rparr>],
      bt_coinbasevalue = 5000001000, bt_bits = ''207fffff'', bt_height = 1, bt_curtime = 1700000000,
      bt_target = replicate 64 CHR ''f'', bt_default_witness_commitment = None, bt_longpollid = ''0''\<rparr>"

definition sample_post :: "rpc_client \<Rightarrow> json \<Rightarrow> string set \<times> string set \<Rightarrow> http_reply \<times> string set \<times> string set" where
  "sample_post c body s =
     (case (json_get ''method'' body, json_get ''params'' body) of
        (Some (Json_String m), Some (Json_Array [Json_String name])) \<Rightarrow>
          if m = ''createwallet'' then
            (if name \<in> fst s then (rpc_error ''Database already exists'', s)
             else (rpc_result Json_Null, insert name (fst s), insert name (snd s)))
          else if name \<in> snd s then (rpc_error ''wallet already loaded'', s)
          else (rpc_result Json_Null, fst s, insert name (snd s))
      | _ \<Rightarrow> (rpc_result Json_Null, s))"

definition sample_rpc :: "(string set \<times> string set) rpc_env" where
  "sample_rpc =
     \<lparr>post = sample_post, json_text = (\<lambda>v. case v of Json_String m \<Rightarrow> m | _ \<Rightarrow> []),
      parse_block_template = (\<lambda>_. Some sample_template_body)\<rparr>"

section \<open>Properties\<close>

text \<open>
  C30: A call makes one request, and gives the result of the reply exactly when the reply is JSON
  without an error, or with a null one, and has a result; a non-null error wins over a result.
\<close>

theorem call_result_iff:
  "(fst (do_call E c meth params s) = Inr v \<longleftrightarrow>
    (\<exists>b. fst (post E c (request_body meth params) s) = Body b \<and>
      json_get ''error'' b \<in> {None, Some Json_Null} \<and> json_get ''result'' b = Some v)) \<and>
   snd (do_call E c meth params s) = snd (post E c (request_body meth params) s)"
proof -
  obtain reply s' where "post E c (request_body meth params) s = (reply, s')" by fastforce
  then show ?thesis
    by (cases reply) (auto simp: do_call_def split: option.split)
qed

text \<open>
  What the node documents of its wallets: \<open>disk\<close> and \<open>loaded\<close> are the wallets that exist and that are
  loaded. A wallet that exists cannot be created, and one that is loaded cannot be loaded again; the
  errors say so.
\<close>

definition wallet_node :: "'s rpc_env \<Rightarrow> rpc_client \<Rightarrow> ('s \<Rightarrow> string set) \<Rightarrow> ('s \<Rightarrow> string set) \<Rightarrow> bool" where
  "wallet_node E c disk loaded \<longleftrightarrow>
     (\<forall>s name.
       (case rpc_call E c ''createwallet'' (Json_Array [Json_String name]) s of
          (Inr v, s') \<Rightarrow> name \<notin> disk s \<and> disk s' = insert name (disk s) \<and> loaded s' = insert name (loaded s)
        | (Inl e, s') \<Rightarrow> name \<in> disk s \<and> sublist ''already exists'' (error_text e) \<and> s' = s) \<and>
       (case rpc_call E c ''loadwallet'' (Json_Array [Json_String name]) s of
          (Inr v, s') \<Rightarrow> name \<notin> loaded s \<and> disk s' = disk s \<and> loaded s' = insert name (loaded s)
        | (Inl e, s') \<Rightarrow> name \<in> loaded s \<and> sublist ''already loaded'' (error_text e) \<and> s' = s))"

text \<open>
  On a node that behaves as documented, \<open>create_wallet\<close> always succeeds, whether the wallet is new,
  on disk or already loaded; afterwards the wallet exists and is loaded, and nothing else has changed,
  so a second call changes nothing.
\<close>

lemma create_wallet_loads:
  assumes "wallet_node E c disk loaded"
  shows "\<exists>s'. create_wallet E c name s = (Inr (), s') \<and>
    disk s' = insert name (disk s) \<and> loaded s' = insert name (loaded s) \<and>
    (\<exists>s''. create_wallet E c name s' = (Inr (), s'') \<and> disk s'' = disk s' \<and> loaded s'' = loaded s')"
proof -
  have once: "\<exists>s'. create_wallet E c name s = (Inr (), s') \<and>
      disk s' = insert name (disk s) \<and> loaded s' = insert name (loaded s)" for s
  proof -
    obtain r1 s1 where create: "rpc_call E c ''createwallet'' (Json_Array [Json_String name]) s = (r1, s1)"
      by fastforce
    obtain r2 s2 where load: "rpc_call E c ''loadwallet'' (Json_Array [Json_String name]) s = (r2, s2)"
      by fastforce
    note laws = assms [unfolded wallet_node_def, THEN spec, of s, THEN spec, of name, unfolded create load]
    show ?thesis
    proof (cases r1)
      case (Inr v)
      with laws create show ?thesis by (simp add: create_wallet_def)
    next
      case (Inl e)
      with laws create load show ?thesis
        by (cases r2) (auto simp: create_wallet_def Let_def insert_absorb)
    qed
  qed
  from once [of s] obtain s' where s': "create_wallet E c name s = (Inr (), s')"
    "disk s' = insert name (disk s)" "loaded s' = insert name (loaded s)" by blast
  with once [of s'] show ?thesis by (intro exI [of _ s']) auto
qed

lemma sample_wallet_node: "wallet_node sample_rpc c fst snd"
  by (auto simp: wallet_node_def rpc_call_def do_call_def sample_rpc_def sample_post_def request_body_def
      rpc_result_def rpc_error_def sublist_code)

lemma create_wallet_loads_sample:
  "\<exists>s'. create_wallet sample_rpc (with_wallet ''http://node/'' [] [] ''w'') ''w'' ({''w''}, {}) = (Inr (), s') \<and>
    fst s' = {''w''} \<and> snd s' = {''w''}"
  using create_wallet_loads [OF sample_wallet_node, of "with_wallet ''http://node/'' [] [] ''w''" "''w''" "({''w''}, {})"]
  by auto

text \<open>
  C31: A block template that the client returns has passed every check, so its coinbase value is
  positive and its ids and hashes have 64 characters; and the merkle branch of its transactions can
  be built exactly when every id is hexadecimal: the checks leave no other failure to the branch.
\<close>

theorem returned_template_has_branch:
  assumes "\<forall>s b. hex_decode L s = Some b \<longrightarrow> length s = 2 * length b"
    and "fst (get_block_template E c s) = Inr bt"
  shows "checked_template bt \<and>
    ((\<exists>branch. build_merkle_branch L (bt_transactions bt) = Inr branch) \<longleftrightarrow>
      list_all (\<lambda>tx. hex_decode L (tt_txid tx) \<noteq> None) (bt_transactions bt))"
proof -
  obtain v s' where "rpc_call E c ''getblocktemplate''
      (Json_Array [Json_Object [(''rules'', Json_Array [Json_String ''segwit''])]]) s = (v, s')"
    by fastforce
  with assms(2) have checked: "checked_template bt"
    by (auto simp: get_block_template_def rpc_then_def assert_Inr)
  then have "length b = 32" if "tx \<in> set (bt_transactions bt)" "hex_decode L (tt_txid tx) = Some b" for tx b
    using that assms(1) by (fastforce simp: checked_template_def checked_tx_def list_all_iff)
  then have "(\<exists>e. build_merkle_branch L (bt_transactions bt) = Inl e) \<longleftrightarrow>
      (\<exists>tx \<in> set (bt_transactions bt). hex_decode L (tt_txid tx) = None)"
    unfolding merkle_branch_fails by (metis option.exhaust option.distinct(1))
  moreover have "(\<exists>branch. build_merkle_branch L (bt_transactions bt) = Inr branch) \<longleftrightarrow>
      \<not> (\<exists>e. build_merkle_branch L (bt_transactions bt) = Inl e)"
    by (cases "build_merkle_branch L (bt_transactions bt)") auto
  ultimately show ?thesis using checked by (auto simp: list_all_iff)
qed

theorem returned_template_has_branch_witness:
  "\<exists>branch. build_merkle_branch (sample_crates\<lparr>hex_decode := \<lambda>s. if length s = 64 then Some (replicate 32 0) else None\<rparr>)
    (bt_transactions sample_template_body) = Inr branch"
proof -
  let ?L = "sample_crates\<lparr>hex_decode := \<lambda>s. if length s = 64 then Some (replicate 32 0) else None\<rparr>"
  let ?c = "rpc_client_new ''http://node'' [] []"
  have hex: "\<forall>s b. hex_decode ?L s = Some b \<longrightarrow> length s = 2 * length b" by simp
  have "checked_template sample_template_body"
    by (simp add: checked_template_def checked_tx_def sample_template_body_def)
  then have "fst (get_block_template sample_rpc ?c ({}, {})) = Inr sample_template_body"
    by (simp add: get_block_template_def rpc_then_def rpc_call_def do_call_def sample_rpc_def sample_post_def
        request_body_def rpc_result_def assert_Inr)
  from returned_template_has_branch [OF hex this] show ?thesis by (simp add: sample_template_body_def)
qed

text \<open>The block count is the node's, modulo \<open>2 ^ 32\<close>.\<close>

lemma block_count_truncates:
  assumes "rpc_call E c ''getblockchaininfo'' (Json_Array []) s = (Inr v, s')"
    and "json_get ''blocks'' v = Some (Json_Number (Pos_Int n))"
  shows "get_block_count E c s = (Inr (ucast n), s')"
  using assms by (simp add: get_block_count_def rpc_then_def)

end
