(* ===== verification/Keygen.thy ===== *)
theory Keygen
  imports Config
begin

text \<open>
  The key generator, from \<open>pool/src/bin/keygen.rs\<close>: two lines for the environment. The random
  key pair of the secp256k1 crate is the argument; the lines are what the generator prints. The
  theorem is the round trip: an environment with these lines gives the pool the same keys.
\<close>

definition keygen_main :: "crates \<Rightarrow> bytes \<Rightarrow> bytes \<Rightarrow> string list" where
  "keygen_main L xonly secret_bytes =
     (let pub_hex = hex_encode L xonly; priv_hex = hex_encode L secret_bytes in
      [''POOL_AUTHORITY_PUBLIC_KEY='' @ pub_hex, ''POOL_AUTHORITY_PRIVATE_KEY='' @ priv_hex])"

text \<open>A line of an environment file: the name before the first equals sign, the value after it.\<close>

definition assign_line :: "string \<Rightarrow> environment \<Rightarrow> environment" where
  "assign_line line env =
     env(takeWhile (\<lambda>c. c \<noteq> CHR ''='') line \<mapsto> tl (dropWhile (\<lambda>c. c \<noteq> CHR ''='') line))"

text \<open>Documented of the hex crate: \<open>decode\<close> reads what \<open>encode\<close> writes.\<close>

definition hex_reads :: "crates \<Rightarrow> bool" where
  "hex_reads L \<longleftrightarrow> (\<forall>bs. hex_decode L (hex_encode L bs) = Some bs)"

lemma assigned_keys:
  "fold assign_line (keygen_main L xonly secret_bytes) env =
    env(''POOL_AUTHORITY_PUBLIC_KEY'' \<mapsto> hex_encode L xonly,
        ''POOL_AUTHORITY_PRIVATE_KEY'' \<mapsto> hex_encode L secret_bytes)"
  by (simp add: keygen_main_def Let_def assign_line_def)

section \<open>The round trip\<close>

text \<open>
  C33: A pool whose environment has the lines that the key generator printed, and the other required
  variables, starts with exactly the generated key pair, whatever keys the environment had before:
  hexadecimal text is read back, and the lines set the two variables that the configuration reads and
  no other.
\<close>

theorem generated_keys_are_configured:
  assumes "hex_reads L" and "length xonly = 32" and "length secret_bytes = 32"
    and "env ''RPC_USER'' = Some user" and "env ''RPC_PASS'' = Some pass"
    and "parse_addr (env_or env ''SV2_LISTEN_ADDR'' ''0.0.0.0:3333'') = Some listen"
    and "env ''POOL_ADDRESS'' = Some address"
  shows "from_env L parse_addr (fold assign_line (keygen_main L xonly secret_bytes) env) =
    Inr \<lparr>cf_rpc_url = env_or env ''RPC_URL'' ''http://127.0.0.1:18443'',
         cf_rpc_user = user, cf_rpc_pass = pass, cf_sv2_listen_addr = listen, cf_pool_address = address,
         cf_pool_authority_public_key = xonly, cf_pool_authority_private_key = secret_bytes,
         cf_bitcoin_ipc_socket = env_or env ''BITCOIN_IPC_SOCKET'' ''.bitcoin-data/regtest/node.sock''\<rparr>"
  using assms
  by (simp add: assigned_keys from_env_def parse_key32_def env_required_def env_or_def hex_reads_def)

theorem generated_keys_are_configured_witness:
  "\<exists>cfg. from_env sample_crates (\<lambda>s. Some (length s))
      (fold assign_line (keygen_main sample_crates (replicate 32 7) (replicate 32 9))
        [''RPC_USER'' \<mapsto> ''u'', ''RPC_PASS'' \<mapsto> ''p'', ''POOL_ADDRESS'' \<mapsto> ''bc1q'']) = Inr cfg \<and>
    cf_pool_authority_public_key cfg = replicate 32 7 \<and> cf_sv2_listen_addr cfg = 12"
proof -
  have "hex_reads sample_crates"
    by (simp add: hex_reads_def sample_crates_def unhex_hex_text)
  from generated_keys_are_configured [OF this, of "replicate 32 7" "replicate 32 9"
      "[''RPC_USER'' \<mapsto> ''u'', ''RPC_PASS'' \<mapsto> ''p'', ''POOL_ADDRESS'' \<mapsto> ''bc1q'']" "''u''" "''p''"
      "\<lambda>s. Some (length s)" 12 "''bc1q''"]
  show ?thesis by (simp add: env_or_def)
qed

end
