(* ===== verification/Unit_Tests.thy ===== *)
theory Unit_Tests
  imports Channels Merkle Difficulty
begin

text \<open>
  The unit tests of \<open>pool/src/jobs.rs\<close> and \<open>pool/src/stratum_sv2.rs\<close> on the model: each test is a
  truth value in the order of its code, and a lemma says that it passes. A panic of
  the code under test or an \<open>unwrap\<close> of an error fails the test. What the crates do on the inputs of the
  tests is named where a test needs it. The tests of the message codecs are in \<open>Codec_Tests\<close>.
\<close>

fun passes :: "bool outcome \<Rightarrow> bool" where
  "passes (Inl e) = False"
| "passes (Inr b) = b"

lemma passes_and_then [simp]: "x = Inr a \<Longrightarrow> passes (and_then x f) = passes (f a)"
  by simp

section \<open>The coinbase\<close>

definition REGTEST_ADDR :: string where
  "REGTEST_ADDR = ''bc1qar0srrr7xfkvy5l643lydnw9re59gtzzwf5mdq''"

text \<open>The witness program of this address, by BIP 173.\<close>

definition test_script :: bytes where
  "test_script = [0x00, 0x14, 0xe8, 0xdf, 0x01, 0x8c, 0x7e, 0x32, 0x6c, 0xc2, 0x53, 0xfa, 0xac, 0x7e, 0x46,
     0xcd, 0xc5, 0x1e, 0x68, 0x54, 0x2c, 0x42]"

definition test_address_ok :: "crates \<Rightarrow> bool" where
  "test_address_ok L \<longleftrightarrow> address_script L REGTEST_ADDR = Some test_script"

definition dummy_script :: "crates \<Rightarrow> bytes outcome" where
  "dummy_script L = script_from_address L REGTEST_ADDR"

lemma dummy_script_is: "test_address_ok L \<Longrightarrow> dummy_script L = Inr test_script"
  by (simp add: dummy_script_def script_from_address_def test_address_ok_def)

definition is_null :: "txin \<Rightarrow> bool" where
  "is_null i \<longleftrightarrow> txi_prev_txid i = replicate 32 0 \<and> txi_prev_vout i = 0xffffffff"

definition coinbase_splits_at_extranonce :: "crates \<Rightarrow> bool" where
  "coinbase_splits_at_extranonce L = passes
     (and_then (dummy_script L) (\<lambda>ms.
      and_then (build_coinbase_parts L 100 5000000000 ms None) (\<lambda>parts.
      let full = coinb1 parts @ replicate EXTRANONCE1_SIZE 0xaa @ replicate EXTRANONCE2_SIZE 0xbb @ coinb2 parts
      in Inr (window_position EXTRANONCE_PLACEHOLDER full = None))))"

definition coinbase_roundtrip_deserializes :: "crates \<Rightarrow> bool" where
  "coinbase_roundtrip_deserializes L = passes
     (and_then (dummy_script L) (\<lambda>ms.
      and_then (build_coinbase_parts L 1 5000000000 ms None) (\<lambda>parts.
      let full = coinb1 parts @ replicate EXTRANONCE1_SIZE 0x00 @ replicate EXTRANONCE2_SIZE 0x00 @ coinb2 parts
      in and_then (ok_or (Panic ''coinbase must be a valid transaction'') (deserialize_tx L full)) (\<lambda>tx.
      Inr (length (tx_inputs tx) = 1 \<and> is_null (tx_inputs tx ! 0))))))"

definition coinbase_with_witness_commitment_has_two_outputs :: "crates \<Rightarrow> bool" where
  "coinbase_with_witness_commitment_has_two_outputs L = passes
     (let wc_hex = ''6a24aa21a9ed'' @ concat (replicate 32 ''00'') in
      and_then (dummy_script L) (\<lambda>ms.
      and_then (witness_commitment_script L wc_hex) (\<lambda>wc.
      and_then (build_coinbase_parts L 1 5000000000 ms (Some wc)) (\<lambda>parts.
      let full = coinb1 parts @ replicate (EXTRANONCE1_SIZE + EXTRANONCE2_SIZE) 0 @ coinb2 parts
      in and_then (ok_or (Panic ''unwrap'') (deserialize_tx L full)) (\<lambda>tx.
      Inr (length (tx_outputs tx) = 2 \<and> txo_value (tx_outputs tx ! 1) = 0))))))"

lemma window_position_absent: "b \<in> set pat \<Longrightarrow> b \<notin> set bs \<Longrightarrow> window_position pat bs = None"
  by (induction pat bs rule: window_position.induct) (auto dest: in_set_takeD, metis in_set_takeD set_ConsD)

lemma test_coinbase_parts:
  assumes "serialize_ok L" and "script_ok L"
  obtains p where "build_coinbase_parts L height 5000000000 test_script wc = Inr p"
    and "\<And>e. length e = 8 \<Longrightarrow>
      coinb1 p @ e @ coinb2 p = enc_tx (coinbase_with height 8 e 5000000000 test_script wc)"
  using assms by (rule coinbase_parts_enc) blast

lemma coinbase_splits_at_extranonce_passes:
  assumes "serialize_ok L" and "script_ok L" and "test_address_ok L"
  shows "coinbase_splits_at_extranonce L"
proof -
  obtain p where p: "build_coinbase_parts L 100 5000000000 test_script None = Inr p"
    and full: "\<And>e. length e = 8 \<Longrightarrow>
      coinb1 p @ e @ coinb2 p = enc_tx (coinbase_with 100 8 e 5000000000 test_script None)"
    by (rule test_coinbase_parts [OF assms(1,2)]) blast
  let ?e = "replicate 4 0xaa @ replicate 4 0xbb :: bytes"
  have "(0xde :: u8) \<notin> set (enc_tx (coinbase_with 100 8 ?e 5000000000 test_script None))"
  proof -
    have "set (coinbase_head 100 8) \<subseteq> {0, 1, 8, 14, 26, 47, 100, 255} \<union> set POOL_TAG"
      by (auto simp: coinbase_head_def le32_constants push_num_def script_num_def le_min.simps)
    then have "(0xde :: u8) \<notin> set (coinbase_head 100 8)" by (rule contra_subsetD) (use POOL_TAG_set in auto)
    moreover have "(0xde :: u8) \<notin>
        set (enc_list enc_txout [\<lparr>txo_value = 5000000000, txo_script = test_script\<rparr>] @ le32 0)"
      by (simp add: enc_list_def enc_txout_def enc_blob_def compact_size_def test_script_def le64_def le32_def
          le_bytes_numeral)
    ultimately show ?thesis
      using enc_coinbase_cut [of ?e 8 100] unfolding coinbase_with_def
      by (simp add: le32_constants commitment_outputs_def)
  qed
  then have "window_position EXTRANONCE_PLACEHOLDER (coinb1 p @ ?e @ coinb2 p) = None"
    using full [of ?e] by (intro window_position_absent [of "0xde"]) (simp_all add: EXTRANONCE_PLACEHOLDER_def)
  then show ?thesis
    using p dummy_script_is [OF assms(3)]
    by (simp add: coinbase_splits_at_extranonce_def EXTRANONCE1_SIZE_def EXTRANONCE2_SIZE_def Let_def)
qed

lemma test_coinbase_decodes:
  assumes "deserialize_ok L" and "length script \<le> 100" and "length outs \<le> 2"
    and "\<forall>o' \<in> set outs. length (txo_script o') \<le> 100"
  shows "deserialize_tx L (enc_tx (coinbase_of v lt script sq [] outs)) = Some (coinbase_of v lt script sq [] outs)"
proof -
  have blob: "length (enc_blob bs) \<le> 9 + length bs" for bs
    using length_compact_size [of "length bs"] by (simp add: enc_blob_def)
  have "length (enc_txout o') \<le> 120" if "o' \<in> set outs" for o'
    using blob [of "txo_script o'"] assms(4) that by (force simp: enc_txout_def)
  then have "length (concat (map enc_txout outs)) \<le> length outs * 120"
    by (induction outs) (auto intro!: add_mono)
  moreover have "length (enc_blob script) \<le> 109" using blob [of script] assms(2) by linarith
  ultimately have "length (enc_tx (coinbase_of v lt script sq [] outs)) \<le> 1000000"
    using length_compact_size [of "length outs"] assms(3) by (simp add: enc_coinbase_of enc_list_def)
  moreover have "wf_tx (coinbase_of v lt script sq [] outs)"
    using assms by (fastforce simp: coinbase_of_def wf_tx_def wf_txin_def wf_txout_def list_all_iff)
  ultimately show ?thesis using assms(1) by (simp add: deserialize_ok_def)
qed

text \<open>The two tests that read the coinbase back.\<close>

lemma test_coinbase_tx:
  assumes "serialize_ok L" and "deserialize_ok L" and "script_ok L"
    and "length e = 8" and "\<forall>s. wc = Some s \<longrightarrow> length s \<le> 100"
  obtains p where "build_coinbase_parts L 1 5000000000 test_script wc = Inr p"
    and "deserialize_tx L (coinb1 p @ e @ coinb2 p) = Some (coinbase_with 1 8 e 5000000000 test_script wc)"
proof -
  obtain p where p: "build_coinbase_parts L 1 5000000000 test_script wc = Inr p"
    "coinb1 p @ e @ coinb2 p = enc_tx (coinbase_with 1 8 e 5000000000 test_script wc)"
    by (rule test_coinbase_parts [OF assms(1,3), of 1 wc]) (use assms(4) in blast)
  moreover have "deserialize_tx L (enc_tx (coinbase_with 1 8 e 5000000000 test_script wc)) =
      Some (coinbase_with 1 8 e 5000000000 test_script wc)"
    unfolding coinbase_with_def
    by (rule test_coinbase_decodes [OF assms(2)])
      (use assms(4,5) in \<open>auto simp: push_num_def test_script_def commitment_outputs_def split: option.splits\<close>)
  ultimately show thesis using that by simp
qed

lemma coinbase_roundtrip_deserializes_passes:
  assumes "serialize_ok L" and "deserialize_ok L" and "script_ok L" and "test_address_ok L"
  shows "coinbase_roundtrip_deserializes L"
proof -
  let ?e = "replicate 4 0x00 @ replicate 4 0x00 :: bytes"
  obtain p where "build_coinbase_parts L 1 5000000000 test_script None = Inr p"
    "deserialize_tx L (coinb1 p @ ?e @ coinb2 p) = Some (coinbase_with 1 8 ?e 5000000000 test_script None)"
    by (rule test_coinbase_tx [OF assms(1-3), of ?e None]) simp_all
  then show ?thesis
    using dummy_script_is [OF assms(4)]
    by (simp add: coinbase_roundtrip_deserializes_def EXTRANONCE1_SIZE_def EXTRANONCE2_SIZE_def Let_def
        coinbase_with_def coinbase_of_def is_null_def)
qed

lemma coinbase_with_witness_commitment_has_two_outputs_passes:
  assumes "serialize_ok L" and "deserialize_ok L" and "script_ok L" and "test_address_ok L"
    and "\<forall>bs. hex_decode L (hex_text bs) = Some bs"
  shows "coinbase_with_witness_commitment_has_two_outputs L"
proof -
  let ?e = "replicate 8 0 :: bytes"
  define wc :: bytes where "wc = [0x6a, 0x24, 0xaa, 0x21, 0xa9, 0xed] @ replicate 32 0"
  have hex: "''6a24aa21a9ed'' @ concat (replicate 32 ''00'') = hex_text wc"
    unfolding wc_def by code_simp
  obtain p where "build_coinbase_parts L 1 5000000000 test_script (Some wc) = Inr p"
    "deserialize_tx L (coinb1 p @ ?e @ coinb2 p) = Some (coinbase_with 1 8 ?e 5000000000 test_script (Some wc))"
    by (rule test_coinbase_tx [OF assms(1-3), of ?e "Some wc"]) (simp_all add: wc_def)
  then show ?thesis
    using dummy_script_is [OF assms(4)] assms(5)
    by (simp add: coinbase_with_witness_commitment_has_two_outputs_def witness_commitment_script_def hex
        EXTRANONCE1_SIZE_def EXTRANONCE2_SIZE_def Let_def coinbase_with_def coinbase_of_def commitment_outputs_def
        del: append.simps concat.simps)
qed

section \<open>The merkle branch\<close>

definition fake_tx :: "u8 \<Rightarrow> template_transaction" where
  "fake_tx byte =
     \<lparr>tt_data = ''00'', tt_txid = hex_byte byte @ replicate 62 (CHR ''0''),
      tt_hash = hex_byte byte @ replicate 62 (CHR ''0''), tt_fee = 0, tt_weight = 400\<rparr>"

definition merkle_branch_empty :: "crates \<Rightarrow> bool" where
  "merkle_branch_empty L = passes (and_then (build_merkle_branch L []) (\<lambda>branch. Inr (branch = [])))"

definition merkle_branch_one_tx :: "crates \<Rightarrow> bool" where
  "merkle_branch_one_tx L = passes
     (and_then (build_merkle_branch L [fake_tx 0xaa]) (\<lambda>branch.
      Inr (length branch = 1 \<and> branch ! 0 ! 31 = 0xaa)))"

definition merkle_branch_two_txs_has_two_levels :: "crates \<Rightarrow> bool" where
  "merkle_branch_two_txs_has_two_levels L = passes
     (and_then (build_merkle_branch L [fake_tx 0x01, fake_tx 0x02]) (\<lambda>branch. Inr (length branch = 2)))"

text \<open>
  The test on a block of the main chain. Its fixture is a file; the digests are those of the hash
  crate.
\<close>

record fixture =
  fx_merkle_root :: string
  fx_coinbase_txid :: string
  fx_txids :: "string list"

definition merkle_branch_matches_block :: "crates \<Rightarrow> fixture \<Rightarrow> bool" where
  "merkle_branch_matches_block L fixture = passes
     (let transactions = map (\<lambda>txid. \<lparr>tt_data = ''00'', tt_txid = txid, tt_hash = txid, tt_fee = 0,
            tt_weight = 0\<rparr>) (fx_txids fixture)
      in and_then (build_merkle_branch L transactions) (\<lambda>branch.
         and_then (ok_or (Panic ''unwrap'') (hex_decode L (fx_coinbase_txid fixture))) (\<lambda>b.
         let b = rev b in
         if length b \<noteq> 32 then Inl (Panic ''source slice length does not match destination slice length'')
         else Inr (hex_text (rev (apply_branch L b branch)) = fx_merkle_root fixture))))"

lemma fake_txid: "tt_txid (fake_tx b) = hex_text (b # replicate 31 0)"
proof -
  have "hex_text (replicate 31 0) = replicate 62 (CHR ''0'')" by code_simp
  then show ?thesis by (simp add: fake_tx_def)
qed

lemma fake_internal:
  "(\<forall>bs. hex_decode L (hex_text bs) = Some bs) \<Longrightarrow> internal_txid L (fake_tx b) = Inr (replicate 31 0 @ [b])"
  by (subst internal_txid_ok [where b = "b # replicate 31 0"]) (simp_all only: fake_txid, simp_all)

lemma merkle_branch_empty_passes: "merkle_branch_empty L"
  by (simp add: merkle_branch_empty_def build_merkle_branch_def)

lemma merkle_branch_one_tx_passes:
  assumes "\<forall>bs. hex_decode L (hex_text bs) = Some bs"
  shows "merkle_branch_one_tx L"
  using fake_internal [OF assms]
  by (simp add: merkle_branch_one_tx_def build_merkle_branch_def branch_loop.simps nth_append)

lemma merkle_branch_two_txs_has_two_levels_passes:
  assumes "\<forall>bs. hex_decode L (hex_text bs) = Some bs"
  shows "merkle_branch_two_txs_has_two_levels L"
  using fake_internal [OF assms]
  by (simp add: merkle_branch_two_txs_has_two_levels_def build_merkle_branch_def branch_loop.simps
      next_level_pair_up)

text \<open>The test of a block passes exactly when its header has the protocol's merkle root of its ids.\<close>

lemma merkle_branch_matches_block_iff:
  assumes "\<forall>txid \<in> set (fx_coinbase_txid fixture # fx_txids fixture).
      \<exists>b. hex_decode L txid = Some b \<and> length b = 32"
  shows "merkle_branch_matches_block L fixture \<longleftrightarrow>
    hex_text (rev (merkle_root (sha256d_pair L)
      (map (\<lambda>txid. rev (the (hex_decode L txid))) (fx_coinbase_txid fixture # fx_txids fixture)))) =
    fx_merkle_root fixture"
proof -
  let ?txs = "map (\<lambda>txid. \<lparr>tt_data = ''00'', tt_txid = txid, tt_hash = txid, tt_fee = 0, tt_weight = 0\<rparr>)
    (fx_txids fixture)"
  obtain b where b: "hex_decode L (fx_coinbase_txid fixture) = Some b" "length b = 32" using assms by auto
  have "\<forall>tx \<in> set ?txs. \<exists>b. hex_decode L (tt_txid tx) = Some b \<and> length b = 32" using assms by auto
  from merkle_branch_root [OF this] obtain branch where "build_merkle_branch L ?txs = Inr branch"
    "\<forall>coinbase. apply_branch L coinbase branch = merkle_root (sha256d_pair L)
      (coinbase # map (\<lambda>tx. rev (the (hex_decode L (tt_txid tx)))) ?txs)"
    by blast
  with b show ?thesis by (simp add: merkle_branch_matches_block_def comp_def)
qed

section \<open>Targets, addresses and extranonces\<close>

text \<open>\<open>1e12\<close> as an \<open>f32\<close> is 999999995904.\<close>

definition hashrate_target_difficulty_one :: bool where
  "hashrate_target_difficulty_one = passes
     (and_then (hashrate_to_target_be (Fin 1)) (\<lambda>t.
      Inr (t ! 0 = 0x00 \<and> t ! 4 = 0xff \<and> t ! 5 = 0xff \<and> list_all (\<lambda>b. b = 0) (drop 6 t))))"

definition hashrate_target_decreases_with_higher_hashrate :: bool where
  "hashrate_target_decreases_with_higher_hashrate = passes
     (and_then (hashrate_to_target_be (Fin 1)) (\<lambda>easy.
      and_then (hashrate_to_target_be (Fin 999999995904)) (\<lambda>hard. Inr (hard < easy))))"

definition hashrate_target_not_all_zero :: bool where
  "hashrate_target_not_all_zero = passes
     (and_then (hashrate_to_target_be (Fin 500000)) (\<lambda>t. Inr (list_ex (\<lambda>b. b \<noteq> 0) t)))"

definition parse_miner_address_valid :: "crates \<Rightarrow> bool" where
  "parse_miner_address_valid L =
     (let pool = REGTEST_ADDR; miner = REGTEST_ADDR @ ''.worker1'' in
      parse_miner_address L miner pool = REGTEST_ADDR)"

definition parse_miner_address_fallback :: "crates \<Rightarrow> bool" where
  "parse_miner_address_fallback L =
     (let pool = REGTEST_ADDR in parse_miner_address L ''not-a-valid-address'' pool = pool)"

definition full_extranonce_prefix_copied_verbatim :: bool where
  "full_extranonce_prefix_copied_verbatim =
     (let prefix = replicate 32 0; prefix = le32 7 @ drop 4 prefix; ext2 = [0xaa, 0xbb, 0xcc, 0xdd];
          out = build_full_extranonce prefix ext2
      in take 32 out = prefix \<and> take 4 (drop 32 out) = ext2)"

definition full_extranonce_nonzero_middle_bytes_preserved :: bool where
  "full_extranonce_nonzero_middle_bytes_preserved =
     (let prefix = replicate 32 0xee; prefix = le32 1 @ drop 4 prefix; ext2 = [0x01, 0x02, 0x03, 0x04];
          out = build_full_extranonce prefix ext2
      in list_all (\<lambda>b. b = 0xee) (take 28 (drop 4 out)) \<and> take 4 (drop 32 out) = ext2)"

definition full_extranonce_short_ext2_pads_with_zeros :: bool where
  "full_extranonce_short_ext2_pads_with_zeros =
     (let out = build_full_extranonce (replicate 32 0) [0xff, 0xff]
      in out ! 32 = 0xff \<and> out ! 33 = 0xff \<and> out ! 34 = 0x00 \<and> out ! 35 = 0x00)"

definition full_extranonce_total_length_is_36 :: bool where
  "full_extranonce_total_length_is_36 =
     (let out = build_full_extranonce (replicate 32 0) (replicate 4 0) in length out = SV2_EXTRANONCE_TOTAL)"

definition full_extranonce_matches_coinbase_split_roundtrip :: "crates \<Rightarrow> bool" where
  "full_extranonce_matches_coinbase_split_roundtrip L = passes
     (let prefix_script = [0x03, 0x01, 0x00, 0x00];
          extranonce_prefix = le32 42 @ drop 4 (replicate 32 0);
          ext2 = replicate SV2_EXTRANONCE2_SIZE 0x11
      in and_then (script_from_address L REGTEST_ADDR) (\<lambda>miner_script.
         let parts = build_sv2_coinbase_from_tdp L prefix_script 2 0xffffffff 5000000000 0 [] 0 miner_script False;
             full_extranonce = build_full_extranonce extranonce_prefix ext2;
             coinbase = coinb1 parts @ full_extranonce @ coinb2 parts
         in and_then (ok_or (Panic ''reassembled coinbase must be a valid transaction'')
              (deserialize_tx L coinbase)) (\<lambda>tx.
            Inr (length (tx_inputs tx) = 1 \<and> is_null (tx_inputs tx ! 0)))))"

lemma share_difficulty_one: "share_difficulty (Fin 1) = 1"
proof -
  have one: "f64_of_rat 1 = Fin 1" and thirty: "f64_of_rat 30 = Fin 30"
    using f64_of_nat_exact [of 1] f64_of_nat_exact [of 30] by (simp_all add: f64_of_nat_def)
  have "f64_le (f64_of_rat (30 / 2 ^ 32)) (f64_of_rat 1)" by (rule f64_of_rat_mono) simp_all
  then show ?thesis
    using two_32_exact thirty
    by (cases "f64_of_rat (30 / 2 ^ 32)") (auto simp: share_difficulty_def SHARE_INTERVAL_SECS_def one Let_def max_def)
qed

lemma hashrate_target_one:
  "hashrate_to_target_be (Fin 1) = Inr ((replicate 32 0)[4 := 0xff, 5 := 0xff])"
  unfolding hashrate_to_target_be_def Let_def share_difficulty_one pdiff1_array by simp

lemma hashrate_target_difficulty_one_passes: "hashrate_target_difficulty_one"
  unfolding hashrate_target_difficulty_one_def hashrate_target_one pdiff1_array by simp

lemma hashrate_target_decreases_with_higher_hashrate_passes: "hashrate_target_decreases_with_higher_hashrate"
proof -
  let ?d = "share_difficulty (Fin 999999995904)"
  have "finite_f32 (Fin 999999995904)" by (simp add: finite_f32_def)
  from hashrate_to_target_finite [OF this] obtain hard where
    hard: "hashrate_to_target_be (Fin 999999995904) = Inr hard" "length hard = 32" "be_nat hard = pdiff1 div ?d"
    by blast
  have exact: "f64_of_rat 29999999877120 = Fin 29999999877120" "f64_of_rat 2 = Fin 2"
    using f64_of_nat_exact [of 29999999877120] f64_of_nat_exact [of 2] by (simp_all add: f64_of_nat_def)
  have "f64_le (f64_of_rat 2) (f64_of_rat (29999999877120 / 2 ^ 32))" by (rule f64_of_rat_mono) simp_all
  moreover obtain q where q: "f64_of_rat (29999999877120 / 2 ^ 32) = Fin q"
    using f64_of_rat_bounded [of "29999999877120 / 2 ^ 32" 20] by auto
  ultimately have "2 \<le> q" by (simp add: exact)
  then have "2 \<le> \<lfloor>q\<rfloor>" by (simp add: le_floor_iff)
  then have "2 \<le> ?d"
    using two_32_exact q \<open>2 \<le> q\<close>
    by (simp add: share_difficulty_def SHARE_INTERVAL_SECS_def exact Let_def max_def le_nat_iff)
  then have "be_nat hard \<le> pdiff1 div 2" unfolding hard(3) by (rule div_le_mono2 [rotated]) simp
  also have "\<dots> < be_nat ((replicate 32 0)[4 := 0xff, 5 := 0xff])" by (simp add: pdiff1_bytes pdiff1_def)
  finally have "hard < (replicate 32 0)[4 := 0xff, 5 := 0xff]"
    by (subst (asm) be_nat_less_iff) (simp_all add: hard(2))
  with hard(1) show ?thesis
    by (simp add: hashrate_target_decreases_with_higher_hashrate_def hashrate_target_one)
qed

lemma hashrate_target_not_all_zero_passes: "hashrate_target_not_all_zero"
proof -
  have "finite_f32 (Fin 500000)" by (simp add: finite_f32_def)
  from hashrate_to_target_finite [OF this] obtain t where
    t: "hashrate_to_target_be (Fin 500000) = Inr t" "length t = 32" "0 < be_nat t" by blast
  have "list_ex (\<lambda>b. b \<noteq> 0) t"
  proof (rule ccontr)
    assume "\<not> list_ex (\<lambda>b. b \<noteq> 0) t"
    then have "t = replicate (length t) 0" by (simp add: list_ex_iff replicate_length_same)
    with t(3) show False by (metis be_nat_replicate_0 less_numeral_extra(3))
  qed
  with t(1) show ?thesis by (simp add: hashrate_target_not_all_zero_def)
qed

lemma parse_miner_address_valid_passes: "test_address_ok L \<Longrightarrow> parse_miner_address_valid L"
  by (simp add: parse_miner_address_valid_def parse_miner_address_def script_from_address_def
      test_address_ok_def REGTEST_ADDR_def)

lemma parse_miner_address_fallback_passes:
  "address_script L ''not-a-valid-address'' = None \<Longrightarrow> parse_miner_address_fallback L"
  by (simp add: parse_miner_address_fallback_def parse_miner_address_def script_from_address_def)

lemma full_extranonce_prefix_copied_verbatim_passes: "full_extranonce_prefix_copied_verbatim"
  by (simp add: full_extranonce_prefix_copied_verbatim_def full_extranonce_parts Let_def)

lemma full_extranonce_nonzero_middle_bytes_preserved_passes: "full_extranonce_nonzero_middle_bytes_preserved"
  by (simp add: full_extranonce_nonzero_middle_bytes_preserved_def full_extranonce_parts Let_def list_all_iff)

lemma full_extranonce_short_ext2_pads_with_zeros_passes: "full_extranonce_short_ext2_pads_with_zeros"
  by (simp add: full_extranonce_short_ext2_pads_with_zeros_def full_extranonce_parts nth_append Let_def)

lemma full_extranonce_total_length_is_36_passes: "full_extranonce_total_length_is_36"
  by (simp add: full_extranonce_total_length_is_36_def Let_def)

lemma full_extranonce_matches_coinbase_split_roundtrip_passes:
  assumes "serialize_ok L" and "deserialize_ok L" and "test_address_ok L"
  shows "full_extranonce_matches_coinbase_split_roundtrip L"
proof -
  let ?e = "build_full_extranonce (le32 42 @ drop 4 (replicate 32 0)) (replicate SV2_EXTRANONCE2_SIZE 0x11)"
  let ?parts = "build_sv2_coinbase_from_tdp L [3, 1, 0, 0] 2 0xffffffff 5000000000 0 [] 0 test_script False"
  let ?tx = "coinbase_of 2 0 ([3, 1, 0, 0] @ ?e) 0xffffffff []
    [\<lparr>txo_value = 5000000000, txo_script = test_script\<rparr>]"
  have len: "length ?e = SV2_EXTRANONCE_TOTAL" by (rule length_full_extranonce) simp
  have "coinb1 ?parts @ ?e @ coinb2 ?parts = enc_tx ?tx"
    by (subst coinbase_from_tdp_enc [OF assms(1) _ len, where outs = "[]" and parts = ?parts, OF _ _ _ refl])
      simp_all
  moreover have "deserialize_tx L (enc_tx ?tx) = Some ?tx"
    by (rule test_coinbase_decodes [OF assms(2)]) (simp_all add: len test_script_def)
  ultimately show ?thesis
    using dummy_script_is [OF assms(3)]
    by (simp add: full_extranonce_matches_coinbase_split_roundtrip_def dummy_script_def Let_def
        coinbase_of_def is_null_def)
qed

end
