(* ===== verification/Codec_Tests.thy ===== *)
theory Codec_Tests
  imports Unit_Tests Noise_Transport
begin

text \<open>
  The unit tests of \<open>pool/src/stratum_sv2.rs\<close> on the message codecs, as truth values, in the style of
  \<open>Unit_Tests\<close>. They run the crates' codecs, which are parameters here: the framing functions of
  \<open>noise_codec\<close>, the parser of \<open>codec\<close> and \<open>binary_sv2::to_bytes\<close>. The tests pass when these follow the
  layouts of the Stratum V2 specification, and an implementation of the layouts does.
\<close>

section \<open>The tests\<close>

text \<open>The whole message; the server reads the first three fields.\<close>

record setup_connection_message = setup_connection +
  sc_flags :: u32
  sc_endpoint_host :: bytes
  sc_endpoint_port :: u16
  sc_vendor :: bytes
  sc_hardware_version :: bytes
  sc_firmware :: bytes
  sc_device_id :: bytes

text \<open>A byte string literal through \<open>Str0255::try_from(..).unwrap()\<close>.\<close>

definition str0255 :: "string \<Rightarrow> bytes outcome" where
  "str0255 s = (if length s \<le> 255 then Inr (map (\<lambda>c. of_nat (of_char c)) s) else Inl (Panic ''unwrap''))"

definition make_setup_connection_frame ::
    "('d, 'e, 'k, 'role, setup_connection_message, 'f) noise_codec \<Rightarrow> codec \<Rightarrow> protocol \<Rightarrow> u16 \<Rightarrow> u16 \<Rightarrow> bytes outcome" where
  "make_setup_connection_frame K C protocol min_ver max_ver =
     and_then (str0255 ''localhost'') (\<lambda>endpoint_host.
     and_then (str0255 ''test-vendor'') (\<lambda>vendor.
     and_then (str0255 ''1.0'') (\<lambda>hardware_version.
     and_then (str0255 ''1.0'') (\<lambda>firmware.
     and_then (str0255 ''test-device'') (\<lambda>device_id.
     let msg = \<lparr>sc_protocol = protocol, sc_min_version = min_ver, sc_max_version = max_ver, sc_flags = 0,
           sc_endpoint_host = endpoint_host, sc_endpoint_port = 3333, sc_vendor = vendor,
           sc_hardware_version = hardware_version, sc_firmware = firmware, sc_device_id = device_id\<rparr>;
         payload_len = get_size K msg;
         total = HEADER_SIZE K + payload_len;
         dst = replicate total 0
     in and_then (ok_or (Panic ''valid frame'') (from_message K msg (MESSAGE_TYPE_SETUP_CONNECTION C) 0 False))
       (\<lambda>frame. ok_or (Panic ''serialize ok'') (serialize_frame K frame dst)))))))"

definition frame_from_bytes :: "('d, 'e, 'k, 'role, 'm, 'f) noise_codec \<Rightarrow> bytes \<Rightarrow> either_frame" where
  "frame_from_bytes K bs = from_bytes_unchecked K bs"

definition parse_setup_connection_mining_v2 ::
    "('d, 'e, 'k, 'role, setup_connection_message, 'f) noise_codec \<Rightarrow> codec \<Rightarrow> bool" where
  "parse_setup_connection_mining_v2 K C = passes
     (and_then (make_setup_connection_frame K C Mining_Protocol 2 2) (\<lambda>raw.
      case frame_from_bytes K raw of
        Sv2 hdr pl \<Rightarrow>
          and_then (ok_or (Panic ''header present'') hdr) (\<lambda>mt. Inr (mt = MESSAGE_TYPE_SETUP_CONNECTION C))
      | Hand_Shake _ \<Rightarrow> Inl (Panic ''expected Sv2 frame'')))"

definition parse_setup_connection_payload ::
    "('d, 'e, 'k, 'role, setup_connection_message, 'f) noise_codec \<Rightarrow> codec \<Rightarrow> bool" where
  "parse_setup_connection_payload K C = passes
     (and_then (make_setup_connection_frame K C Mining_Protocol 2 2) (\<lambda>raw.
      let payload = drop (HEADER_SIZE K) raw in
      and_then (ok_or (Panic ''deserialize SetupConnection'') (parse_setup_connection C payload)) (\<lambda>msg.
      Inr (sc_protocol msg = Mining_Protocol \<and> sc_min_version msg = 2 \<and> sc_max_version msg = 2))))"

definition setup_connection_success_serializes :: "(setup_connection_success \<Rightarrow> bytes option) \<Rightarrow> bool" where
  "setup_connection_success_serializes to_bytes = passes
     (let success = \<lparr>ok_used_version = 2, ok_flags = 0x02\<rparr> in
      and_then (ok_or (Panic ''serialize SetupConnectionSuccess'') (to_bytes success)) (\<lambda>bs.
      Inr (length bs = 6 \<and> le_nat [bs ! 0, bs ! 1] = 2 \<and>
        le_nat [bs ! 2, bs ! 3, bs ! 4, bs ! 5] = 0x02)))"

section \<open>The layouts\<close>

text \<open>
  A frame is its header and the encoding of the message; it comes back with its type, and the parser
  reads the message that was written.
\<close>

definition setup_layout_ok ::
    "('d, 'e, 'k, 'role, setup_connection_message, 'f) noise_codec \<Rightarrow> codec \<Rightarrow> bool" where
  "setup_layout_ok K C \<longleftrightarrow>
     (\<forall>m. list_all (\<lambda>s. length s \<le> 255)
         [sc_endpoint_host m, sc_vendor m, sc_hardware_version m, sc_firmware m, sc_device_id m] \<longrightarrow>
       (\<exists>f hdr pl. from_message K m (MESSAGE_TYPE_SETUP_CONNECTION C) 0 False = Some f \<and>
         serialize_frame K f (replicate (HEADER_SIZE K + get_size K m) 0) = Some (hdr @ pl) \<and>
         length hdr = HEADER_SIZE K \<and>
         from_bytes_unchecked K (hdr @ pl) = Sv2 (Some (MESSAGE_TYPE_SETUP_CONNECTION C)) pl \<and>
         parse_setup_connection C pl = Some (setup_connection.truncate m)))"

lemma setup_frame_made:
  assumes "setup_layout_ok K C"
  obtains hdr pl m where "make_setup_connection_frame K C p lo hi = Inr (hdr @ pl)"
    and "length hdr = HEADER_SIZE K" and "from_bytes_unchecked K (hdr @ pl) = Sv2 (Some (MESSAGE_TYPE_SETUP_CONNECTION C)) pl"
    and "parse_setup_connection C pl = Some \<lparr>sc_protocol = p, sc_min_version = lo, sc_max_version = hi\<rparr>"
proof -
  let ?bs = "\<lambda>s. map (\<lambda>c. of_nat (of_char c)) s :: bytes"
  let ?m = "\<lparr>sc_protocol = p, sc_min_version = lo, sc_max_version = hi, sc_flags = 0,
    sc_endpoint_host = ?bs ''localhost'', sc_endpoint_port = 3333, sc_vendor = ?bs ''test-vendor'',
    sc_hardware_version = ?bs ''1.0'', sc_firmware = ?bs ''1.0'', sc_device_id = ?bs ''test-device''\<rparr>"
  obtain f hdr pl where "from_message K ?m (MESSAGE_TYPE_SETUP_CONNECTION C) 0 False = Some f"
    "serialize_frame K f (replicate (HEADER_SIZE K + get_size K ?m) 0) = Some (hdr @ pl)" and
    facts: "length hdr = HEADER_SIZE K" "from_bytes_unchecked K (hdr @ pl) = Sv2 (Some (MESSAGE_TYPE_SETUP_CONNECTION C)) pl"
    "parse_setup_connection C pl = Some (setup_connection.truncate ?m)"
    using assms [unfolded setup_layout_ok_def, THEN spec, of ?m] by (simp del: list.map) blast
  then have "make_setup_connection_frame K C p lo hi = Inr (hdr @ pl)"
    by (simp add: make_setup_connection_frame_def str0255_def Let_def)
  with facts that [of hdr pl] show thesis by (simp add: setup_connection.truncate_def)
qed

lemma parse_setup_connection_mining_v2_passes:
  assumes "setup_layout_ok K C"
  shows "parse_setup_connection_mining_v2 K C"
  by (rule setup_frame_made [OF assms, of Mining_Protocol 2 2])
    (simp add: parse_setup_connection_mining_v2_def frame_from_bytes_def)

lemma parse_setup_connection_payload_passes:
  assumes "setup_layout_ok K C"
  shows "parse_setup_connection_payload K C"
  by (rule setup_frame_made [OF assms, of Mining_Protocol 2 2])
    (simp add: parse_setup_connection_payload_def Let_def)

text \<open>\<open>SetupConnectionSuccess\<close> is its version and its flags, little-endian.\<close>

definition success_layout :: "setup_connection_success \<Rightarrow> bytes" where
  "success_layout m = le16 (ok_used_version m) @ le32 (ok_flags m)"

lemma setup_connection_success_serializes_passes:
  assumes "\<And>m. to_bytes m = Some (success_layout m)"
  shows "setup_connection_success_serializes to_bytes"
  by (simp add: setup_connection_success_serializes_def success_layout_def assms le16_def le32_def le_bytes_numeral)

section \<open>An implementation of the layouts\<close>

definition enc_str :: "bytes \<Rightarrow> bytes" where
  "enc_str s = of_nat (length s) # s"

fun enc_protocol :: "protocol \<Rightarrow> u8" where
  "enc_protocol Mining_Protocol = 0"
| "enc_protocol Job_Declaration_Protocol = 1"
| "enc_protocol Template_Distribution_Protocol = 2"

definition dec_protocol :: "u8 \<Rightarrow> protocol option" where
  "dec_protocol b = (if b = 0 then Some Mining_Protocol else if b = 1 then Some Job_Declaration_Protocol
     else if b = 2 then Some Template_Distribution_Protocol else None)"

definition enc_setup :: "setup_connection_message \<Rightarrow> bytes" where
  "enc_setup m = enc_protocol (sc_protocol m) # le16 (sc_min_version m) @ le16 (sc_max_version m) @
     le32 (sc_flags m) @ enc_str (sc_endpoint_host m) @ le16 (sc_endpoint_port m) @ enc_str (sc_vendor m) @
     enc_str (sc_hardware_version m) @ enc_str (sc_firmware m) @ enc_str (sc_device_id m)"

definition dec_setup :: "bytes \<Rightarrow> setup_connection option" where
  "dec_setup bs =
     (if length bs < 5 then None
      else map_option (\<lambda>p. \<lparr>sc_protocol = p, sc_min_version = of_nat (le_nat (take 2 (drop 1 bs))),
        sc_max_version = of_nat (le_nat (take 2 (drop 3 bs)))\<rparr>) (dec_protocol (hd bs)))"

definition enc_frame :: "setup_connection_message \<Rightarrow> u8 \<Rightarrow> u16 \<Rightarrow> bool \<Rightarrow> bytes option" where
  "enc_frame m mt ext chan =
     (let pl = enc_setup m in
      if length pl < 2 ^ 24 then
        Some (le16 (if chan then set_bit 15 ext else ext) @ [mt] @ le_bytes 3 (length pl) @ pl)
      else None)"

definition layout_noise ::
    "(nat \<times> bool \<times> bytes, unit, bool, unit, setup_connection_message, bytes) noise_codec" where
  "layout_noise =
     \<lparr>nc_decoder = sample_decoder, decoder_new = (0, False, []), encoder_new = (),
      state_initialized = (\<lambda>_. True), state_not_initialized = (\<lambda>_. True),
      step_0 = (\<lambda>k. Some ([1, 2], k)), step_1 = (\<lambda>k bs. Some (rev bs, False, k)),
      step_2 = (\<lambda>k bs. Some False), encode = sample_encode,
      from_bytes_unchecked = (\<lambda>bs. Sv2 (if length bs < 6 then None else Some (bs ! 2)) (drop 6 bs)),
      get_size = (\<lambda>m. length (enc_setup m)), from_message = enc_frame,
      serialize_frame = (\<lambda>f dst. if length f \<le> length dst then Some (f @ drop (length f) dst) else None),
      HEADER_SIZE = 6, ELLSWIFT_ENCODING_SIZE = 2, INITIATOR_EXPECTED_HANDSHAKE_MESSAGE_SIZE = 2\<rparr>"

lemma dec_enc_setup: "dec_setup (enc_setup m) = Some (setup_connection.truncate m)"
proof -
  have "dec_protocol (enc_protocol (sc_protocol m)) = Some (sc_protocol m)"
    by (cases "sc_protocol m") (simp_all add: dec_protocol_def)
  moreover have "of_nat (le_nat (le16 w)) = w" for w
    using unat_width(1) [of w] by (simp add: le16_def le_nat_le_bytes)
  ultimately show ?thesis
    by (simp add: dec_setup_def enc_setup_def setup_connection.truncate_def)
qed

lemma layout_noise_ok:
  assumes "parse_setup_connection C = dec_setup"
  shows "setup_layout_ok layout_noise C"
  unfolding setup_layout_ok_def
proof (intro allI impI)
  fix m :: setup_connection_message
  let ?mt = "MESSAGE_TYPE_SETUP_CONNECTION C"
  let ?hdr = "le16 0 @ [?mt] @ le_bytes 3 (length (enc_setup m))"
  assume "list_all (\<lambda>s. length s \<le> 255)
    [sc_endpoint_host m, sc_vendor m, sc_hardware_version m, sc_firmware m, sc_device_id m]"
  then have "length (enc_setup m) < 2 ^ 24" by (simp add: enc_setup_def enc_str_def)
  then have "enc_frame m ?mt 0 False = Some (?hdr @ enc_setup m)" by (simp add: enc_frame_def Let_def)
  moreover have "length ?hdr = 6" by simp
  moreover have "(?hdr @ enc_setup m) ! 2 = ?mt" by (simp add: nth_append)
  ultimately show "\<exists>f hdr pl. from_message layout_noise m ?mt 0 False = Some f \<and>
      serialize_frame layout_noise f (replicate (HEADER_SIZE layout_noise + get_size layout_noise m) 0) = Some (hdr @ pl) \<and>
      length hdr = HEADER_SIZE layout_noise \<and>
      from_bytes_unchecked layout_noise (hdr @ pl) = Sv2 (Some ?mt) pl \<and>
      parse_setup_connection C pl = Some (setup_connection.truncate m)"
    using assms dec_enc_setup
    by (intro exI [of _ "?hdr @ enc_setup m"] exI [of _ ?hdr] exI [of _ "enc_setup m"])
      (simp add: layout_noise_def)
qed

end
