(* ===== verification/Db_Tests.thy ===== *)
theory Db_Tests
  imports Startup Unit_Tests
begin

text \<open>
  The unit tests of \<open>pool/src/db.rs\<close> on the model, each a truth value with a lemma that it passes. A
  query of a row that is not there fails the test. SQLite's sum, the order in which a hash map is
  iterated and the times at which the clock is read are arguments.
\<close>

definition query_row :: "'a option \<Rightarrow> 'a outcome" where
  "query_row row = ok_or (Panic ''QueryReturnedNoRows'') row"

fun f64_neg :: "f64 \<Rightarrow> f64" where
  "f64_neg NaN = NaN"
| "f64_neg (Inf s) = Inf (\<not> s)"
| "f64_neg (Fin x) = Fin (- x)"

fun f64_abs :: "f64 \<Rightarrow> f64" where
  "f64_abs NaN = NaN"
| "f64_abs (Inf s) = Inf False"
| "f64_abs (Fin x) = Fin \<bar>x\<bar>"

text \<open>\<open>(x - y).abs() < 1e-9\<close>.\<close>

definition close_to :: "f64 \<Rightarrow> f64 \<Rightarrow> bool" where
  "close_to x y \<longleftrightarrow> f64_abs (f64_add x (f64_neg y)) < f64_of_rat (1 / 1000000000)"

text \<open>SQLite sums integral values exactly while the sum is below \<open>2 ^ 53\<close>.\<close>

definition sum_exact :: "(f64 list \<Rightarrow> f64 outcome) \<Rightarrow> bool" where
  "sum_exact sql_sum \<longleftrightarrow> (\<forall>ns. ns \<noteq> [] \<longrightarrow> sum_list ns < 2 ^ 53 \<longrightarrow>
     sql_sum (map (\<lambda>n. Fin (of_nat n)) ns) = Inr (Fin (of_nat (sum_list ns))))"

section \<open>The tests\<close>

definition in_memory :: "database outcome" where
  "in_memory = and_then (configure_conn True) (\<lambda>_. init_schema True None)"

definition difficulty_decreases_with_larger_hash :: bool where
  "difficulty_decreases_with_larger_hash =
     (let easy = [0x00, 0x00, 0x00, 0x01, 0x00, 0x00, 0x00, 0x00] @ replicate 24 0;
          hard = [0x00, 0x00, 0x00, 0x00, 0x00, 0x00, 0x00, 0x01] @ replicate 24 0
      in hash_to_difficulty easy < hash_to_difficulty hard)"

definition schema_creates_without_error :: bool where
  "schema_creates_without_error =
     passes (and_then in_memory (\<lambda>conn. and_then (init_schema True (Some conn)) (\<lambda>_. Inr True)))"

definition flush_inserts_share_and_upserts_epoch_stats :: bool where
  "flush_inserts_share_and_upserts_epoch_stats = passes
     (and_then in_memory (\<lambda>conn.
      let share = \<lparr>se_miner_address = ''bc1qtest'', se_difficulty = Fin 42,
            se_block_hash_be = replicate 32 0xab, se_timestamp = 1700000000\<rparr>
      in and_then (flush_inner [] [share] [] Map.empty [] 0 conn) (\<lambda>conn.
         and_then (query_row (map_option ep_shares_count (epoch_stats conn ''bc1qtest''))) (\<lambda>shares_count.
         Inr (length (shares conn) = 1 \<and> shares_count = 1)))))"

definition best_share_hash_keeps_lowest :: bool where
  "best_share_hash_keeps_lowest = passes
     (and_then in_memory (\<lambda>conn.
      let make = (\<lambda>hash diff. \<lparr>se_miner_address = ''addr'', se_difficulty = diff,
            se_block_hash_be = hash, se_timestamp = 0\<rparr>);
          high = replicate 32 0xff;
          low = (replicate 32 0)[3 := 0x01]
      in and_then (flush_inner []
             [make high (Fin 1), make low (Fin 100), make (replicate 32 0x88) (Fin 2)] [] Map.empty [] 0 conn) (\<lambda>conn.
         and_then (query_row (Option.bind (epoch_stats conn ''addr'') ep_best_share_hash)) (\<lambda>best.
         Inr (best = low)))))"

text \<open>\<open>keys\<close> is the order of the hash map.\<close>

definition minute_windows_write_to_minute_hashrates_and_active_minutes :: "string list \<Rightarrow> bool" where
  "minute_windows_write_to_minute_hashrates_and_active_minutes keys = passes
     (and_then in_memory (\<lambda>conn.
      let windows = [''alice'' \<mapsto> Fin 100, ''bob'' \<mapsto> Fin 50] in
      and_then (flush_inner [] [] [] windows keys 1700000000 conn) (\<lambda>conn.
      and_then (query_row (map_option snd (find (\<lambda>((a, t), d). a = ''alice'') (minute_hashrates conn)))) (\<lambda>alice_diff.
      and_then (query_row (map_option ep_active_minutes (epoch_stats conn ''alice''))) (\<lambda>alice_minutes.
      Inr (close_to alice_diff (Fin 100) \<and> alice_minutes = 1))))))"

definition minute_windows_accumulate_across_flushes :: "(f64 list \<Rightarrow> f64 outcome) \<Rightarrow> bool" where
  "minute_windows_accumulate_across_flushes sql_sum = passes
     (and_then in_memory (\<lambda>conn.
      let ts1 = 1700000000; ts2 = ts1 + 60 in
      and_then (flush_inner [] [] [] [''alice'' \<mapsto> Fin 100] [''alice''] ts1 conn) (\<lambda>conn.
      and_then (flush_inner [] [] [] [''alice'' \<mapsto> Fin 200] [''alice''] ts2 conn) (\<lambda>conn.
      and_then (sql_sum (map snd (filter (\<lambda>((a, t), d). a = ''alice'') (minute_hashrates conn)))) (\<lambda>total.
      and_then (query_row (map_option ep_active_minutes (epoch_stats conn ''alice''))) (\<lambda>active.
      Inr (close_to total (Fin 300) \<and> active = 2)))))))"

text \<open>\<open>clock0\<close> and \<open>clock1\<close> are the two readings of the clock.\<close>

definition hashrate_query_returns_correct_value ::
    "(f64 list \<Rightarrow> f64 outcome) \<Rightarrow> nat option \<Rightarrow> nat option \<Rightarrow> bool" where
  "hashrate_query_returns_correct_value sql_sum clock0 clock1 = passes
     (and_then in_memory (\<lambda>conn.
      let now = floor_minute (now_secs clock0) in
      and_then (for_each (\<lambda>i. flush_inner [] [] [] [''alice'' \<mapsto> Fin 1000] [''alice''] (now - i * 60)) [0, 1] conn) (\<lambda>conn.
      let lookback = 2; cutoff = now_secs clock1 - (sint lookback * 60) in
      and_then (coalesce_sum sql_sum (map snd (filter (\<lambda>((a, t), d). t \<ge> cutoff) (minute_hashrates conn)))) (\<lambda>diff_sum.
      let hashrate = estimate diff_sum lookback in
      Inr (Fin 0 < hashrate)))))"

definition old_minute_hashrates_are_pruned :: "nat option \<Rightarrow> nat option \<Rightarrow> bool" where
  "old_minute_hashrates_are_pruned clock0 clock1 = passes
     (and_then in_memory (\<lambda>conn.
      let old_ts = floor_minute (now_secs clock0) - MINUTE_RETENTION_SECS - 120;
          current_ts = floor_minute (now_secs clock1);
          conn = conn\<lparr>minute_hashrates := ((''alice'', old_ts), Fin 999) # minute_hashrates conn\<rparr>
      in and_then (flush_inner [] [] [] Map.empty [] current_ts conn) (\<lambda>conn.
         Inr (length (filter (\<lambda>((a, t), d). a = ''alice'' \<and> t = old_ts) (minute_hashrates conn)) = 0))))"

section \<open>They pass\<close>

lemma in_memory_is: "in_memory = Inr empty_database"
  by (simp add: in_memory_def configure_conn_def init_schema_def)

lemma close_to_self: "close_to (Fin x) (Fin x)"
proof -
  have "Fin 0 < f64_of_rat (1 / 1000000000)" by code_simp
  then show ?thesis by (simp add: close_to_def f64_of_rat_def [of 0])
qed

lemma difficulty_decreases_with_larger_hash_passes: "difficulty_decreases_with_larger_hash"
proof -
  have exact: "f64_of_nat 4294967296 = Fin 4294967296" "f64_of_nat (Suc 0) = Fin 1" "f64_of_rat 4294901760 = Fin 4294901760"
    "f64_of_rat 1 = Fin 1"
    using f64_of_nat_exact [of 4294967296] f64_of_nat_exact [of 1] f64_of_nat_exact [of 4294901760]
    by (simp_all add: f64_of_nat_def)
  have "f64_le (f64_of_rat (4294901760 / 4294967296)) (f64_of_rat 1)" by (rule f64_of_rat_mono) simp_all
  moreover obtain q where "f64_of_rat (4294901760 / 4294967296) = Fin q"
    using f64_of_rat_bounded [of "4294901760 / 4294967296" 1] by auto
  ultimately show ?thesis
    by (simp add: difficulty_decreases_with_larger_hash_def hash_to_difficulty_def Let_def PDIFF1_UPPER_value
        exact less_f64_def)
qed

lemma schema_creates_without_error_passes: "schema_creates_without_error"
  by (simp add: schema_creates_without_error_def in_memory_is init_schema_def)

lemmas flush_run = flush_inner_def execute_def in_memory_is empty_database_def query_row_def

lemma flush_inserts_share_and_upserts_epoch_stats_passes: "flush_inserts_share_and_upserts_epoch_stats"
  by (simp add: flush_inserts_share_and_upserts_epoch_stats_def flush_run insert_share_def upsert_epoch_share_def
      prune_minutes_def)

lemma best_share_hash_keeps_lowest_passes: "best_share_hash_keeps_lowest"
proof -
  have "(replicate 32 0)[3 := 0x01] < (replicate 32 0xff :: bytes)"
    "\<not> (replicate 32 0x88 :: bytes) < (replicate 32 0)[3 := 0x01]"
    by code_simp+
  then show ?thesis
    unfolding best_share_hash_keeps_lowest_def Let_def
    by (simp add: flush_run insert_share_def upsert_epoch_share_def prune_minutes_def
        del: replicate.simps list_update.simps)
qed

lemmas minute_statements = upsert_minute_def upsert_active_minute_def prune_minutes_def MINUTE_RETENTION_SECS_def

lemma minute_windows_write_to_minute_hashrates_and_active_minutes_passes:
  assumes "distinct keys" and "set keys = {''alice'', ''bob''}"
  shows "minute_windows_write_to_minute_hashrates_and_active_minutes keys"
proof -
  have "length keys = 2" using distinct_card [OF assms(1)] assms(2) by simp
  then obtain x y where "keys = [x, y]" by (auto simp: length_Suc_conv numeral_2_eq_2)
  with assms have "keys = [''alice'', ''bob''] \<or> keys = [''bob'', ''alice'']" by (auto simp: doubleton_eq_iff)
  then show ?thesis
    using close_to_self [of 100]
    by (auto simp: minute_windows_write_to_minute_hashrates_and_active_minutes_def flush_run minute_statements)
qed

lemma minute_windows_accumulate_across_flushes_passes:
  assumes "sum_exact sql_sum"
  shows "minute_windows_accumulate_across_flushes sql_sum"
proof -
  have "sql_sum [Fin 100, Fin 200] = Inr (Fin 300)"
    using assms [unfolded sum_exact_def, rule_format, of "[100, 200]"] by simp
  then show ?thesis
    using close_to_self [of 300]
    by (simp add: minute_windows_accumulate_across_flushes_def flush_run minute_statements Let_def)
qed

text \<open>
  The query sees the row of the current minute, and that of the minute before unless the clock has moved
  on; it passes when the second reading is at most a minute later.
\<close>

lemma estimate_positive:
  assumes "1 \<le> n" and "n \<le> 100000"
  shows "Fin 0 < estimate (Fin (of_nat n)) 2"
proof -
  have exact: "f64_of_nat 2 = Fin 2" "f64_of_rat 120 = Fin 120" "f64_of_rat 1 = Fin 1"
    using f64_of_nat_exact [of 2] f64_of_nat_exact [of 120] f64_of_nat_exact [of 1] by (simp_all add: f64_of_nat_def)
  have n: "(1 :: rat) \<le> of_nat n" "(of_nat n :: rat) \<le> 100000"
    using assms(1) [THEN of_nat_mono, where 'a = rat] assms(2) [THEN of_nat_mono, where 'a = rat]
    by simp_all
  have "f64_of_rat (of_nat n * 4294967296) = Fin (of_nat n * 4294967296)"
    using f64_of_nat_exact [of "n * 4294967296"] assms(2) by (simp add: f64_of_nat_def)
  moreover have "f64_le (f64_of_rat 1) (f64_of_rat (of_nat n * 4294967296 / 120))"
    by (rule f64_of_rat_mono) (use n in simp_all)
  ultimately show ?thesis
    by (cases "f64_of_rat (of_nat n * 4294967296 / 120)")
      (simp_all add: estimate_def exact less_f64_def)
qed

lemma hashrate_query_returns_correct_value_passes:
  assumes "sum_exact sql_sum" and "0 \<le> now_secs clock0"
    and "now_secs clock0 \<le> now_secs clock1" and "now_secs clock1 \<le> now_secs clock0 + 60"
  shows "hashrate_query_returns_correct_value sql_sum clock0 clock1"
proof -
  let ?now = "floor_minute (now_secs clock0)" and ?cutoff = "now_secs clock1 - 120"
  have sums: "sql_sum [Fin 1000] = Inr (Fin 1000)" "sql_sum [Fin 1000, Fin 1000] = Inr (Fin 2000)"
    using assms(1) [unfolded sum_exact_def, rule_format, of "[1000]"]
      assms(1) [unfolded sum_exact_def, rule_format, of "[1000, 1000]"] by simp_all
  have pos: "Fin 0 < estimate (Fin 1000) 2" "Fin 0 < estimate (Fin 2000) 2"
    using estimate_positive [of 1000] estimate_positive [of 2000] by simp_all
  have "?cutoff \<le> ?now" using floor_minute_bounds [of "now_secs clock0"] assms(2,4) by simp
  moreover have "for_each (\<lambda>i. flush_inner [] [] [] [''alice'' \<mapsto> Fin 1000] [''alice''] (?now - i * 60)) [0, 1]
      empty_database = Inr (empty_database\<lparr>
        minute_hashrates := [((''alice'', ?now), Fin 1000), ((''alice'', ?now - 60), Fin 1000)],
        epoch_stats := [''alice'' \<mapsto> \<lparr>ep_shares_count = 0, ep_active_minutes = 2, ep_total_difficulty = Fin 0,
          ep_best_share_hash = None\<rparr>]\<rparr>)"
    by (simp add: flush_run minute_statements)
  ultimately show ?thesis
    using sums pos
    by (auto simp: hashrate_query_returns_correct_value_def in_memory_is Let_def coalesce_sum_def)
qed

lemma floor_minute_mono: "0 \<le> s \<Longrightarrow> s \<le> t \<Longrightarrow> floor_minute s \<le> floor_minute t"
  by (cases "s = 0"; cases "t = 0") (simp_all add: floor_minute_def zdiv_mono1)

lemma old_minute_hashrates_are_pruned_passes:
  assumes "0 \<le> now_secs clock0" and "now_secs clock0 \<le> now_secs clock1"
  shows "old_minute_hashrates_are_pruned clock0 clock1"
  using floor_minute_mono [OF assms]
  by (simp add: old_minute_hashrates_are_pruned_def flush_run minute_statements Let_def)

end
