(* ===== verification/Spec2Isabelle.thy ===== *)
theory Spec2Isabelle
  imports Peer Rpc_Client Keygen Unit_Tests Codec_Tests Db_Tests
begin

text \<open>
  A verification library for the mining pool in \<open>src/pool/src\<close>.

  \<^bold>\<open>The program.\<close> The pool serves miners over the Stratum V2 mining protocol and mines on the templates of
  a Bitcoin node. Three parts run concurrently. The node client (\<open>node_ipc.rs\<close>) fetches block
  templates and publishes each in a watch channel; it passes solutions to the node. One task per
  miner (\<open>stratum_sv2.rs\<close>), over an encrypted transport (\<open>noise_connection.rs\<close>), opens channels, sends
  a job for each template, judges shares, hands solutions to the node client and reports shares to the
  database worker. The worker (\<open>db.rs\<close>) batches the reports and writes them to SQLite. \<open>jobs.rs\<close> builds
  the coinbase and the merkle branch, \<open>config.rs\<close> reads the environment, \<open>main.rs\<close> starts the parts,
  \<open>rpc.rs\<close> is a JSON-RPC client of the node and \<open>bin/keygen.rs\<close> prints a key pair.

  \<^bold>\<open>Conventions.\<close> A Rust struct is a record with the same fields, a fallible function returns an
  \<open>outcome\<close> whose error is a \<open>Bail\<close> (an \<open>anyhow\<close> error) or a \<open>Panic\<close>; machine integers are words
  and an overflow that Rust's checks catch is a \<open>Panic\<close>. Asynchronous code is a step function on
  a state with a log of its effects, one step per completed await that can interleave with others.
  The list \<open>w_faults\<close> says which writes fail, \<open>tx_faults\<close> which SQL statements. Text that \<open>context\<close>
  adds to an error, and tracing, are left out. Third-party code is never defined here: it is a field
  of \<open>crates\<close>, \<open>codec\<close>, \<open>node\<close>, \<open>node_api\<close>, \<open>noise_decoder\<close>, \<open>noise_codec\<close>, \<open>rpc_env\<close> or \<open>outside\<close>, and what the
  pool relies on is a named predicate (\<open>crates_ok\<close>, \<open>header_ok\<close>, \<open>decoder_ok\<close>,
  \<open>noise_handshake\<close>, \<open>noise_link\<close>, \<open>wallet_node\<close>, \<open>hex_reads\<close>).
  Each is shown to hold of a concrete instance, and the witness of each theorem uses it.

  \<^bold>\<open>The theories\<close>, from the bottom.
  \<^item> \<open>Prelude\<close>: integers, byte strings and their numbers, hexadecimal text, outcomes, the locale
    \<open>event_loop\<close>. \<open>Wire_Format\<close>: the consensus encoding of transactions and a reader, as a
    specification. \<open>Crates\<close>: the parameters. \<open>Float64\<close>: binary64 with rounding to nearest even.
  \<^item> \<open>Coinbase\<close> (\<open>jobs.rs\<close>): both placeholder splitters, which meet the contract of the locale
    \<open>extranonce_splitter\<close>, and the construction from template fields. The halves with any extranonce
    between them are the encoding of the intended transaction.
  \<^item> \<open>Merkle\<close> (\<open>jobs.rs\<close>): the branch, equal to the protocol's merkle root for every coinbase.
  \<^item> \<open>Difficulty\<close> (\<open>stratum_sv2.rs\<close>, \<open>db.rs\<close>): compact bits, the target of a hashrate with its bounds and
    its panic, the difficulty of a hash. The locale \<open>target_view\<close> relates the three ways in which
    the code compares 256-bit values to the order of numbers.
  \<^item> \<open>Templates\<close>, \<open>Node_Ipc\<close> (\<open>node_ipc.rs\<close>): the template of a block client; the loop of \<open>ipc_main\<close>
    with the replies of \<open>wait_next\<close> and \<open>submit_solution\<close>. Published templates are well formed and
    numbered without gaps.
  \<^item> \<open>Messages\<close>, \<open>Channels\<close>, \<open>Handlers\<close>, \<open>Connection\<close> (\<open>stratum_sv2.rs\<close>): the messages, the state of a
    connection, every handler, and the \<open>select!\<close> loop, an interpretation of \<open>event_loop\<close>. \<open>Shares\<close> is
    the abstract judge of a share, which compares numbers, and the refinement; \<open>Delivery\<close> says what
    each of the other handlers sends. \<open>Sample_Run\<close> is a concrete run. \<open>Mining_Server\<close> has the properties.
  \<^item> \<open>Database\<close>, \<open>Db_Worker\<close>, \<open>Db_Reader\<close> (\<open>db.rs\<close>): the tables and statements, the transaction of a
    flush with rollback, the worker's loop (an interpretation of \<open>event_loop\<close>), and the estimates.
  \<^item> \<open>Noise_Transport\<close> (\<open>noise_connection.rs\<close>): the frame reader over a socket that delivers arbitrary
    pieces, with cancellation; the writers and the handshakes. It refines a decoder on the byte stream.
  \<^item> \<open>Frame_Link\<close> (\<open>noise_connection.rs\<close>): both ends of a connection. The handshakes of the initiator and the
    responder complete against each other, and the messages that either end then writes are the frames
    that the other reads. A reader over a socket is a \<open>frame_source\<close>, a locale that \<open>read_frame\<close> meets.
  \<^item> \<open>Session\<close> (\<open>stratum_sv2.rs\<close> on \<open>noise_connection.rs\<close>): the loop of a connection on top of its frame
    reader and socket, with the reads that the other branch of \<open>select!\<close> drops. It goes through runs of
    \<open>Connection\<close> whose frames are the first frames of the byte stream.
  \<^item> \<open>Rpc_Client\<close> (\<open>rpc.rs\<close>), \<open>Config\<close> (\<open>config.rs\<close>), \<open>Keygen\<close> (\<open>bin/keygen.rs\<close>).
  \<^item> \<open>Pool\<close>: the three parts together, as the step relation \<open>pool_step\<close> with every interleaving.
    The locale \<open>template_source\<close>, an extension of \<open>event_loop\<close>, is what the connections rely on; the
    node client is interpreted as one.
    \<open>Startup\<close> (\<open>main.rs\<close>): how they come up, the bootstrap of the node client, and a connection task from
    its socket on; a started pool is a start of that system.
    \<open>Peer\<close>: what a peer writes with the program's initiator is what such a task handles.
  \<^item> \<open>Unit_Tests\<close>, \<open>Codec_Tests\<close>, \<open>Db_Tests\<close>: the repository's own unit tests as truth values, each with
    the lemma that it passes. They check the definitions on the inputs that the authors chose.

  \<^bold>\<open>What is shown.\<close> Of the whole pool: every solution submitted to the node is a valid block for a
  published template that pays the whole value to a valid address; every acknowledged share is in
  the database, the worker's batch or the queue; a new template reaches every channel of every
  connection; when the node client has ended, miners are still served on its last template; a restart
  keeps the old shares and miners. Of a connection: job
  identifiers increase, extranonce prefixes are distinct, each acknowledgement is reported, a share
  is answered as the judge says (however often it is sent), and the frames handled are the frames
  sent, whatever the schedule. Of the worker: nothing is lost when a flush fails, the statistics
  agree with the rows, and each share is counted in one minute. Of the
  transport: a read that \<open>select!\<close> drops loses no byte, frames do not depend on how bytes are split, the
  two handshakes complete against each other, and behind them each end reads what the other has written.
  The error behaviour of each component is stated with its functional behaviour, and the theorems of kind error record where the code departs from its comments.

  \<^bold>\<open>Loops and bounds.\<close> The inner read loop, the merkle loops and the division end by a measure. The
  frame and handshake loops are partial functions whose value \<open>None\<close> is a loop that does not end;
  \<open>transport_returns\<close> proves that it does not occur for a decoder that asks for at least one byte when it
  lacks some, because each round consumes bytes of a finite socket. The loops of the node client, a
  connection and the worker run as long as there are events; their properties hold after any number of them.
  No fuel is used. The queues of \<open>Pool\<close> are unbounded: a sender that waits for space in the code is
  a step that happens later.

  \<^bold>\<open>Not modelled.\<close> The TCP listener, threads and the runtime (their results are parameters); the
  capnp transport (each remote call is a field of \<open>node_api\<close> or \<open>node\<close>, or an event of the loop; a failed
  \<open>new_thread\<close> of the loop is \<open>Thread_Failed\<close>); SQLite beyond the
  documented meaning of the statements; the codecs of the Stratum messages and of Noise,
  of which only laws are stated; tracing; the unused table of competition entries; the integration
  tests, which drive a real node.
\<close>

end
